theory Spec2Isabelle
  imports Main "HOL-Library.Word" "HOL-Library.Multiset"
begin

section \<open>Data model of the Local Store\<close>

text \<open>
  The Local Store is the class \<open>Database\<close>, a wrapper around five object stores of the
  browser's embedded database. A timestamp is the ISO string of \<open>new Date()\<close>; the clock
  is read by the caller of each operation and passed in as \<open>now\<close>. A blob is its bytes
  and its \<open>type\<close> string; \<open>size\<close> is the number of bytes.
\<close>

type_synonym timestamp = string
type_synonym byte = "8 word"

record blob =
  blob_bytes :: "byte list"
  blob_type :: string

definition blob_size :: "blob \<Rightarrow> nat" where
  "blob_size b = length (blob_bytes b)"

record asset =
  asset_key :: string
  asset_blob :: blob
  asset_mime :: string
  asset_updatedAt :: timestamp

record album =
  album_id :: nat
  album_name :: string
  album_order :: int
  album_createdAt :: timestamp
  album_updatedAt :: "timestamp option"

record photo =
  photo_id :: nat
  photo_albumId :: nat
  photo_blob :: blob
  photo_mime :: string
  photo_size :: nat
  photo_order :: int
  photo_createdAt :: timestamp

record essay =
  essay_id :: nat
  essay_title :: string
  essay_pdfBlob :: blob
  essay_mime :: string
  essay_size :: nat
  essay_order :: int
  essay_createdAt :: timestamp
  essay_updatedAt :: "timestamp option"

record video =
  video_id :: nat
  video_provider :: string
  video_url :: string
  video_embedId :: string
  video_title :: "string option"
  video_order :: int
  video_createdAt :: timestamp

subsection \<open>Object stores with a key generator\<close>

text \<open>
  An object store created with \<open>autoIncrement: true\<close> holds its records under distinct
  numeric keys and owns a key generator that starts at 1 and never decreases: neither
  \<open>delete\<close> nor \<open>clear\<close> resets it. \<open>getAll\<close> answers in ascending key order, \<open>add\<close>
  without a key takes the generator's number, \<open>put\<close> replaces the record stored under the
  key of its argument (or stores it as a new record and moves the generator past its key).
\<close>

record 'a objectStore =
  records :: "'a list"
  keyGen :: nat

definition emptyStore :: "'a objectStore" where
  "emptyStore = \<lparr>records = [], keyGen = 1\<rparr>"

definition store_getAll :: "('a \<Rightarrow> nat) \<Rightarrow> 'a objectStore \<Rightarrow> 'a list" where
  "store_getAll idf s = sort_key idf (records s)"

definition store_get :: "('a \<Rightarrow> nat) \<Rightarrow> 'a objectStore \<Rightarrow> nat \<Rightarrow> 'a option" where
  "store_get idf s k = find (\<lambda>r. idf r = k) (records s)"

definition store_add :: "(nat \<Rightarrow> 'a) \<Rightarrow> 'a objectStore \<Rightarrow> nat \<times> 'a objectStore" where
  "store_add mk s =
     (keyGen s, \<lparr>records = records s @ [mk (keyGen s)], keyGen = keyGen s + 1\<rparr>)"

definition store_put :: "('a \<Rightarrow> nat) \<Rightarrow> 'a \<Rightarrow> 'a objectStore \<Rightarrow> 'a objectStore" where
  "store_put idf r s =
     (case store_get idf s (idf r) of
        Some old \<Rightarrow> s\<lparr>records := map (\<lambda>x. if idf x = idf r then r else x) (records s)\<rparr>
      | None \<Rightarrow> \<lparr>records = records s @ [r], keyGen = max (keyGen s) (idf r + 1)\<rparr>)"

definition store_delete :: "('a \<Rightarrow> nat) \<Rightarrow> nat \<Rightarrow> 'a objectStore \<Rightarrow> 'a objectStore" where
  "store_delete idf k s = s\<lparr>records := filter (\<lambda>r. idf r \<noteq> k) (records s)\<rparr>"

definition store_clear :: "'a objectStore \<Rightarrow> 'a objectStore" where
  "store_clear s = s\<lparr>records := []\<rparr>"

subsection \<open>The database, its requests and its errors\<close>

record database =
  assets :: "string \<rightharpoonup> asset"
  albums :: "album objectStore"
  photos :: "photo objectStore"
  essays :: "essay objectStore"
  videos :: "video objectStore"

text \<open>The state after \<open>init()\<close> on a browser profile that has never seen the application.\<close>

definition emptyDb :: database where
  "emptyDb = \<lparr>assets = Map.empty, albums = emptyStore, photos = emptyStore,
              essays = emptyStore, videos = emptyStore\<rparr>"

definition dbVersion :: int where
  "dbVersion = 1"

text \<open>
  Every request the wrapper places carries an \<open>onerror\<close> handler that rejects the
  operation's promise with \<open>request.error\<close>. Which requests the storage engine fails is
  not decided by this code, so it is a parameter: a predicate on requests. A failed
  request aborts its transaction, and nothing that transaction wrote is kept.
\<close>

datatype storeName = Assets | Albums | Photos | Essays | Videos

datatype request =
    ReqGet storeName
  | ReqGetAll storeName
  | ReqAdd storeName
  | ReqPut storeName
  | ReqDelete storeName nat
  | ReqClear storeName

type_synonym faults = "request \<Rightarrow> bool"

definition no_faults :: faults where
  "no_faults = (\<lambda>r. False)"

text \<open>
  The errors of the wrapper: \<open>NotFound\<close> is \<open>Error('Album not found')\<close> and
  \<open>Error('Essay not found')\<close>, \<open>InvalidReference\<close> is \<open>Error('Invalid video URL')\<close>,
  \<open>IncompatibleVersion\<close> is \<open>Error('Incompatible data version')\<close>,
  \<open>InvalidCharacter\<close> is the exception \<open>atob\<close> throws on text that is not base64,
  \<open>TransactionInactive\<close> is the \<open>TransactionInactiveError\<close> the storage engine throws
  when a request is placed on a transaction that has already finished.
\<close>

datatype error =
    RequestError request
  | NotFound
  | InvalidReference
  | IncompatibleVersion
  | InvalidCharacter
  | TransactionInactive

subsection \<open>Order values\<close>

text \<open>
  \<open>x.order || 0\<close> replaces a falsy order by 0; among numbers only 0 is falsy.
  \<open>Math.max(...)\<close> is only called on a non-empty array (the source tests \<open>length > 0\<close>).
\<close>

definition orZero :: "int \<Rightarrow> int" where
  "orZero n = (if n = 0 then 0 else n)"

fun mathMax :: "int list \<Rightarrow> int" where
  "mathMax [] = 0"
| "mathMax (x # xs) = fold max xs x"

definition maxOrder :: "int list \<Rightarrow> int" where
  "maxOrder os = (if length os > 0 then mathMax (map orZero os) else 0)"

definition byOrder :: "('a \<Rightarrow> int) \<Rightarrow> 'a list \<Rightarrow> 'a list" where
  "byOrder ordf xs = sort_key (\<lambda>x. orZero (ordf x)) xs"

section \<open>Operations of the Local Store\<close>

subsection \<open>Assets\<close>

definition putAsset :: "faults \<Rightarrow> timestamp \<Rightarrow> string \<Rightarrow> blob \<Rightarrow> database \<Rightarrow> (error + string) \<times> database" where
  "putAsset F now key file db =
     (if F (ReqPut Assets) then (Inl (RequestError (ReqPut Assets)), db)
      else (Inr key,
            db\<lparr>assets := (assets db)(key \<mapsto>
              \<lparr>asset_key = key, asset_blob = file, asset_mime = blob_type file,
               asset_updatedAt = now\<rparr>)\<rparr>))"

definition getAsset :: "faults \<Rightarrow> string \<Rightarrow> database \<Rightarrow> error + asset option" where
  "getAsset F key db =
     (if F (ReqGet Assets) then Inl (RequestError (ReqGet Assets)) else Inr (assets db key))"

subsection \<open>Albums\<close>

text \<open>What \<open>onsuccess\<close> of the \<open>getAll\<close> request resolves with.\<close>

definition albumListing :: "database \<Rightarrow> album list" where
  "albumListing db = byOrder album_order (store_getAll album_id (albums db))"

definition getAllAlbums :: "faults \<Rightarrow> database \<Rightarrow> error + album list" where
  "getAllAlbums F db =
     (if F (ReqGetAll Albums) then Inl (RequestError (ReqGetAll Albums))
      else Inr (albumListing db))"

definition createAlbum :: "faults \<Rightarrow> timestamp \<Rightarrow> string \<Rightarrow> database \<Rightarrow> (error + nat) \<times> database" where
  "createAlbum F now name db =
     (case getAllAlbums F db of
        Inl e \<Rightarrow> (Inl e, db)
      | Inr as \<Rightarrow>
          if F (ReqAdd Albums) then (Inl (RequestError (ReqAdd Albums)), db)
          else (case store_add (\<lambda>k. \<lparr>album_id = k, album_name = name,
                                     album_order = maxOrder (map album_order as) + 1,
                                     album_createdAt = now, album_updatedAt = None\<rparr>)
                       (albums db) of
                  (k, s) \<Rightarrow> (Inr k, db\<lparr>albums := s\<rparr>)))"

definition renameAlbum :: "faults \<Rightarrow> timestamp \<Rightarrow> nat \<Rightarrow> string \<Rightarrow> database \<Rightarrow> (error + nat) \<times> database" where
  "renameAlbum F now ident name db =
     (if F (ReqGet Albums) then (Inl (RequestError (ReqGet Albums)), db)
      else (case store_get album_id (albums db) ident of
              None \<Rightarrow> (Inl NotFound, db)
            | Some a \<Rightarrow>
                if F (ReqPut Albums) then (Inl (RequestError (ReqPut Albums)), db)
                else (Inr (album_id a),
                      db\<lparr>albums := store_put album_id
                                     (a\<lparr>album_name := name, album_updatedAt := Some now\<rparr>)
                                     (albums db)\<rparr>)))"

subsection \<open>Photos\<close>

text \<open>The \<open>albumId\<close> index answers with the photos of the album in ascending key order.\<close>

definition photoListing :: "nat \<Rightarrow> database \<Rightarrow> photo list" where
  "photoListing albumId db =
     byOrder photo_order
       (filter (\<lambda>p. photo_albumId p = albumId) (store_getAll photo_id (photos db)))"

definition getPhotosByAlbum :: "faults \<Rightarrow> nat \<Rightarrow> database \<Rightarrow> error + photo list" where
  "getPhotosByAlbum F albumId db =
     (if F (ReqGetAll Photos) then Inl (RequestError (ReqGetAll Photos))
      else Inr (photoListing albumId db))"

definition addPhoto :: "faults \<Rightarrow> timestamp \<Rightarrow> nat \<Rightarrow> blob \<Rightarrow> database \<Rightarrow> (error + nat) \<times> database" where
  "addPhoto F now albumId file db =
     (case getPhotosByAlbum F albumId db of
        Inl e \<Rightarrow> (Inl e, db)
      | Inr ps \<Rightarrow>
          if F (ReqAdd Photos) then (Inl (RequestError (ReqAdd Photos)), db)
          else (case store_add (\<lambda>k. \<lparr>photo_id = k, photo_albumId = albumId, photo_blob = file,
                                     photo_mime = blob_type file, photo_size = blob_size file,
                                     photo_order = maxOrder (map photo_order ps) + 1,
                                     photo_createdAt = now\<rparr>)
                       (photos db) of
                  (k, s) \<Rightarrow> (Inr k, db\<lparr>photos := s\<rparr>)))"

definition removePhoto :: "faults \<Rightarrow> nat \<Rightarrow> database \<Rightarrow> (error + unit) \<times> database" where
  "removePhoto F photoId db =
     (if F (ReqDelete Photos photoId) then (Inl (RequestError (ReqDelete Photos photoId)), db)
      else (Inr (), db\<lparr>photos := store_delete photo_id photoId (photos db)\<rparr>))"

text \<open>
  \<open>deleteAlbum\<close> opens a transaction over \<open>albums\<close> and \<open>photos\<close> and takes its two
  object stores, but places no request on it. It then awaits \<open>getPhotosByAlbum\<close> and, for
  each photo of the listing in turn, \<open>removePhoto\<close>; each of these runs in a transaction of
  its own, so the first rejection leaves the loop and the function with the photos removed
  so far gone for good.

  A transaction without a pending request finishes as soon as control returns to the event
  loop, which the first \<open>await\<close> does, also when the album has no photo. So when the loop
  is through, \<open>albumStore.delete(id)\<close> is called on a finished transaction: the call throws
  \<open>TransactionInactiveError\<close> inside the executor of the returned promise, which rejects
  with it. No delete request for the album is ever placed.
\<close>

fun deleteAlbum_photos :: "faults \<Rightarrow> photo list \<Rightarrow> database \<Rightarrow> (error + unit) \<times> database" where
  "deleteAlbum_photos F [] db = (Inr (), db)"
| "deleteAlbum_photos F (p # ps) db =
     (case removePhoto F (photo_id p) db of
        (Inl e, db') \<Rightarrow> (Inl e, db')
      | (Inr u, db') \<Rightarrow> deleteAlbum_photos F ps db')"

definition deleteAlbum :: "faults \<Rightarrow> nat \<Rightarrow> database \<Rightarrow> (error + unit) \<times> database" where
  "deleteAlbum F ident db =
     (case getPhotosByAlbum F ident db of
        Inl e \<Rightarrow> (Inl e, db)
      | Inr ps \<Rightarrow>
          (case deleteAlbum_photos F ps db of
             (Inl e, db') \<Rightarrow> (Inl e, db')
           | (Inr u, db') \<Rightarrow> (Inl TransactionInactive, db')))"


subsection \<open>Bulk reorder\<close>

text \<open>
  The four \<open>reorder\<close> methods are the same code over different stores. Inside one
  read-write transaction, \<open>idsInOrder.map((id, index) => ...)\<close> places one \<open>get\<close> per
  id; all of them are placed before the first \<open>onsuccess\<close> runs, so every \<open>get\<close> reads
  the store as it was. The callback of a \<open>get\<close> that found a record (for photos: a record
  of the given album) sets its \<open>order\<close> to the index and places a \<open>put\<close>; the puts run in
  the order of the list. \<open>Promise.all\<close> resolves with one \<open>undefined\<close> per id.
\<close>

definition reorderUpdates ::
  "('a \<Rightarrow> nat) \<Rightarrow> ('a \<Rightarrow> bool) \<Rightarrow> (int \<Rightarrow> 'a \<Rightarrow> 'a) \<Rightarrow> 'a objectStore \<Rightarrow> nat list \<Rightarrow> 'a list" where
  "reorderUpdates idf inScope setOrder s idsInOrder =
     List.map_filter
       (\<lambda>(index, ident). case store_get idf s ident of
                            None \<Rightarrow> None
                          | Some r \<Rightarrow> if inScope r then Some (setOrder (int index) r) else None)
       (enumerate 0 idsInOrder)"

definition reorderStore ::
  "faults \<Rightarrow> storeName \<Rightarrow> ('a \<Rightarrow> nat) \<Rightarrow> ('a \<Rightarrow> bool) \<Rightarrow> (int \<Rightarrow> 'a \<Rightarrow> 'a) \<Rightarrow> nat list \<Rightarrow>
   'a objectStore \<Rightarrow> (error + unit list) \<times> 'a objectStore" where
  "reorderStore F nm idf inScope setOrder idsInOrder s =
     (if idsInOrder \<noteq> [] \<and> F (ReqGet nm) then (Inl (RequestError (ReqGet nm)), s)
      else if reorderUpdates idf inScope setOrder s idsInOrder \<noteq> [] \<and> F (ReqPut nm)
      then (Inl (RequestError (ReqPut nm)), s)
      else (Inr (replicate (length idsInOrder) ()),
            fold (store_put idf) (reorderUpdates idf inScope setOrder s idsInOrder) s))"

definition reorderAlbums :: "faults \<Rightarrow> nat list \<Rightarrow> database \<Rightarrow> (error + unit list) \<times> database" where
  "reorderAlbums F idsInOrder db =
     (case reorderStore F Albums album_id (\<lambda>a. True) (\<lambda>i a. a\<lparr>album_order := i\<rparr>)
             idsInOrder (albums db) of
        (r, s) \<Rightarrow> (r, db\<lparr>albums := s\<rparr>))"

definition reorderPhotos :: "faults \<Rightarrow> nat \<Rightarrow> nat list \<Rightarrow> database \<Rightarrow> (error + unit list) \<times> database" where
  "reorderPhotos F albumId idsInOrder db =
     (case reorderStore F Photos photo_id (\<lambda>p. photo_albumId p = albumId)
             (\<lambda>i p. p\<lparr>photo_order := i\<rparr>) idsInOrder (photos db) of
        (r, s) \<Rightarrow> (r, db\<lparr>photos := s\<rparr>))"

subsection \<open>Essays\<close>

definition essayListing :: "database \<Rightarrow> essay list" where
  "essayListing db = byOrder essay_order (store_getAll essay_id (essays db))"

definition getAllEssays :: "faults \<Rightarrow> database \<Rightarrow> error + essay list" where
  "getAllEssays F db =
     (if F (ReqGetAll Essays) then Inl (RequestError (ReqGetAll Essays))
      else Inr (essayListing db))"

definition addEssay :: "faults \<Rightarrow> timestamp \<Rightarrow> blob \<Rightarrow> string \<Rightarrow> database \<Rightarrow> (error + nat) \<times> database" where
  "addEssay F now file title db =
     (case getAllEssays F db of
        Inl e \<Rightarrow> (Inl e, db)
      | Inr es \<Rightarrow>
          if F (ReqAdd Essays) then (Inl (RequestError (ReqAdd Essays)), db)
          else (case store_add (\<lambda>k. \<lparr>essay_id = k, essay_title = title, essay_pdfBlob = file,
                                     essay_mime = ''application/pdf'', essay_size = blob_size file,
                                     essay_order = maxOrder (map essay_order es) + 1,
                                     essay_createdAt = now, essay_updatedAt = None\<rparr>)
                       (essays db) of
                  (k, s) \<Rightarrow> (Inr k, db\<lparr>essays := s\<rparr>)))"

definition renameEssay :: "faults \<Rightarrow> timestamp \<Rightarrow> nat \<Rightarrow> string \<Rightarrow> database \<Rightarrow> (error + nat) \<times> database" where
  "renameEssay F now ident title db =
     (if F (ReqGet Essays) then (Inl (RequestError (ReqGet Essays)), db)
      else (case store_get essay_id (essays db) ident of
              None \<Rightarrow> (Inl NotFound, db)
            | Some e \<Rightarrow>
                if F (ReqPut Essays) then (Inl (RequestError (ReqPut Essays)), db)
                else (Inr (essay_id e),
                      db\<lparr>essays := store_put essay_id
                                     (e\<lparr>essay_title := title, essay_updatedAt := Some now\<rparr>)
                                     (essays db)\<rparr>)))"

definition deleteEssay :: "faults \<Rightarrow> nat \<Rightarrow> database \<Rightarrow> (error + unit) \<times> database" where
  "deleteEssay F ident db =
     (if F (ReqDelete Essays ident) then (Inl (RequestError (ReqDelete Essays ident)), db)
      else (Inr (), db\<lparr>essays := store_delete essay_id ident (essays db)\<rparr>))"

definition reorderEssays :: "faults \<Rightarrow> nat list \<Rightarrow> database \<Rightarrow> (error + unit list) \<times> database" where
  "reorderEssays F idsInOrder db =
     (case reorderStore F Essays essay_id (\<lambda>e. True) (\<lambda>i e. e\<lparr>essay_order := i\<rparr>)
             idsInOrder (essays db) of
        (r, s) \<Rightarrow> (r, db\<lparr>essays := s\<rparr>))"

section \<open>Recognising video URLs\<close>

text \<open>
  \<open>parseVideoUrl\<close> applies two regular expressions with \<open>String.prototype.match\<close>. The
  matcher below is the backtracking matcher of the language: it lists the ways an
  expression can match at the head of the input in the order in which the engine tries
  them (the left alternative before the right one, one more iteration of a star before
  stopping), and \<open>match\<close> takes the first way at the leftmost position that has one.
  A state is the input still to be read and the text of the capture group, if it has
  been matched. A star does not repeat an iteration that read nothing. Strings are lists
  of code units below 256.
\<close>

datatype rx =
    RChar char
  | RClass "char \<Rightarrow> bool"
  | REps
  | RSeq rx rx
  | RAlt rx rx
  | RStar rx
  | RGroup rx

type_synonym rx_state = "string \<times> string option"

function rx_match :: "rx \<Rightarrow> rx_state \<Rightarrow> rx_state list" where
  "rx_match (RChar c) st =
     (case fst st of [] \<Rightarrow> [] | x # t \<Rightarrow> if x = c then [(t, snd st)] else [])"
| "rx_match (RClass P) st =
     (case fst st of [] \<Rightarrow> [] | x # t \<Rightarrow> if P x then [(t, snd st)] else [])"
| "rx_match REps st = [st]"
| "rx_match (RSeq a b) st = concat (map (rx_match b) (rx_match a st))"
| "rx_match (RAlt a b) st = rx_match a st @ rx_match b st"
| "rx_match (RStar a) st =
     concat (map (rx_match (RStar a))
                 (filter (\<lambda>st'. length (fst st') < length (fst st)) (rx_match a st))) @ [st]"
| "rx_match (RGroup a) st =
     map (\<lambda>st'. (fst st', Some (take (length (fst st) - length (fst st')) (fst st))))
         (rx_match a st)"
  by pat_completeness auto
termination
  by (relation "inv_image (less_than <*lex*> less_than) (\<lambda>(r, st). (size r, length (fst st)))")
     auto

fun rx_search :: "rx \<Rightarrow> string \<Rightarrow> string option option" where
  "rx_search r [] = (case rx_match r ([], None) of [] \<Rightarrow> None | st # sts \<Rightarrow> Some (snd st))"
| "rx_search r (c # t) =
     (case rx_match r (c # t, None) of [] \<Rightarrow> rx_search r t | st # sts \<Rightarrow> Some (snd st))"

definition rx_lit :: "string \<Rightarrow> rx" where
  "rx_lit s = foldr (\<lambda>c r. RSeq (RChar c) r) s REps"

definition rx_plus :: "rx \<Rightarrow> rx" where
  "rx_plus a = RSeq a (RStar a)"

definition rx_opt :: "rx \<Rightarrow> rx" where
  "rx_opt a = RAlt a REps"

definition rx_rep :: "nat \<Rightarrow> rx \<Rightarrow> rx" where
  "rx_rep n a = foldr RSeq (replicate n a) REps"

text \<open>The classes: \<open>.\<close> (no line terminator), \<open>\s\<close>, \<open>[^\/]\<close>, \<open>[?&]\<close>, \<open>[^"&?\/\s]\<close>, \<open>[0-9]\<close>.\<close>

definition cls_dot :: "char \<Rightarrow> bool" where
  "cls_dot c = (c \<noteq> CHR 0x0A \<and> c \<noteq> CHR 0x0D)"

definition cls_space :: "char \<Rightarrow> bool" where
  "cls_space c = (c \<in> set [CHR 0x09, CHR 0x0A, CHR 0x0B, CHR 0x0C, CHR 0x0D, CHR 0x20, CHR 0xA0])"

definition cls_notSlash :: "char \<Rightarrow> bool" where
  "cls_notSlash c = (c \<noteq> CHR ''/'')"

definition cls_queryMark :: "char \<Rightarrow> bool" where
  "cls_queryMark c = (c = CHR ''?'' \<or> c = CHR ''&'')"

definition cls_idChar :: "char \<Rightarrow> bool" where
  "cls_idChar c = (c \<notin> set [CHR 0x22, CHR ''&'', CHR ''?'', CHR ''/''] \<and> \<not> cls_space c)"

definition cls_digit :: "char \<Rightarrow> bool" where
  "cls_digit c = (c \<in> set ''0123456789'')"

definition youtubeRegex :: rx where
  "youtubeRegex =
     RSeq
       (RAlt
          (RSeq (rx_lit ''youtube.com/'')
             (RAlt (RSeq (rx_plus (RClass cls_notSlash))
                     (RSeq (RChar CHR ''/'') (RSeq (rx_plus (RClass cls_dot)) (RChar CHR ''/''))))
                (RAlt (RSeq (RAlt (RChar CHR ''v'') (RSeq (RChar CHR ''e'') (rx_opt (rx_lit ''mbed''))))
                        (RChar CHR ''/''))
                   (RSeq (RStar (RClass cls_dot)) (RSeq (RClass cls_queryMark) (rx_lit ''v=''))))))
          (rx_lit ''youtu.be/''))
       (RGroup (rx_rep 11 (RClass cls_idChar)))"

definition vimeoRegex :: rx where
  "vimeoRegex = RSeq (rx_lit ''vimeo.com/'') (RGroup (rx_plus (RClass cls_digit)))"

record videoInfo =
  vi_provider :: string
  vi_embedId :: string
  vi_title :: "string option"

text \<open>
  \<open>youtubeMatch[1]\<close> is the text of the capture group; the group is not optional in
  either expression, so a match always has it.
\<close>

definition groupText :: "string option \<Rightarrow> string" where
  "groupText g = (case g of None \<Rightarrow> [] | Some t \<Rightarrow> t)"

definition parseVideoUrl :: "string \<Rightarrow> videoInfo option" where
  "parseVideoUrl url =
     (case rx_search youtubeRegex url of
        Some g \<Rightarrow> Some \<lparr>vi_provider = ''youtube'', vi_embedId = groupText g, vi_title = None\<rparr>
      | None \<Rightarrow>
          (case rx_search vimeoRegex url of
             Some g \<Rightarrow> Some \<lparr>vi_provider = ''vimeo'', vi_embedId = groupText g, vi_title = None\<rparr>
           | None \<Rightarrow> None))"

subsection \<open>Videos\<close>

definition videoListing :: "database \<Rightarrow> video list" where
  "videoListing db = byOrder video_order (store_getAll video_id (videos db))"

definition getAllVideos :: "faults \<Rightarrow> database \<Rightarrow> error + video list" where
  "getAllVideos F db =
     (if F (ReqGetAll Videos) then Inl (RequestError (ReqGetAll Videos))
      else Inr (videoListing db))"

definition addVideo :: "faults \<Rightarrow> timestamp \<Rightarrow> string \<Rightarrow> database \<Rightarrow> (error + nat) \<times> database" where
  "addVideo F now url db =
     (case parseVideoUrl url of
        None \<Rightarrow> (Inl InvalidReference, db)
      | Some videoInfo \<Rightarrow>
          (case getAllVideos F db of
             Inl e \<Rightarrow> (Inl e, db)
           | Inr vs \<Rightarrow>
               if F (ReqAdd Videos) then (Inl (RequestError (ReqAdd Videos)), db)
               else (case store_add (\<lambda>k. \<lparr>video_id = k, video_provider = vi_provider videoInfo,
                                          video_url = url, video_embedId = vi_embedId videoInfo,
                                          video_title = vi_title videoInfo,
                                          video_order = maxOrder (map video_order vs) + 1,
                                          video_createdAt = now\<rparr>)
                            (videos db) of
                       (k, s) \<Rightarrow> (Inr k, db\<lparr>videos := s\<rparr>))))"

definition deleteVideo :: "faults \<Rightarrow> nat \<Rightarrow> database \<Rightarrow> (error + unit) \<times> database" where
  "deleteVideo F ident db =
     (if F (ReqDelete Videos ident) then (Inl (RequestError (ReqDelete Videos ident)), db)
      else (Inr (), db\<lparr>videos := store_delete video_id ident (videos db)\<rparr>))"

definition reorderVideos :: "faults \<Rightarrow> nat list \<Rightarrow> database \<Rightarrow> (error + unit list) \<times> database" where
  "reorderVideos F idsInOrder db =
     (case reorderStore F Videos video_id (\<lambda>v. True) (\<lambda>i v. v\<lparr>video_order := i\<rparr>)
             idsInOrder (videos db) of
        (r, s) \<Rightarrow> (r, db\<lparr>videos := s\<rparr>))"

text \<open>
  What a listing promises: ascending by \<open>order\<close>, and among records of equal \<open>order\<close>
  ascending by key.
\<close>

definition orderedListing :: "('a \<Rightarrow> nat) \<Rightarrow> ('a \<Rightarrow> int) \<Rightarrow> 'a list \<Rightarrow> bool" where
  "orderedListing idf ordf xs =
     sorted_wrt (\<lambda>a b. ordf a < ordf b \<or> (ordf a = ordf b \<and> idf a \<le> idf b)) xs"

section \<open>The Blob Codec\<close>

text \<open>
  \<open>blobToBase64\<close> reads the blob as a data URL, \<open>data:<type>;base64,<payload>\<close>, and keeps
  what \<open>split(',')[1]\<close> gives: the text between the first and the second comma, or
  \<open>undefined\<close> when there is no comma. The payload is the standard base64 text of the
  bytes, padded with \<open>=\<close> to a multiple of four characters. Reading a blob that the
  store holds does not fail. For a blob without a type or without bytes, browsers differ
  in what they put before the first comma and in whether there is a comma at all; the
  result is the empty string or \<open>undefined\<close>, and \<open>importAll\<close> treats the two alike.
\<close>

definition base64Alphabet :: string where
  "base64Alphabet = ''ABCDEFGHIJKLMNOPQRSTUVWXYZabcdefghijklmnopqrstuvwxyz0123456789+/''"

definition b64char :: "nat \<Rightarrow> char" where
  "b64char n = base64Alphabet ! n"

fun base64Encode :: "byte list \<Rightarrow> string" where
  "base64Encode (a # b # c # rest) =
     [b64char (unat a div 4), b64char ((unat a mod 4) * 16 + unat b div 16),
      b64char ((unat b mod 16) * 4 + unat c div 64), b64char (unat c mod 64)]
     @ base64Encode rest"
| "base64Encode [a, b] =
     [b64char (unat a div 4), b64char ((unat a mod 4) * 16 + unat b div 16),
      b64char ((unat b mod 16) * 4), CHR ''='']"
| "base64Encode [a] =
     [b64char (unat a div 4), b64char ((unat a mod 4) * 16), CHR ''='', CHR ''='']"
| "base64Encode [] = []"

definition readAsDataURL :: "blob \<Rightarrow> string" where
  "readAsDataURL b = ''data:'' @ blob_type b @ '';base64,'' @ base64Encode (blob_bytes b)"

fun jsSplit :: "char \<Rightarrow> string \<Rightarrow> string list" where
  "jsSplit sep [] = [[]]"
| "jsSplit sep (c # cs) =
     (if c = sep then [] # jsSplit sep cs
      else (case jsSplit sep cs of [] \<Rightarrow> [[c]] | p # ps \<Rightarrow> (c # p) # ps))"

definition elementAt :: "'a list \<Rightarrow> nat \<Rightarrow> 'a option" where
  "elementAt xs i = (if i < length xs then Some (xs ! i) else None)"

definition blobToBase64 :: "blob \<Rightarrow> string option" where
  "blobToBase64 b = elementAt (jsSplit CHR '','' (readAsDataURL b)) 1"

text \<open>
  \<open>atob\<close> is the forgiving base64 decoder: it drops ASCII whitespace, drops one or two
  trailing \<open>=\<close> when the length is a multiple of four, fails when the remaining length is
  1 modulo 4 or a character is outside the alphabet, and otherwise turns each group of
  four characters into three code units, a final group of three into two and a final
  group of two into one. \<open>base64ToBlob\<close> copies the code units into a byte array and
  hands it to \<open>new Blob(..., { type: mimeType })\<close>, which normalises the type: a type with
  a character outside U+0020 to U+007E becomes the empty string, and every other type is
  converted to ASCII lower case.
\<close>

fun indexOf :: "'a \<Rightarrow> 'a list \<Rightarrow> nat option" where
  "indexOf c [] = None"
| "indexOf c (x # xs) = (if x = c then Some 0 else map_option Suc (indexOf c xs))"

definition b64index :: "char \<Rightarrow> nat option" where
  "b64index c = indexOf c base64Alphabet"

definition asciiWhitespace :: "char \<Rightarrow> bool" where
  "asciiWhitespace c = (c \<in> set [CHR 0x09, CHR 0x0A, CHR 0x0C, CHR 0x0D, CHR 0x20])"

definition stripPadding :: "string \<Rightarrow> string" where
  "stripPadding d =
     (if length d mod 4 = 0 then
        (if 2 \<le> length d \<and> drop (length d - 2) d = ''=='' then take (length d - 2) d
         else if 1 \<le> length d \<and> drop (length d - 1) d = ''='' then take (length d - 1) d
         else d)
      else d)"

fun decodeSextets :: "nat list \<Rightarrow> string" where
  "decodeSextets (s1 # s2 # s3 # s4 # rest) =
     [char_of (s1 * 4 + s2 div 16), char_of ((s2 mod 16) * 16 + s3 div 4),
      char_of ((s3 mod 4) * 64 + s4)] @ decodeSextets rest"
| "decodeSextets [s1, s2, s3] =
     [char_of (s1 * 4 + s2 div 16), char_of ((s2 mod 16) * 16 + s3 div 4)]"
| "decodeSextets [s1, s2] = [char_of (s1 * 4 + s2 div 16)]"
| "decodeSextets [s1] = []"
| "decodeSextets [] = []"

definition atob :: "string \<Rightarrow> string option" where
  "atob s =
     (let d = stripPadding (filter (\<lambda>c. \<not> asciiWhitespace c) s) in
      if length d mod 4 = 1 then None
      else (case those (map b64index d) of
              None \<Rightarrow> None
            | Some sextets \<Rightarrow> Some (decodeSextets sextets)))"

definition charCodeAt :: "char \<Rightarrow> byte" where
  "charCodeAt c = of_nat (of_char c)"

definition asciiLower :: "char \<Rightarrow> char" where
  "asciiLower c =
     (if 0x41 \<le> (of_char c :: nat) \<and> (of_char c :: nat) \<le> 0x5A
      then char_of ((of_char c :: nat) + 0x20) else c)"

definition newBlobType :: "string \<Rightarrow> string" where
  "newBlobType t =
     (if list_all (\<lambda>c. 0x20 \<le> (of_char c :: nat) \<and> (of_char c :: nat) \<le> 0x7E) t
      then map asciiLower t else [])"

definition base64ToBlob :: "string \<Rightarrow> string \<Rightarrow> error + blob" where
  "base64ToBlob base64 mimeType =
     (case atob base64 of
        None \<Rightarrow> Inl InvalidCharacter
      | Some byteCharacters \<Rightarrow>
          Inr \<lparr>blob_bytes = map charCodeAt byteCharacters, blob_type = newBlobType mimeType\<rparr>)"

section \<open>Export and import\<close>

text \<open>
  The export document. An exported photo or essay is the stored record with its blob
  replaced by \<open>null\<close> and the base64 text added as \<open>data\<close>. A document handed to
  \<open>importAll\<close> need not come from \<open>exportAll\<close>: its \<open>version\<close> and every \<open>data\<close> may be
  missing.
\<close>

record exportedAsset =
  xa_key :: string
  xa_data :: "string option"
  xa_mime :: string
  xa_updatedAt :: timestamp

record exportedPhoto =
  xp_id :: nat
  xp_albumId :: nat
  xp_mime :: string
  xp_size :: nat
  xp_order :: int
  xp_createdAt :: timestamp
  xp_data :: "string option"

record exportedEssay =
  xe_id :: nat
  xe_title :: string
  xe_mime :: string
  xe_size :: nat
  xe_order :: int
  xe_createdAt :: timestamp
  xe_updatedAt :: "timestamp option"
  xe_data :: "string option"

record snapshot =
  snap_version :: "int option"
  snap_timestamp :: timestamp
  snap_assets :: "(string \<times> exportedAsset) list"
  snap_albums :: "album list"
  snap_photos :: "exportedPhoto list"
  snap_essays :: "exportedEssay list"
  snap_videos :: "video list"

definition assetKeys :: "string list" where
  "assetKeys = [''backgroundImage'', ''headerLogo'', ''favicon'']"

fun exportAssets :: "faults \<Rightarrow> database \<Rightarrow> string list \<Rightarrow> error + (string \<times> exportedAsset) list" where
  "exportAssets F db [] = Inr []"
| "exportAssets F db (key # keys) =
     (case getAsset F key db of
        Inl e \<Rightarrow> Inl e
      | Inr None \<Rightarrow> exportAssets F db keys
      | Inr (Some a) \<Rightarrow>
          (case exportAssets F db keys of
             Inl e \<Rightarrow> Inl e
           | Inr rest \<Rightarrow>
               Inr ((key, \<lparr>xa_key = asset_key a, xa_data = blobToBase64 (asset_blob a),
                           xa_mime = asset_mime a, xa_updatedAt = asset_updatedAt a\<rparr>) # rest)))"

definition exportPhoto :: "photo \<Rightarrow> exportedPhoto" where
  "exportPhoto p =
     \<lparr>xp_id = photo_id p, xp_albumId = photo_albumId p, xp_mime = photo_mime p,
      xp_size = photo_size p, xp_order = photo_order p, xp_createdAt = photo_createdAt p,
      xp_data = blobToBase64 (photo_blob p)\<rparr>"

definition exportEssay :: "essay \<Rightarrow> exportedEssay" where
  "exportEssay e =
     \<lparr>xe_id = essay_id e, xe_title = essay_title e, xe_mime = essay_mime e,
      xe_size = essay_size e, xe_order = essay_order e, xe_createdAt = essay_createdAt e,
      xe_updatedAt = essay_updatedAt e, xe_data = blobToBase64 (essay_pdfBlob e)\<rparr>"

fun exportPhotos :: "faults \<Rightarrow> database \<Rightarrow> album list \<Rightarrow> error + exportedPhoto list" where
  "exportPhotos F db [] = Inr []"
| "exportPhotos F db (a # as) =
     (case getPhotosByAlbum F (album_id a) db of
        Inl e \<Rightarrow> Inl e
      | Inr ps \<Rightarrow>
          (case exportPhotos F db as of
             Inl e \<Rightarrow> Inl e
           | Inr rest \<Rightarrow> Inr (map exportPhoto ps @ rest)))"

definition exportAll :: "faults \<Rightarrow> timestamp \<Rightarrow> database \<Rightarrow> error + snapshot" where
  "exportAll F now db =
     (case exportAssets F db assetKeys of
        Inl e \<Rightarrow> Inl e
      | Inr xas \<Rightarrow>
     (case getAllAlbums F db of
        Inl e \<Rightarrow> Inl e
      | Inr as \<Rightarrow>
     (case getAllAlbums F db of
        Inl e \<Rightarrow> Inl e
      | Inr allAlbums \<Rightarrow>
     (case exportPhotos F db allAlbums of
        Inl e \<Rightarrow> Inl e
      | Inr xps \<Rightarrow>
     (case getAllEssays F db of
        Inl e \<Rightarrow> Inl e
      | Inr es \<Rightarrow>
     (case getAllVideos F db of
        Inl e \<Rightarrow> Inl e
      | Inr vs \<Rightarrow>
          Inr \<lparr>snap_version = Some dbVersion, snap_timestamp = now, snap_assets = xas,
               snap_albums = as, snap_photos = xps, snap_essays = map exportEssay es,
               snap_videos = vs\<rparr>))))))"

text \<open>
  \<open>clearAllData\<close> clears the five stores in one transaction: if the engine fails one of
  the clear requests nothing is cleared.
\<close>

definition clearAllData :: "faults \<Rightarrow> database \<Rightarrow> (error + unit list) \<times> database" where
  "clearAllData F db =
     (case find (\<lambda>n. F (ReqClear n)) [Assets, Albums, Photos, Essays, Videos] of
        Some n \<Rightarrow> (Inl (RequestError (ReqClear n)), db)
      | None \<Rightarrow>
          (Inr (replicate 5 ()),
           \<lparr>assets = Map.empty, albums = store_clear (albums db), photos = store_clear (photos db),
            essays = store_clear (essays db), videos = store_clear (videos db)\<rparr>))"

text \<open>A \<open>data\<close> field passes \<open>if (x.data)\<close> when it is present and not the empty string.\<close>

definition truthy :: "string option \<Rightarrow> bool" where
  "truthy d = (case d of None \<Rightarrow> False | Some t \<Rightarrow> t \<noteq> [])"

fun importAssets :: "faults \<Rightarrow> timestamp \<Rightarrow> (string \<times> exportedAsset) list \<Rightarrow> database \<Rightarrow> (error + unit) \<times> database" where
  "importAssets F now [] db = (Inr (), db)"
| "importAssets F now ((key, assetData) # rest) db =
     (if truthy (xa_data assetData) then
        (case base64ToBlob (the (xa_data assetData)) (xa_mime assetData) of
           Inl e \<Rightarrow> (Inl e, db)
         | Inr blob \<Rightarrow>
             (case putAsset F now key blob db of
                (Inl e, db') \<Rightarrow> (Inl e, db')
              | (Inr k, db') \<Rightarrow> importAssets F now rest db'))
      else importAssets F now rest db)"

fun importAlbums :: "faults \<Rightarrow> timestamp \<Rightarrow> album list \<Rightarrow> database \<Rightarrow> (error + unit) \<times> database" where
  "importAlbums F now [] db = (Inr (), db)"
| "importAlbums F now (a # rest) db =
     (case createAlbum F now (album_name a) db of
        (Inl e, db') \<Rightarrow> (Inl e, db')
      | (Inr k, db') \<Rightarrow> importAlbums F now rest db')"

text \<open>
  \<open>albumIdMap\<close>: the old album at position \<open>index\<close> of the document is sent to the id of
  the new album at the same position of the listing, when the listing is that long.
\<close>

definition albumIdMap :: "album list \<Rightarrow> album list \<Rightarrow> (nat \<rightharpoonup> nat)" where
  "albumIdMap oldAlbums newAlbums =
     fold (\<lambda>(index, oldAlbum) m.
             if index < length newAlbums
             then m(album_id oldAlbum \<mapsto> album_id (newAlbums ! index)) else m)
          (enumerate 0 oldAlbums) Map.empty"

definition mappedAlbum :: "(nat \<rightharpoonup> nat) \<Rightarrow> nat \<Rightarrow> nat option" where
  "mappedAlbum m oldId = (case m oldId of None \<Rightarrow> None | Some n \<Rightarrow> if n = 0 then None else Some n)"

fun importPhotos :: "faults \<Rightarrow> timestamp \<Rightarrow> (nat \<rightharpoonup> nat) \<Rightarrow> exportedPhoto list \<Rightarrow> database \<Rightarrow> (error + unit) \<times> database" where
  "importPhotos F now m [] db = (Inr (), db)"
| "importPhotos F now m (p # rest) db =
     (if truthy (xp_data p) then
        (case mappedAlbum m (xp_albumId p) of
           None \<Rightarrow> importPhotos F now m rest db
         | Some newId \<Rightarrow>
             (case base64ToBlob (the (xp_data p)) (xp_mime p) of
                Inl e \<Rightarrow> (Inl e, db)
              | Inr blob \<Rightarrow>
                  (case addPhoto F now newId blob db of
                     (Inl e, db') \<Rightarrow> (Inl e, db')
                   | (Inr k, db') \<Rightarrow> importPhotos F now m rest db')))
      else importPhotos F now m rest db)"

fun importEssays :: "faults \<Rightarrow> timestamp \<Rightarrow> exportedEssay list \<Rightarrow> database \<Rightarrow> (error + unit) \<times> database" where
  "importEssays F now [] db = (Inr (), db)"
| "importEssays F now (e # rest) db =
     (if truthy (xe_data e) then
        (case base64ToBlob (the (xe_data e)) (xe_mime e) of
           Inl err \<Rightarrow> (Inl err, db)
         | Inr blob \<Rightarrow>
             (case addEssay F now blob (xe_title e) db of
                (Inl err, db') \<Rightarrow> (Inl err, db')
              | (Inr k, db') \<Rightarrow> importEssays F now rest db'))
      else importEssays F now rest db)"

fun importVideos :: "faults \<Rightarrow> timestamp \<Rightarrow> video list \<Rightarrow> database \<Rightarrow> (error + unit) \<times> database" where
  "importVideos F now [] db = (Inr (), db)"
| "importVideos F now (v # rest) db =
     (case addVideo F now (video_url v) db of
        (Inl e, db') \<Rightarrow> (Inl e, db')
      | (Inr k, db') \<Rightarrow> importVideos F now rest db')"

text \<open>\<open>!data.version || data.version !== this.version\<close>: a missing version and 0 are falsy.\<close>

definition versionRejected :: "int option \<Rightarrow> bool" where
  "versionRejected v =
     (if (case v of None \<Rightarrow> True | Some n \<Rightarrow> n = 0) then True else v \<noteq> Some dbVersion)"

definition importAll :: "faults \<Rightarrow> timestamp \<Rightarrow> snapshot \<Rightarrow> database \<Rightarrow> (error + unit) \<times> database" where
  "importAll F now data db =
     (if versionRejected (snap_version data) then (Inl IncompatibleVersion, db)
      else
     (case clearAllData F db of
        (Inl e, db0) \<Rightarrow> (Inl e, db0)
      | (Inr u, db0) \<Rightarrow>
     (case importAssets F now (snap_assets data) db0 of
        (Inl e, db1) \<Rightarrow> (Inl e, db1)
      | (Inr u, db1) \<Rightarrow>
     (case importAlbums F now (snap_albums data) db1 of
        (Inl e, db2) \<Rightarrow> (Inl e, db2)
      | (Inr u, db2) \<Rightarrow>
     (case getAllAlbums F db2 of
        Inl e \<Rightarrow> (Inl e, db2)
      | Inr newAlbums \<Rightarrow>
     (case importPhotos F now (albumIdMap (snap_albums data) newAlbums) (snap_photos data) db2 of
        (Inl e, db3) \<Rightarrow> (Inl e, db3)
      | (Inr u, db3) \<Rightarrow>
     (case importEssays F now (snap_essays data) db3 of
        (Inl e, db4) \<Rightarrow> (Inl e, db4)
      | (Inr u, db4) \<Rightarrow> importVideos F now (snap_videos data) db4)))))))"

subsection \<open>Default videos\<close>

definition defaultVideos :: "string list" where
  "defaultVideos = [''https://vimeo.com/897021152'',
                    ''https://youtu.be/6fWYLFodV78?si=faMzDuSLOlI8qURQ'',
                    ''https://youtu.be/5E3XuSymtYQ?si=Sx8vyJ8vfHPEDMcU'']"

text \<open>Here each \<open>addVideo\<close> sits in a \<open>try\<close>: a failure is logged and the loop goes on.\<close>

fun addVideos_caught :: "faults \<Rightarrow> timestamp \<Rightarrow> string list \<Rightarrow> database \<Rightarrow> database" where
  "addVideos_caught F now [] db = db"
| "addVideos_caught F now (url # urls) db = addVideos_caught F now urls (snd (addVideo F now url db))"

definition initializeDefaultVideos :: "faults \<Rightarrow> timestamp \<Rightarrow> database \<Rightarrow> (error + unit) \<times> database" where
  "initializeDefaultVideos F now db =
     (case getAllVideos F db of
        Inl e \<Rightarrow> (Inl e, db)
      | Inr vs \<Rightarrow>
          if length vs = 0 then (Inr (), addVideos_caught F now defaultVideos db)
          else (Inr (), db))"

section \<open>The Remote Mirror Client\<close>

text \<open>
  \<open>FirebaseDatabase\<close> wraps the Local Store and mirrors it into a remote document
  database and a remote blob store. The remote service is not part of this code: it is a
  parameter, a record of operations on a remote state \<open>'r\<close>, each of which may fail.
  A document of a collection carries the fields the mirror writes; \<open>localId\<close> may be
  missing in a document written by something else. \<open>Date.now()\<close> is passed in as
  \<open>nowMs\<close>. A path of the blob store is \<open>assets/<key>\<close>, \<open>essays/<ms>_<title>.pdf\<close> or a
  download URL.
\<close>

datatype remoteError = RemoteUnavailable

record albumDoc =
  ad_localId :: "nat option"
  ad_name :: string
  ad_order :: int
  ad_createdAt :: timestamp

record essayDoc =
  ed_localId :: "nat option"
  ed_title :: string
  ed_downloadURL :: string
  ed_mime :: string
  ed_size :: nat
  ed_order :: int
  ed_createdAt :: timestamp

record videoDoc =
  vd_localId :: "nat option"
  vd_provider :: string
  vd_url :: string
  vd_embedId :: string
  vd_title :: "string option"
  vd_order :: int
  vd_createdAt :: timestamp

record assetDoc =
  sd_key :: string
  sd_downloadURL :: string
  sd_mime :: string
  sd_size :: nat
  sd_updatedAt :: timestamp

datatype storagePath = AssetPath string | EssayPath int string | UrlPath string

record 'r cloud =
  cloud_addAlbum :: "albumDoc \<Rightarrow> 'r \<Rightarrow> (remoteError + string) \<times> 'r"
  cloud_addEssay :: "essayDoc \<Rightarrow> 'r \<Rightarrow> (remoteError + string) \<times> 'r"
  cloud_addVideo :: "videoDoc \<Rightarrow> 'r \<Rightarrow> (remoteError + string) \<times> 'r"
  cloud_setAsset :: "string \<Rightarrow> assetDoc \<Rightarrow> 'r \<Rightarrow> (remoteError + unit) \<times> 'r"
  cloud_getAsset :: "string \<Rightarrow> 'r \<Rightarrow> remoteError + assetDoc option"
  cloud_getAlbums :: "'r \<Rightarrow> remoteError + (string \<times> albumDoc) list"
  cloud_getEssays :: "'r \<Rightarrow> remoteError + (string \<times> essayDoc) list"
  cloud_getVideos :: "'r \<Rightarrow> remoteError + (string \<times> videoDoc) list"
  cloud_findAlbums :: "nat \<Rightarrow> 'r \<Rightarrow> remoteError + (string \<times> albumDoc) list"
  cloud_findEssays :: "nat \<Rightarrow> 'r \<Rightarrow> remoteError + (string \<times> essayDoc) list"
  cloud_findVideos :: "nat \<Rightarrow> 'r \<Rightarrow> remoteError + (string \<times> videoDoc) list"
  cloud_deleteDoc :: "storeName \<Rightarrow> string \<Rightarrow> 'r \<Rightarrow> (remoteError + unit) \<times> 'r"
  cloud_uploadBytes :: "storagePath \<Rightarrow> blob \<Rightarrow> 'r \<Rightarrow> (remoteError + unit) \<times> 'r"
  cloud_getDownloadURL :: "storagePath \<Rightarrow> 'r \<Rightarrow> remoteError + string"
  cloud_deleteObject :: "storagePath \<Rightarrow> 'r \<Rightarrow> (remoteError + unit) \<times> 'r"
  cloud_fetch :: "string \<Rightarrow> 'r \<Rightarrow> remoteError + blob"

text \<open>
  The state of the mirror: the Local Store it wraps, \<open>syncEnabled\<close>, the state of the remote
  service, and \<open>unhandled\<close>, the rejections of promises that no code awaits or catches. The
  runtime reports each of these as an unhandled rejection once the operation that started
  it has settled; no \<open>catch\<close> block of the mirror sees them.
\<close>

record 'r firebaseDatabase =
  localDb :: database
  syncEnabled :: bool
  remote :: 'r
  unhandled :: "remoteError list"

text \<open>
  What a remote-first read returns: records built from the documents, with
  \<open>id: data.localId || doc.id\<close> and \<open>cloudId: doc.id\<close>. A read answers either with such
  records or with the records of the Local Store.
\<close>

datatype ('a, 'b) listing = FromLocal "'a list" | FromCloud "'b list"

definition localIdOr :: "nat option \<Rightarrow> string \<Rightarrow> nat + string" where
  "localIdOr localId docId =
     (case localId of None \<Rightarrow> Inr docId | Some n \<Rightarrow> if n = 0 then Inr docId else Inl n)"

record cloudAlbum =
  ca_id :: "nat + string"
  ca_cloudId :: string
  ca_name :: string
  ca_order :: int
  ca_createdAt :: timestamp

record cloudVideo =
  cv_id :: "nat + string"
  cv_cloudId :: string
  cv_provider :: string
  cv_url :: string
  cv_embedId :: string
  cv_title :: "string option"
  cv_order :: int
  cv_createdAt :: timestamp

record cloudEssay =
  ce_id :: "nat + string"
  ce_cloudId :: string
  ce_title :: string
  ce_pdfBlob :: "blob option"
  ce_downloadURL :: string
  ce_mime :: string
  ce_size :: nat
  ce_order :: int
  ce_createdAt :: timestamp

subsection \<open>Assets\<close>

text \<open>
  \<open>putAsset\<close> has no \<open>return\<close> with a value: it resolves with \<open>undefined\<close> (\<open>None\<close>
  below) once the local write has succeeded, whatever the remote does.
\<close>

definition fb_putAsset_remote :: "'r cloud \<Rightarrow> timestamp \<Rightarrow> string \<Rightarrow> blob \<Rightarrow> 'r \<Rightarrow> 'r" where
  "fb_putAsset_remote C now key file r =
     (case cloud_uploadBytes C (AssetPath key) file r of
        (Inl err, r1) \<Rightarrow> r1
      | (Inr u, r1) \<Rightarrow>
          (case cloud_getDownloadURL C (AssetPath key) r1 of
             Inl err \<Rightarrow> r1
           | Inr downloadURL \<Rightarrow>
               snd (cloud_setAsset C key
                      \<lparr>sd_key = key, sd_downloadURL = downloadURL, sd_mime = blob_type file,
                       sd_size = blob_size file, sd_updatedAt = now\<rparr> r1)))"

definition fb_putAsset ::
  "'r cloud \<Rightarrow> faults \<Rightarrow> timestamp \<Rightarrow> string \<Rightarrow> blob \<Rightarrow> 'r firebaseDatabase \<Rightarrow>
   (error + string option) \<times> 'r firebaseDatabase" where
  "fb_putAsset C F now key file m =
     (case putAsset F now key file (localDb m) of
        (Inl e, db') \<Rightarrow> (Inl e, m\<lparr>localDb := db'\<rparr>)
      | (Inr k, db') \<Rightarrow>
          if \<not> syncEnabled m then (Inr None, m\<lparr>localDb := db'\<rparr>)
          else (Inr None, m\<lparr>localDb := db', remote := fb_putAsset_remote C now key file (remote m)\<rparr>))"

text \<open>
  \<open>getAsset\<close> with sync enabled asks the remote first; a remote asset is fetched, written
  to the local cache and returned. Any failure inside the \<open>try\<close>, the local cache write
  included, falls through to the local read.
\<close>

definition fb_getAsset ::
  "'r cloud \<Rightarrow> faults \<Rightarrow> timestamp \<Rightarrow> string \<Rightarrow> 'r firebaseDatabase \<Rightarrow>
   (error + asset option) \<times> 'r firebaseDatabase" where
  "fb_getAsset C F now key m =
     (let localRead = (getAsset F key (localDb m), m) in
      if syncEnabled m then
        (case cloud_getAsset C key (remote m) of
           Inl err \<Rightarrow> localRead
         | Inr None \<Rightarrow> localRead
         | Inr (Some d) \<Rightarrow>
             (case cloud_fetch C (sd_downloadURL d) (remote m) of
                Inl err \<Rightarrow> localRead
              | Inr blob \<Rightarrow>
                  (case putAsset F now key blob (localDb m) of
                     (Inl e, db') \<Rightarrow> (getAsset F key db', m\<lparr>localDb := db'\<rparr>)
                   | (Inr k, db') \<Rightarrow>
                       (Inr (Some \<lparr>asset_key = sd_key d, asset_blob = blob, asset_mime = sd_mime d,
                                   asset_updatedAt = sd_updatedAt d\<rparr>),
                        m\<lparr>localDb := db'\<rparr>))))
      else localRead)"

subsection \<open>Albums\<close>

definition fb_createAlbum ::
  "'r cloud \<Rightarrow> faults \<Rightarrow> timestamp \<Rightarrow> int \<Rightarrow> string \<Rightarrow> 'r firebaseDatabase \<Rightarrow>
   (error + nat) \<times> 'r firebaseDatabase" where
  "fb_createAlbum C F now nowMs name m =
     (case createAlbum F now name (localDb m) of
        (Inl e, db') \<Rightarrow> (Inl e, m\<lparr>localDb := db'\<rparr>)
      | (Inr localId, db') \<Rightarrow>
          if \<not> syncEnabled m then (Inr localId, m\<lparr>localDb := db'\<rparr>)
          else (case cloud_addAlbum C \<lparr>ad_localId = Some localId, ad_name = name, ad_order = nowMs,
                                       ad_createdAt = now\<rparr> (remote m) of
                  (Inl err, r') \<Rightarrow> (Inr localId, m\<lparr>localDb := db', remote := r'\<rparr>)
                | (Inr docId, r') \<Rightarrow> (Inr localId, m\<lparr>localDb := db', remote := r'\<rparr>)))"

definition fb_getAllAlbums ::
  "'r cloud \<Rightarrow> faults \<Rightarrow> 'r firebaseDatabase \<Rightarrow> error + (album, cloudAlbum) listing" where
  "fb_getAllAlbums C F m =
     (let localRead = map_sum id FromLocal (getAllAlbums F (localDb m)) in
      if syncEnabled m then
        (case cloud_getAlbums C (remote m) of
           Inl err \<Rightarrow> localRead
         | Inr docs \<Rightarrow>
             Inr (FromCloud (byOrder ca_order
                    (map (\<lambda>(docId, d). \<lparr>ca_id = localIdOr (ad_localId d) docId, ca_cloudId = docId,
                                        ca_name = ad_name d, ca_order = ad_order d,
                                        ca_createdAt = ad_createdAt d\<rparr>) docs))))
      else localRead)"

text \<open>
  The deletions of the matching remote documents are started by
  \<open>querySnapshot.forEach(async (doc) => { await deleteDoc(doc.ref); })\<close>: \<open>forEach\<close> drops
  the promise of each callback, so the surrounding \<open>try\<close> is left before any deletion has
  settled and the caller has its answer whatever they do. A deletion that fails rejects a
  promise nobody holds: the failure is not caught, and is collected here as unhandled.
\<close>

definition fb_deleteDocs ::
  "'r cloud \<Rightarrow> storeName \<Rightarrow> string list \<Rightarrow> 'r \<Rightarrow> 'r \<times> remoteError list" where
  "fb_deleteDocs C nm docIds r =
     fold (\<lambda>docId (r', errs).
             case cloud_deleteDoc C nm docId r' of
               (Inl err, r'') \<Rightarrow> (r'', errs @ [err])
             | (Inr u, r'') \<Rightarrow> (r'', errs))
          docIds (r, [])"

text \<open>
  The mirror's \<open>deleteAlbum\<close> awaits the local \<open>deleteAlbum\<close> first. As that call always
  rejects, the rest of the method is never reached.
\<close>

definition fb_deleteAlbum ::
  "'r cloud \<Rightarrow> faults \<Rightarrow> nat \<Rightarrow> 'r firebaseDatabase \<Rightarrow> (error + unit) \<times> 'r firebaseDatabase" where
  "fb_deleteAlbum C F ident m =
     (case deleteAlbum F ident (localDb m) of
        (Inl e, db') \<Rightarrow> (Inl e, m\<lparr>localDb := db'\<rparr>)
      | (Inr u, db') \<Rightarrow>
          if \<not> syncEnabled m then (Inr (), m\<lparr>localDb := db'\<rparr>)
          else (case cloud_findAlbums C ident (remote m) of
                  Inl err \<Rightarrow> (Inr (), m\<lparr>localDb := db'\<rparr>)
                | Inr docs \<Rightarrow>
                    (case fb_deleteDocs C Albums (map fst docs) (remote m) of
                       (r', errs) \<Rightarrow>
                         (Inr (), m\<lparr>localDb := db', remote := r',
                                    unhandled := unhandled m @ errs\<rparr>))))"

subsection \<open>Videos\<close>

definition fb_addVideo ::
  "'r cloud \<Rightarrow> faults \<Rightarrow> timestamp \<Rightarrow> int \<Rightarrow> string \<Rightarrow> 'r firebaseDatabase \<Rightarrow>
   (error + nat) \<times> 'r firebaseDatabase" where
  "fb_addVideo C F now nowMs url m =
     (case addVideo F now url (localDb m) of
        (Inl e, db') \<Rightarrow> (Inl e, m\<lparr>localDb := db'\<rparr>)
      | (Inr localId, db') \<Rightarrow>
          if \<not> syncEnabled m then (Inr localId, m\<lparr>localDb := db'\<rparr>)
          else (case parseVideoUrl url of
                  None \<Rightarrow> (Inr localId, m\<lparr>localDb := db'\<rparr>)
                | Some videoInfo \<Rightarrow>
                    (case cloud_addVideo C
                            \<lparr>vd_localId = Some localId, vd_provider = vi_provider videoInfo,
                             vd_url = url, vd_embedId = vi_embedId videoInfo,
                             vd_title = vi_title videoInfo, vd_order = nowMs,
                             vd_createdAt = now\<rparr> (remote m) of
                       (Inl err, r') \<Rightarrow> (Inr localId, m\<lparr>localDb := db', remote := r'\<rparr>)
                     | (Inr docId, r') \<Rightarrow> (Inr localId, m\<lparr>localDb := db', remote := r'\<rparr>))))"

definition fb_getAllVideos ::
  "'r cloud \<Rightarrow> faults \<Rightarrow> 'r firebaseDatabase \<Rightarrow> error + (video, cloudVideo) listing" where
  "fb_getAllVideos C F m =
     (let localRead = map_sum id FromLocal (getAllVideos F (localDb m)) in
      if syncEnabled m then
        (case cloud_getVideos C (remote m) of
           Inl err \<Rightarrow> localRead
         | Inr docs \<Rightarrow>
             Inr (FromCloud (byOrder cv_order
                    (map (\<lambda>(docId, d). \<lparr>cv_id = localIdOr (vd_localId d) docId, cv_cloudId = docId,
                                        cv_provider = vd_provider d, cv_url = vd_url d,
                                        cv_embedId = vd_embedId d, cv_title = vd_title d,
                                        cv_order = vd_order d, cv_createdAt = vd_createdAt d\<rparr>)
                         docs))))
      else localRead)"

definition fb_deleteVideo ::
  "'r cloud \<Rightarrow> faults \<Rightarrow> nat \<Rightarrow> 'r firebaseDatabase \<Rightarrow> (error + unit) \<times> 'r firebaseDatabase" where
  "fb_deleteVideo C F ident m =
     (case deleteVideo F ident (localDb m) of
        (Inl e, db') \<Rightarrow> (Inl e, m\<lparr>localDb := db'\<rparr>)
      | (Inr u, db') \<Rightarrow>
          if \<not> syncEnabled m then (Inr (), m\<lparr>localDb := db'\<rparr>)
          else (case cloud_findVideos C ident (remote m) of
                  Inl err \<Rightarrow> (Inr (), m\<lparr>localDb := db'\<rparr>)
                | Inr docs \<Rightarrow>
                    (case fb_deleteDocs C Videos (map fst docs) (remote m) of
                       (r', errs) \<Rightarrow>
                         (Inr (), m\<lparr>localDb := db', remote := r',
                                    unhandled := unhandled m @ errs\<rparr>))))"

subsection \<open>Essays\<close>

definition fb_addEssay_remote ::
  "'r cloud \<Rightarrow> timestamp \<Rightarrow> int \<Rightarrow> nat \<Rightarrow> blob \<Rightarrow> string \<Rightarrow> 'r \<Rightarrow> 'r" where
  "fb_addEssay_remote C now nowMs localId file title r =
     (case cloud_uploadBytes C (EssayPath nowMs title) file r of
        (Inl err, r1) \<Rightarrow> r1
      | (Inr u, r1) \<Rightarrow>
          (case cloud_getDownloadURL C (EssayPath nowMs title) r1 of
             Inl err \<Rightarrow> r1
           | Inr downloadURL \<Rightarrow>
               snd (cloud_addEssay C
                      \<lparr>ed_localId = Some localId, ed_title = title, ed_downloadURL = downloadURL,
                       ed_mime = ''application/pdf'', ed_size = blob_size file, ed_order = nowMs,
                       ed_createdAt = now\<rparr> r1)))"

definition fb_addEssay ::
  "'r cloud \<Rightarrow> faults \<Rightarrow> timestamp \<Rightarrow> int \<Rightarrow> blob \<Rightarrow> string \<Rightarrow> 'r firebaseDatabase \<Rightarrow>
   (error + nat) \<times> 'r firebaseDatabase" where
  "fb_addEssay C F now nowMs file title m =
     (case addEssay F now file title (localDb m) of
        (Inl e, db') \<Rightarrow> (Inl e, m\<lparr>localDb := db'\<rparr>)
      | (Inr localId, db') \<Rightarrow>
          if \<not> syncEnabled m then (Inr localId, m\<lparr>localDb := db'\<rparr>)
          else (Inr localId,
                m\<lparr>localDb := db',
                  remote := fb_addEssay_remote C now nowMs localId file title (remote m)\<rparr>))"

definition fb_fetchPdf :: "'r cloud \<Rightarrow> 'r \<Rightarrow> string \<Rightarrow> blob option" where
  "fb_fetchPdf C r url = (case cloud_fetch C url r of Inl err \<Rightarrow> None | Inr b \<Rightarrow> Some b)"

definition fb_getAllEssays ::
  "'r cloud \<Rightarrow> faults \<Rightarrow> 'r firebaseDatabase \<Rightarrow> error + (essay, cloudEssay) listing" where
  "fb_getAllEssays C F m =
     (let localRead = map_sum id FromLocal (getAllEssays F (localDb m)) in
      if syncEnabled m then
        (case cloud_getEssays C (remote m) of
           Inl err \<Rightarrow> localRead
         | Inr docs \<Rightarrow>
             Inr (FromCloud (byOrder ce_order
                    (map (\<lambda>(docId, d). \<lparr>ce_id = localIdOr (ed_localId d) docId, ce_cloudId = docId,
                                        ce_title = ed_title d,
                                        ce_pdfBlob = fb_fetchPdf C (remote m) (ed_downloadURL d),
                                        ce_downloadURL = ed_downloadURL d, ce_mime = ed_mime d,
                                        ce_size = ed_size d, ce_order = ed_order d,
                                        ce_createdAt = ed_createdAt d\<rparr>) docs))))
      else localRead)"

text \<open>
  For an essay the un-awaited callback first deletes the stored file, inside a \<open>try\<close> of
  its own that catches a failure, and then deletes the document, whose failure nothing
  catches.
\<close>

definition fb_deleteEssayDocs ::
  "'r cloud \<Rightarrow> (string \<times> essayDoc) list \<Rightarrow> 'r \<Rightarrow> 'r \<times> remoteError list" where
  "fb_deleteEssayDocs C docs r =
     fold (\<lambda>(docId, d) (r', errs).
             case cloud_deleteDoc C Essays docId
                    (snd (cloud_deleteObject C (UrlPath (ed_downloadURL d)) r')) of
               (Inl err, r'') \<Rightarrow> (r'', errs @ [err])
             | (Inr u, r'') \<Rightarrow> (r'', errs))
          docs (r, [])"

definition fb_deleteEssay ::
  "'r cloud \<Rightarrow> faults \<Rightarrow> nat \<Rightarrow> 'r firebaseDatabase \<Rightarrow> (error + unit) \<times> 'r firebaseDatabase" where
  "fb_deleteEssay C F ident m =
     (case deleteEssay F ident (localDb m) of
        (Inl e, db') \<Rightarrow> (Inl e, m\<lparr>localDb := db'\<rparr>)
      | (Inr u, db') \<Rightarrow>
          if \<not> syncEnabled m then (Inr (), m\<lparr>localDb := db'\<rparr>)
          else (case cloud_findEssays C ident (remote m) of
                  Inl err \<Rightarrow> (Inr (), m\<lparr>localDb := db'\<rparr>)
                | Inr docs \<Rightarrow>
                    (case fb_deleteEssayDocs C docs (remote m) of
                       (r', errs) \<Rightarrow>
                         (Inr (), m\<lparr>localDb := db', remote := r',
                                    unhandled := unhandled m @ errs\<rparr>))))"

subsection \<open>Bulk push\<close>

text \<open>
  \<open>x.order || Date.now()\<close> and the three \<open>sync...ToCloud\<close> helpers, each a \<open>try\<close> whose
  failure is logged; \<open>syncLocalToCloud\<close> wraps the three loops in one more \<open>try\<close>, which
  only a failing local listing can reach.
\<close>

definition orNow :: "int \<Rightarrow> int \<Rightarrow> int" where
  "orNow n nowMs = (if n = 0 then nowMs else n)"

definition syncAlbumToCloud :: "'r cloud \<Rightarrow> timestamp \<Rightarrow> int \<Rightarrow> album \<Rightarrow> 'r \<Rightarrow> 'r" where
  "syncAlbumToCloud C now nowMs a r =
     (case cloud_findAlbums C (album_id a) r of
        Inl err \<Rightarrow> r
      | Inr docs \<Rightarrow>
          if docs = [] then
            snd (cloud_addAlbum C \<lparr>ad_localId = Some (album_id a), ad_name = album_name a,
                                   ad_order = orNow (album_order a) nowMs,
                                   ad_createdAt = (if album_createdAt a = [] then now
                                                   else album_createdAt a)\<rparr> r)
          else r)"

definition syncEssayToCloud :: "'r cloud \<Rightarrow> timestamp \<Rightarrow> int \<Rightarrow> essay \<Rightarrow> 'r \<Rightarrow> 'r" where
  "syncEssayToCloud C now nowMs e r =
     (case cloud_findEssays C (essay_id e) r of
        Inl err \<Rightarrow> r
      | Inr docs \<Rightarrow>
          if docs = [] then
            (case cloud_uploadBytes C (EssayPath nowMs (essay_title e)) (essay_pdfBlob e) r of
               (Inl err, r1) \<Rightarrow> r1
             | (Inr u, r1) \<Rightarrow>
                 (case cloud_getDownloadURL C (EssayPath nowMs (essay_title e)) r1 of
                    Inl err \<Rightarrow> r1
                  | Inr downloadURL \<Rightarrow>
                      snd (cloud_addEssay C
                             \<lparr>ed_localId = Some (essay_id e), ed_title = essay_title e,
                              ed_downloadURL = downloadURL, ed_mime = essay_mime e,
                              ed_size = essay_size e, ed_order = orNow (essay_order e) nowMs,
                              ed_createdAt = (if essay_createdAt e = [] then now
                                              else essay_createdAt e)\<rparr> r1)))
          else r)"

definition syncVideoToCloud :: "'r cloud \<Rightarrow> timestamp \<Rightarrow> int \<Rightarrow> video \<Rightarrow> 'r \<Rightarrow> 'r" where
  "syncVideoToCloud C now nowMs v r =
     (case cloud_findVideos C (video_id v) r of
        Inl err \<Rightarrow> r
      | Inr docs \<Rightarrow>
          if docs = [] then
            snd (cloud_addVideo C
                   \<lparr>vd_localId = Some (video_id v), vd_provider = video_provider v,
                    vd_url = video_url v, vd_embedId = video_embedId v,
                    vd_title = video_title v, vd_order = orNow (video_order v) nowMs,
                    vd_createdAt = (if video_createdAt v = [] then now
                                    else video_createdAt v)\<rparr> r)
          else r)"

definition syncLocalToCloud :: "'r cloud \<Rightarrow> faults \<Rightarrow> timestamp \<Rightarrow> int \<Rightarrow> 'r firebaseDatabase \<Rightarrow> 'r firebaseDatabase" where
  "syncLocalToCloud C F now nowMs m =
     (if \<not> syncEnabled m then m
      else
     (case getAllAlbums F (localDb m) of
        Inl e \<Rightarrow> m
      | Inr as \<Rightarrow>
     (let r1 = fold (syncAlbumToCloud C now nowMs) as (remote m) in
     (case getAllEssays F (localDb m) of
        Inl e \<Rightarrow> m\<lparr>remote := r1\<rparr>
      | Inr es \<Rightarrow>
     (let r2 = fold (syncEssayToCloud C now nowMs) es r1 in
     (case getAllVideos F (localDb m) of
        Inl e \<Rightarrow> m\<lparr>remote := r2\<rparr>
      | Inr vs \<Rightarrow> m\<lparr>remote := fold (syncVideoToCloud C now nowMs) vs r2\<rparr>))))))"

subsection \<open>Passthrough methods\<close>

definition onLocal ::
  "(database \<Rightarrow> 'a \<times> database) \<Rightarrow> 'r firebaseDatabase \<Rightarrow> 'a \<times> 'r firebaseDatabase" where
  "onLocal f m = (case f (localDb m) of (res, db') \<Rightarrow> (res, m\<lparr>localDb := db'\<rparr>))"

definition fb_initializeDefaultVideos ::
  "faults \<Rightarrow> timestamp \<Rightarrow> 'r firebaseDatabase \<Rightarrow> (error + unit) \<times> 'r firebaseDatabase" where
  "fb_initializeDefaultVideos F now m = onLocal (initializeDefaultVideos F now) m"

definition fb_renameAlbum ::
  "faults \<Rightarrow> timestamp \<Rightarrow> nat \<Rightarrow> string \<Rightarrow> 'r firebaseDatabase \<Rightarrow> (error + nat) \<times> 'r firebaseDatabase" where
  "fb_renameAlbum F now ident name m = onLocal (renameAlbum F now ident name) m"

definition fb_reorderAlbums ::
  "faults \<Rightarrow> nat list \<Rightarrow> 'r firebaseDatabase \<Rightarrow> (error + unit list) \<times> 'r firebaseDatabase" where
  "fb_reorderAlbums F idsInOrder m = onLocal (reorderAlbums F idsInOrder) m"

definition fb_addPhoto ::
  "faults \<Rightarrow> timestamp \<Rightarrow> nat \<Rightarrow> blob \<Rightarrow> 'r firebaseDatabase \<Rightarrow> (error + nat) \<times> 'r firebaseDatabase" where
  "fb_addPhoto F now albumId file m = onLocal (addPhoto F now albumId file) m"

definition fb_getPhotosByAlbum :: "faults \<Rightarrow> nat \<Rightarrow> 'r firebaseDatabase \<Rightarrow> error + photo list" where
  "fb_getPhotosByAlbum F albumId m = getPhotosByAlbum F albumId (localDb m)"

definition fb_removePhoto ::
  "faults \<Rightarrow> nat \<Rightarrow> 'r firebaseDatabase \<Rightarrow> (error + unit) \<times> 'r firebaseDatabase" where
  "fb_removePhoto F photoId m = onLocal (removePhoto F photoId) m"

definition fb_reorderPhotos ::
  "faults \<Rightarrow> nat \<Rightarrow> nat list \<Rightarrow> 'r firebaseDatabase \<Rightarrow> (error + unit list) \<times> 'r firebaseDatabase" where
  "fb_reorderPhotos F albumId idsInOrder m = onLocal (reorderPhotos F albumId idsInOrder) m"

definition fb_renameEssay ::
  "faults \<Rightarrow> timestamp \<Rightarrow> nat \<Rightarrow> string \<Rightarrow> 'r firebaseDatabase \<Rightarrow> (error + nat) \<times> 'r firebaseDatabase" where
  "fb_renameEssay F now ident title m = onLocal (renameEssay F now ident title) m"

definition fb_reorderEssays ::
  "faults \<Rightarrow> nat list \<Rightarrow> 'r firebaseDatabase \<Rightarrow> (error + unit list) \<times> 'r firebaseDatabase" where
  "fb_reorderEssays F idsInOrder m = onLocal (reorderEssays F idsInOrder) m"

definition fb_reorderVideos ::
  "faults \<Rightarrow> nat list \<Rightarrow> 'r firebaseDatabase \<Rightarrow> (error + unit list) \<times> 'r firebaseDatabase" where
  "fb_reorderVideos F idsInOrder m = onLocal (reorderVideos F idsInOrder) m"

definition fb_exportAll :: "faults \<Rightarrow> timestamp \<Rightarrow> 'r firebaseDatabase \<Rightarrow> error + snapshot" where
  "fb_exportAll F now m = exportAll F now (localDb m)"

definition fb_importAll ::
  "'r cloud \<Rightarrow> faults \<Rightarrow> timestamp \<Rightarrow> int \<Rightarrow> snapshot \<Rightarrow> 'r firebaseDatabase \<Rightarrow>
   (error + unit) \<times> 'r firebaseDatabase" where
  "fb_importAll C F now nowMs data m =
     (case importAll F now data (localDb m) of
        (Inl e, db') \<Rightarrow> (Inl e, m\<lparr>localDb := db'\<rparr>)
      | (Inr result, db') \<Rightarrow>
          if syncEnabled m
          then (Inr result, syncLocalToCloud C F now nowMs (m\<lparr>localDb := db'\<rparr>))
          else (Inr result, m\<lparr>localDb := db'\<rparr>))"

definition fb_parseVideoUrl :: "string \<Rightarrow> videoInfo option" where
  "fb_parseVideoUrl url = parseVideoUrl url"

text \<open>A remote that is down: every operation fails and changes nothing.\<close>

definition unreachableCloud :: "unit cloud" where
  "unreachableCloud =
     \<lparr>cloud_addAlbum = (\<lambda>d r. (Inl RemoteUnavailable, r)),
      cloud_addEssay = (\<lambda>d r. (Inl RemoteUnavailable, r)),
      cloud_addVideo = (\<lambda>d r. (Inl RemoteUnavailable, r)),
      cloud_setAsset = (\<lambda>k d r. (Inl RemoteUnavailable, r)),
      cloud_getAsset = (\<lambda>k r. Inl RemoteUnavailable),
      cloud_getAlbums = (\<lambda>r. Inl RemoteUnavailable),
      cloud_getEssays = (\<lambda>r. Inl RemoteUnavailable),
      cloud_getVideos = (\<lambda>r. Inl RemoteUnavailable),
      cloud_findAlbums = (\<lambda>k r. Inl RemoteUnavailable),
      cloud_findEssays = (\<lambda>k r. Inl RemoteUnavailable),
      cloud_findVideos = (\<lambda>k r. Inl RemoteUnavailable),
      cloud_deleteDoc = (\<lambda>n k r. (Inl RemoteUnavailable, r)),
      cloud_uploadBytes = (\<lambda>p b r. (Inl RemoteUnavailable, r)),
      cloud_getDownloadURL = (\<lambda>p r. Inl RemoteUnavailable),
      cloud_deleteObject = (\<lambda>p r. (Inl RemoteUnavailable, r)),
      cloud_fetch = (\<lambda>u r. Inl RemoteUnavailable)\<rparr>"


section \<open>Well-formed states and callers\<close>

text \<open>
  The states the operations produce: in each store the keys are strictly ascending and
  below the key generator, which is at least 1.
\<close>

definition wfStore :: "('a \<Rightarrow> nat) \<Rightarrow> 'a objectStore \<Rightarrow> bool" where
  "wfStore idf s =
     (sorted_wrt (<) (map idf (records s)) \<and> list_all (\<lambda>r. idf r < keyGen s) (records s) \<and>
      0 < keyGen s)"

definition wfDb :: "database \<Rightarrow> bool" where
  "wfDb db =
     (wfStore album_id (albums db) \<and> wfStore photo_id (photos db) \<and>
      wfStore essay_id (essays db) \<and> wfStore video_id (videos db))"

text \<open>A caller that awaits one create call after the other and collects the new ids.\<close>

fun createSeq ::
  "('x \<Rightarrow> database \<Rightarrow> (error + nat) \<times> database) \<Rightarrow> 'x list \<Rightarrow> database \<Rightarrow>
   (error + nat list) \<times> database" where
  "createSeq f [] db = (Inr [], db)"
| "createSeq f (x # xs) db =
     (case f x db of
        (Inl e, db') \<Rightarrow> (Inl e, db')
      | (Inr k, db') \<Rightarrow>
          (case createSeq f xs db' of
             (Inl e, db'') \<Rightarrow> (Inl e, db'')
           | (Inr ks, db'') \<Rightarrow> (Inr (k # ks), db'')))"

text \<open>
  What a run of creates in one scope promises: the listing grows at its end by the new
  records, in creation order, and their order values count up from one more than the
  largest order value the listing had before (from 1 when it was empty).
\<close>

definition createdInOrder :: "('a \<Rightarrow> int) \<Rightarrow> 'a list \<Rightarrow> 'a list \<Rightarrow> 'a list \<Rightarrow> bool" where
  "createdInOrder ordf before after new =
     (after = before @ new \<and>
      map ordf new = [maxOrder (map ordf before) + 1 .. maxOrder (map ordf before) + int (length new)] \<and>
      sorted_wrt (<) (map ordf new))"

text \<open>
  What a bulk reorder promises for one scope, between the listing read before and the
  listing read after: a listed id that has a record gives that record the position of the
  id's last occurrence in the list as its order; a record whose id is not listed stays as
  it was; no record appears or disappears; when the list is a permutation of the ids of
  the scope the listing comes back in the order of the list; and the records that were
  not listed keep their order among themselves.
\<close>

definition reorderOutcome ::
  "('a \<Rightarrow> nat) \<Rightarrow> (int \<Rightarrow> 'a \<Rightarrow> 'a) \<Rightarrow> nat list \<Rightarrow> 'a list \<Rightarrow> 'a list \<Rightarrow> bool" where
  "reorderOutcome idf setOrder ids before after =
     ((\<forall>i<length ids. ids ! i \<notin> set (drop (Suc i) ids) \<longrightarrow>
          (\<forall>r\<in>set before. idf r = ids ! i \<longrightarrow> setOrder (int i) r \<in> set after)) \<and>
      (\<forall>r\<in>set before. idf r \<notin> set ids \<longrightarrow> r \<in> set after) \<and>
      mset (map idf after) = mset (map idf before) \<and>
      (distinct ids \<and> set ids = set (map idf before) \<longrightarrow> map idf after = ids) \<and>
      filter (\<lambda>r. idf r \<notin> set ids) after = filter (\<lambda>r. idf r \<notin> set ids) before)"

text \<open>The record a sequence of puts leaves under the key of \<open>r\<close>: the last one put there.\<close>

definition latest :: "('a \<Rightarrow> nat) \<Rightarrow> 'a list \<Rightarrow> 'a \<Rightarrow> 'a" where
  "latest idf U r = (case find (\<lambda>u. idf u = idf r) (rev U) of Some u \<Rightarrow> u | None \<Rightarrow> r)"


section \<open>A sample state\<close>

text \<open>
  A database as the application leaves it after two albums were created and swapped by
  drag and drop, three photos, one essay and one video were added, and a logo was set.
\<close>

definition sampleBlob :: "byte list \<Rightarrow> string \<Rightarrow> blob" where
  "sampleBlob bs t = \<lparr>blob_bytes = bs, blob_type = t\<rparr>"

definition sampleDb :: database where
  "sampleDb =
     \<lparr>assets = [''headerLogo'' \<mapsto>
         \<lparr>asset_key = ''headerLogo'', asset_blob = sampleBlob [0x89, 0x50] ''image/png'',
          asset_mime = ''image/png'', asset_updatedAt = ''2025-01-01T00:00:00.000Z''\<rparr>],
      albums = \<lparr>records =
         [\<lparr>album_id = 1, album_name = ''Travel'', album_order = 1,
           album_createdAt = ''2025-01-02T00:00:00.000Z'', album_updatedAt = None\<rparr>,
          \<lparr>album_id = 2, album_name = ''Family'', album_order = 0,
           album_createdAt = ''2025-01-03T00:00:00.000Z'', album_updatedAt = None\<rparr>],
         keyGen = 3\<rparr>,
      photos = \<lparr>records =
         [\<lparr>photo_id = 1, photo_albumId = 1, photo_blob = sampleBlob [0xFF, 0xD8, 0xFF, 0xE0] ''image/jpeg'',
           photo_mime = ''image/jpeg'', photo_size = 4, photo_order = 1,
           photo_createdAt = ''2025-01-04T00:00:00.000Z''\<rparr>,
          \<lparr>photo_id = 2, photo_albumId = 2, photo_blob = sampleBlob [0xFF, 0xD8, 0x01] ''image/jpeg'',
           photo_mime = ''image/jpeg'', photo_size = 3, photo_order = 1,
           photo_createdAt = ''2025-01-05T00:00:00.000Z''\<rparr>,
          \<lparr>photo_id = 3, photo_albumId = 1, photo_blob = sampleBlob [0xFF, 0xD8, 0x02, 0x03, 0x04] ''image/jpeg'',
           photo_mime = ''image/jpeg'', photo_size = 5, photo_order = 2,
           photo_createdAt = ''2025-01-06T00:00:00.000Z''\<rparr>],
         keyGen = 4\<rparr>,
      essays = \<lparr>records =
         [\<lparr>essay_id = 1, essay_title = ''Thesis'', essay_pdfBlob = sampleBlob [0x25, 0x50, 0x44, 0x46] ''application/pdf'',
           essay_mime = ''application/pdf'', essay_size = 4, essay_order = 1,
           essay_createdAt = ''2025-01-07T00:00:00.000Z'', essay_updatedAt = None\<rparr>],
         keyGen = 2\<rparr>,
      videos = \<lparr>records =
         [\<lparr>video_id = 1, video_provider = ''vimeo'', video_url = ''https://vimeo.com/897021152'',
           video_embedId = ''897021152'', video_title = None, video_order = 1,
           video_createdAt = ''2025-01-08T00:00:00.000Z''\<rparr>],
         keyGen = 2\<rparr>\<rparr>"

text \<open>
  A backup file with the current version whose first video has a URL of neither
  provider and whose second video is a Vimeo video.
\<close>

definition unparseableSnapshot :: snapshot where
  "unparseableSnapshot =
     \<lparr>snap_version = Some 1, snap_timestamp = ''2025-02-01T00:00:00.000Z'', snap_assets = [],
      snap_albums = [], snap_photos = [], snap_essays = [],
      snap_videos =
        [\<lparr>video_id = 1, video_provider = ''youtube'', video_url = ''https://example.com/x'',
          video_embedId = ''x'', video_title = None, video_order = 1,
          video_createdAt = ''2025-01-08T00:00:00.000Z''\<rparr>,
         \<lparr>video_id = 2, video_provider = ''vimeo'', video_url = ''https://vimeo.com/897021152'',
          video_embedId = ''897021152'', video_title = None, video_order = 2,
          video_createdAt = ''2025-01-09T00:00:00.000Z''\<rparr>]\<rparr>"

text \<open>
  The round trip of a backup: \<open>exportAll\<close> on one database, \<open>importAll\<close> of the document
  on a fresh one, with a storage engine that serves every request.
\<close>

definition roundTrip :: "timestamp \<Rightarrow> timestamp \<Rightarrow> database \<Rightarrow> (error + unit) \<times> database" where
  "roundTrip now later db =
     (case exportAll no_faults now db of
        Inl e \<Rightarrow> (Inl e, emptyDb)
      | Inr data \<Rightarrow> importAll no_faults later data emptyDb)"

text \<open>A storage engine that fails the deletion of one photo and serves everything else.\<close>

definition failDelete :: "nat \<Rightarrow> faults" where
  "failDelete k = (\<lambda>r. r = ReqDelete Photos k)"

text \<open>A backup file of a later schema version, and one without a version.\<close>

definition futureSnapshot :: snapshot where
  "futureSnapshot = unparseableSnapshot\<lparr>snap_version := Some 2\<rparr>"

definition unversionedSnapshot :: snapshot where
  "unversionedSnapshot = unparseableSnapshot\<lparr>snap_version := None\<rparr>"




definition localOnlyMirror :: "unit firebaseDatabase" where
  "localOnlyMirror = \<lparr>localDb = sampleDb, syncEnabled = False, remote = (), unhandled = []\<rparr>"





text \<open>
  The 6-bit groups that the base64 text of a byte sequence spells, without the padding.
\<close>

fun sextets :: "byte list \<Rightarrow> nat list" where
  "sextets (a # b # c # rest) =
     [unat a div 4, (unat a mod 4) * 16 + unat b div 16,
      (unat b mod 16) * 4 + unat c div 64, unat c mod 64] @ sextets rest"
| "sextets [a, b] = [unat a div 4, (unat a mod 4) * 16 + unat b div 16, (unat b mod 16) * 4]"
| "sextets [a] = [unat a div 4, (unat a mod 4) * 16]"
| "sextets [] = []"

text \<open>
  A listing whose order values are 1, 2, 3, ... in listing order: what a scope looks like
  when it has only seen creates.
\<close>

definition renumbered :: "('a \<Rightarrow> int) \<Rightarrow> 'a list \<Rightarrow> bool" where
  "renumbered ordf L = (map ordf L = [1 .. int (length L)])"

text \<open>
  The logical content of a database, as the listings show it: the albums by name, each
  with the bytes of its photos; the essays by title with their bytes; the video URLs; the
  bytes of the three branding assets. Ids, timestamps, mime types and order values are
  not part of it.
\<close>

definition photoContent :: "photo \<Rightarrow> byte list" where
  "photoContent p = blob_bytes (photo_blob p)"

definition essayContent :: "essay \<Rightarrow> string \<times> byte list" where
  "essayContent e = (essay_title e, blob_bytes (essay_pdfBlob e))"

definition assetContent :: "asset \<Rightarrow> byte list" where
  "assetContent a = blob_bytes (asset_blob a)"

definition albumsView :: "database \<Rightarrow> (string \<times> byte list list) list" where
  "albumsView db =
     map (\<lambda>a. (album_name a, map photoContent (photoListing (album_id a) db))) (albumListing db)"

definition essaysView :: "database \<Rightarrow> (string \<times> byte list) list" where
  "essaysView db = map essayContent (essayListing db)"

definition videosView :: "database \<Rightarrow> string list" where
  "videosView db = map video_url (videoListing db)"

definition assetsView :: "database \<Rightarrow> byte list option list" where
  "assetsView db = map (\<lambda>k. map_option assetContent (assets db k)) assetKeys"

text \<open>
  The states for which the round trip is stated: well-formed, every blob that the export
  encodes has at least one byte and a type without a comma, and every stored video URL is
  one that \<open>parseVideoUrl\<close> recognises (as it was when \<open>addVideo\<close> stored it).
\<close>

definition exportable :: "blob \<Rightarrow> bool" where
  "exportable b = (blob_bytes b \<noteq> [] \<and> CHR '','' \<notin> set (blob_type b))"

definition assetExportable :: "database \<Rightarrow> string \<Rightarrow> bool" where
  "assetExportable db k = (case assets db k of None \<Rightarrow> True | Some a \<Rightarrow> exportable (asset_blob a))"

definition backupReady :: "database \<Rightarrow> bool" where
  "backupReady db =
     (wfDb db \<and>
      list_all (\<lambda>p. exportable (photo_blob p)) (records (photos db)) \<and>
      list_all (\<lambda>e. exportable (essay_pdfBlob e)) (records (essays db)) \<and>
      list_all (\<lambda>v. parseVideoUrl (video_url v) \<noteq> None) (records (videos db)) \<and>
      list_all (assetExportable db) assetKeys)"

text \<open>Every scope of a database has order values 1, 2, 3, ...\<close>

definition allRenumbered :: "database \<Rightarrow> bool" where
  "allRenumbered db =
     (renumbered album_order (albumListing db) \<and>
      list_all (\<lambda>a. renumbered photo_order (photoListing (album_id a) db)) (albumListing db) \<and>
      renumbered essay_order (essayListing db) \<and>
      renumbered video_order (videoListing db))"

text \<open>An object store after the records \<open>new\<close> were added to it one after the other.\<close>

definition appended :: "'a list \<Rightarrow> 'a objectStore \<Rightarrow> 'a objectStore" where
  "appended new s = \<lparr>records = records s @ new, keyGen = keyGen s + length new\<rparr>"

text \<open>
  States on which the round trip of a backup loses something or fails, each with a single
  record: a photo of an album that does not exist, an asset under a key that is none of
  the three branding keys, an essay whose file has no bytes, an essay whose file has a
  comma in its type, and a video whose stored URL is of neither provider.
\<close>

definition orphanPhotoDb :: database where
  "orphanPhotoDb =
     emptyDb\<lparr>photos := \<lparr>records =
        [\<lparr>photo_id = 1, photo_albumId = 7, photo_blob = sampleBlob [0xFF, 0xD8] ''image/jpeg'',
          photo_mime = ''image/jpeg'', photo_size = 2, photo_order = 1,
          photo_createdAt = ''2025-01-04T00:00:00.000Z''\<rparr>], keyGen = 2\<rparr>\<rparr>"

definition otherAssetDb :: database where
  "otherAssetDb =
     emptyDb\<lparr>assets := [''heroImage'' \<mapsto>
        \<lparr>asset_key = ''heroImage'', asset_blob = sampleBlob [0x89, 0x50] ''image/png'',
         asset_mime = ''image/png'', asset_updatedAt = ''2025-01-01T00:00:00.000Z''\<rparr>]\<rparr>"

definition essayDb :: "blob \<Rightarrow> database" where
  "essayDb file =
     emptyDb\<lparr>essays := \<lparr>records =
        [\<lparr>essay_id = 1, essay_title = ''Thesis'', essay_pdfBlob = file,
          essay_mime = ''application/pdf'', essay_size = blob_size file, essay_order = 1,
          essay_createdAt = ''2025-01-07T00:00:00.000Z'', essay_updatedAt = None\<rparr>],
        keyGen = 2\<rparr>\<rparr>"

definition strayVideoDb :: database where
  "strayVideoDb =
     emptyDb\<lparr>videos := \<lparr>records =
        [\<lparr>video_id = 1, video_provider = ''youtube'', video_url = ''https://example.com/x'',
          video_embedId = ''x'', video_title = None, video_order = 1,
          video_createdAt = ''2025-01-08T00:00:00.000Z''\<rparr>], keyGen = 2\<rparr>\<rparr>"


section \<open>Listings\<close>

lemma no_faults_False: "\<not> no_faults r"
  by (simp add: no_faults_def)

lemma orZero_id [simp]: "orZero n = n"
  by (simp add: orZero_def)

lemma byOrder_eq: "byOrder ordf xs = sort_key ordf xs"
  by (simp add: byOrder_def)

lemma orderedListing_insort:
  "orderedListing idf ordf zs \<Longrightarrow> \<forall>z\<in>set zs. idf y \<le> idf z \<Longrightarrow>
   orderedListing idf ordf (insort_key ordf y zs)"
proof (induction zs)
  case Nil
  then show ?case by (simp add: orderedListing_def)
next
  case (Cons z zs)
  show ?case
  proof (cases "ordf y \<le> ordf z")
    case True
    have "\<forall>w\<in>set zs. ordf z \<le> ordf w"
      using Cons.prems(1) by (auto simp: orderedListing_def)
    with True Cons.prems show ?thesis
      by (fastforce simp: orderedListing_def)
  next
    case False
    have tl: "orderedListing idf ordf (insort_key ordf y zs)"
      using Cons by (simp add: orderedListing_def)
    with False Cons.prems show ?thesis
      by (auto simp: orderedListing_def set_insort_key)
  qed
qed

lemma orderedListing_sort_key:
  "sorted (map idf ys) \<Longrightarrow> orderedListing idf ordf (sort_key ordf ys)"
proof (induction ys)
  case Nil
  then show ?case by (simp add: orderedListing_def)
next
  case (Cons y ys)
  then show ?case by (simp add: orderedListing_insort)
qed

lemma orderedListing_store:
  "orderedListing idf ordf (byOrder ordf (filter P (store_getAll idf s)))"
  by (simp add: byOrder_eq store_getAll_def orderedListing_sort_key sorted_filter)

lemma mset_listing:
  "mset (byOrder ordf (filter P (store_getAll idf s))) = mset (filter P (records s))"
  by (simp add: byOrder_eq store_getAll_def)

text \<open>
  C5. Every list-style read whose \<open>getAll\<close> request the storage engine serves resolves
  (the read has no rejection of its own), with exactly the records of the scope (none
  when the scope is empty), ascending by \<open>order\<close>, records of equal \<open>order\<close> in ascending
  key order. This holds in every state of the database.
\<close>

theorem list_reads_sorted:
  "(\<not> F (ReqGetAll Albums) \<longrightarrow>
      (\<exists>xs. getAllAlbums F db = Inr xs \<and> mset xs = mset (records (albums db)) \<and>
            orderedListing album_id album_order xs)) \<and>
   (\<not> F (ReqGetAll Photos) \<longrightarrow>
      (\<exists>xs. getPhotosByAlbum F albumId db = Inr xs \<and>
            mset xs = mset (filter (\<lambda>p. photo_albumId p = albumId) (records (photos db))) \<and>
            orderedListing photo_id photo_order xs)) \<and>
   (\<not> F (ReqGetAll Essays) \<longrightarrow>
      (\<exists>xs. getAllEssays F db = Inr xs \<and> mset xs = mset (records (essays db)) \<and>
            orderedListing essay_id essay_order xs)) \<and>
   (\<not> F (ReqGetAll Videos) \<longrightarrow>
      (\<exists>xs. getAllVideos F db = Inr xs \<and> mset xs = mset (records (videos db)) \<and>
            orderedListing video_id video_order xs))"
proof (intro conjI impI)
  assume "\<not> F (ReqGetAll Albums)"
  then show "\<exists>xs. getAllAlbums F db = Inr xs \<and> mset xs = mset (records (albums db)) \<and>
            orderedListing album_id album_order xs"
    using orderedListing_store [of album_id album_order "\<lambda>x. True" "albums db"]
          mset_listing [of album_order "\<lambda>x. True" album_id "albums db"]
    by (simp add: getAllAlbums_def albumListing_def)
next
  assume "\<not> F (ReqGetAll Photos)"
  then show "\<exists>xs. getPhotosByAlbum F albumId db = Inr xs \<and>
            mset xs = mset (filter (\<lambda>p. photo_albumId p = albumId) (records (photos db))) \<and>
            orderedListing photo_id photo_order xs"
    by (simp add: getPhotosByAlbum_def photoListing_def orderedListing_store mset_listing)
next
  assume "\<not> F (ReqGetAll Essays)"
  then show "\<exists>xs. getAllEssays F db = Inr xs \<and> mset xs = mset (records (essays db)) \<and>
            orderedListing essay_id essay_order xs"
    using orderedListing_store [of essay_id essay_order "\<lambda>x. True" "essays db"]
          mset_listing [of essay_order "\<lambda>x. True" essay_id "essays db"]
    by (simp add: getAllEssays_def essayListing_def)
next
  assume "\<not> F (ReqGetAll Videos)"
  then show "\<exists>xs. getAllVideos F db = Inr xs \<and> mset xs = mset (records (videos db)) \<and>
            orderedListing video_id video_order xs"
    using orderedListing_store [of video_id video_order "\<lambda>x. True" "videos db"]
          mset_listing [of video_order "\<lambda>x. True" video_id "videos db"]
    by (simp add: getAllVideos_def videoListing_def)
qed

theorem list_reads_sorted_witness:
  "\<not> no_faults (ReqGetAll Albums) \<and> \<not> no_faults (ReqGetAll Photos) \<and>
   \<not> no_faults (ReqGetAll Essays) \<and> \<not> no_faults (ReqGetAll Videos) \<and>
   (\<exists>xs. getAllAlbums no_faults sampleDb = Inr xs \<and> map album_name xs = [''Family'', ''Travel''] \<and>
         orderedListing album_id album_order xs) \<and>
   (\<exists>xs. getPhotosByAlbum no_faults 1 sampleDb = Inr xs \<and> map photo_id xs = [1, 3] \<and>
         orderedListing photo_id photo_order xs) \<and>
   (\<exists>xs. getAllEssays no_faults sampleDb = Inr xs \<and> orderedListing essay_id essay_order xs) \<and>
   (\<exists>xs. getAllVideos no_faults sampleDb = Inr xs \<and> orderedListing video_id video_order xs)"
  using list_reads_sorted [of no_faults sampleDb 1]
  by (auto simp: no_faults_def getAllAlbums_def getPhotosByAlbum_def albumListing_def
                 photoListing_def byOrder_eq store_getAll_def sampleDb_def)


section \<open>Order values assigned on create\<close>

lemma mathMax_Max: "xs \<noteq> [] \<Longrightarrow> mathMax xs = Max (set xs)"
proof (cases xs)
  case Nil
  assume "xs \<noteq> []"
  with Nil show ?thesis by simp
next
  case (Cons a list)
  have "Max (set (a # list)) = fold max list a"
    by (rule Max.set_eq_fold)
  with Cons show ?thesis by simp
qed

lemma maxOrder_Max: "maxOrder os = (if os = [] then 0 else Max (set os))"
  by (simp add: maxOrder_def mathMax_Max comp_def)

lemma maxOrder_ge: "x \<in> set os \<Longrightarrow> x \<le> maxOrder os"
  by (auto simp: maxOrder_Max)

lemma maxOrder_snoc: "maxOrder (os @ [maxOrder os + 1]) = maxOrder os + 1"
proof (cases "os = []")
  case True
  then show ?thesis by (simp add: maxOrder_Max)
next
  case False
  then have "Max (insert (Max (set os) + 1) (set os)) = Max (set os) + 1"
    by (intro Max_eqI) (auto simp: le_iff_add intro: add_increasing2 Max_ge)
  with False show ?thesis by (simp add: maxOrder_Max)
qed

lemma insort_key_snoc:
  "f a \<le> f x \<Longrightarrow> insort_key f a (ys @ [x]) = insort_key f a ys @ [x]"
  by (induction ys) auto

lemma sort_key_snoc:
  "\<forall>y\<in>set xs. f y \<le> f x \<Longrightarrow> sort_key f (xs @ [x]) = sort_key f xs @ [x]"
  by (induction xs) (auto simp: insort_key_snoc)

lemma wfStore_sorted: "wfStore idf s \<Longrightarrow> sorted (map idf (records s))"
  by (simp add: wfStore_def strict_sorted_iff)

lemma wfStore_distinct: "wfStore idf s \<Longrightarrow> distinct (map idf (records s))"
  by (simp add: wfStore_def strict_sorted_iff)

lemma wfStore_getAll: "wfStore idf s \<Longrightarrow> store_getAll idf s = records s"
  by (simp add: store_getAll_def sort_key_id_if_sorted wfStore_sorted)

lemma wfStore_add:
  assumes "wfStore idf s" and "\<And>k. idf (mk k) = k"
  shows "wfStore idf (snd (store_add mk s))"
  using assms
  by (auto simp: wfStore_def store_add_def sorted_wrt_append list_all_iff)

lemma listing_add:
  assumes wf: "wfStore idf s" and mk: "\<And>k. idf (mk k) = k"
    and P: "P (mk (keyGen s))"
    and ord: "ordf (mk (keyGen s)) = maxOrder (map ordf (byOrder ordf (filter P (store_getAll idf s)))) + 1"
  shows "byOrder ordf (filter P (store_getAll idf (snd (store_add mk s)))) =
         byOrder ordf (filter P (store_getAll idf s)) @ [mk (keyGen s)]"
proof -
  have g: "store_getAll idf (snd (store_add mk s)) = records s @ [mk (keyGen s)]"
    using wfStore_getAll [OF wfStore_add [OF wf mk]] by (simp add: store_add_def)
  have "\<forall>y\<in>set (filter P (records s)). ordf y \<le> ordf (mk (keyGen s))"
  proof
    fix y assume "y \<in> set (filter P (records s))"
    then have "ordf y \<in> set (map ordf (byOrder ordf (filter P (store_getAll idf s))))"
      by (simp add: byOrder_eq wfStore_getAll [OF wf])
    from maxOrder_ge [OF this] show "ordf y \<le> ordf (mk (keyGen s))"
      by (simp add: ord)
  qed
  then show ?thesis
    by (simp add: g P byOrder_eq wfStore_getAll [OF wf] sort_key_snoc)
qed

lemma upto_shift: "((m::int) + 1) # [m + 1 + 1 .. m + 1 + int n] = [m + 1 .. m + int (Suc n)]"
proof -
  have e: "m + int (Suc n) = m + 1 + int n" by simp
  show ?thesis unfolding e by (rule upto_rec1 [symmetric]) simp
qed

lemma createSeq_generic:
  assumes step: "\<And>x db. Inv db \<Longrightarrow> ok x \<Longrightarrow>
      \<exists>k r db'. f x db = (Inr k, db') \<and> Inv db' \<and> L db' = L db @ [r] \<and> idf r = k \<and> tag r = x \<and>
               ordf r = maxOrder (map ordf (L db)) + 1"
  shows "Inv db \<Longrightarrow> \<forall>x\<in>set xs. ok x \<Longrightarrow>
     \<exists>ks db' new. createSeq f xs db = (Inr ks, db') \<and> Inv db' \<and> L db' = L db @ new \<and>
        map idf new = ks \<and> map tag new = xs \<and> createdInOrder ordf (L db) (L db') new"
proof (induction xs arbitrary: db)
  case Nil
  then show ?case by (simp add: createdInOrder_def)
next
  case (Cons x xs)
  from step [of db x] Cons.prems obtain k r db1 where
    s: "f x db = (Inr k, db1)" "Inv db1" "L db1 = L db @ [r]" "idf r = k" "tag r = x"
       "ordf r = maxOrder (map ordf (L db)) + 1"
    by auto
  from Cons.IH [OF s(2)] Cons.prems(2) obtain ks db' new where
    t: "createSeq f xs db1 = (Inr ks, db')" "Inv db'" "L db' = L db1 @ new"
       "map idf new = ks" "map tag new = xs"
       "map ordf new = [maxOrder (map ordf (L db1)) + 1 .. maxOrder (map ordf (L db1)) + int (length xs)]"
    by (auto simp: createdInOrder_def dest: map_eq_imp_length_eq)
  define m where "m = maxOrder (map ordf (L db))"
  have m: "maxOrder (map ordf (L db1)) = m + 1"
    by (simp add: s(3) s(6) maxOrder_snoc m_def)
  have "map ordf new = [m + 1 + 1 .. m + 1 + int (length xs)]"
    using t(6) unfolding m .
  moreover have "ordf r = m + 1"
    using s(6) by (simp only: m_def)
  ultimately have "map ordf (r # new) = (m + 1) # [m + 1 + 1 .. m + 1 + int (length xs)]"
    by (simp only: list.map)
  then have "map ordf (r # new) = [m + 1 .. m + int (length (x # xs))]"
    by (simp only: upto_shift length_Cons)
  moreover have "length (r # new) = length (x # xs)"
    using t(5) by (auto dest: map_eq_imp_length_eq)
  ultimately have "createdInOrder ordf (L db) (L db') (r # new)"
    unfolding createdInOrder_def m_def using s(3) t(3)
    by (simp del: upto.simps length_Cons list.map)
  with s t show ?case
    by (intro exI [of _ "k # ks"] exI [of _ db'] exI [of _ "r # new"]) simp
qed

lemma createAlbum_ok:
  "\<not> F (ReqGetAll Albums) \<Longrightarrow> \<not> F (ReqAdd Albums) \<Longrightarrow>
   createAlbum F now name db =
     (Inr (keyGen (albums db)),
      db\<lparr>albums := snd (store_add (\<lambda>k. \<lparr>album_id = k, album_name = name,
                 album_order = maxOrder (map album_order (albumListing db)) + 1,
                 album_createdAt = now, album_updatedAt = None\<rparr>) (albums db))\<rparr>)"
  by (simp add: createAlbum_def getAllAlbums_def store_add_def)

lemma addPhoto_ok:
  "\<not> F (ReqGetAll Photos) \<Longrightarrow> \<not> F (ReqAdd Photos) \<Longrightarrow>
   addPhoto F now albumId file db =
     (Inr (keyGen (photos db)),
      db\<lparr>photos := snd (store_add (\<lambda>k. \<lparr>photo_id = k, photo_albumId = albumId, photo_blob = file,
                 photo_mime = blob_type file, photo_size = blob_size file,
                 photo_order = maxOrder (map photo_order (photoListing albumId db)) + 1,
                 photo_createdAt = now\<rparr>) (photos db))\<rparr>)"
  by (simp add: addPhoto_def getPhotosByAlbum_def store_add_def)

lemma addEssay_ok:
  "\<not> F (ReqGetAll Essays) \<Longrightarrow> \<not> F (ReqAdd Essays) \<Longrightarrow>
   addEssay F now file title db =
     (Inr (keyGen (essays db)),
      db\<lparr>essays := snd (store_add (\<lambda>k. \<lparr>essay_id = k, essay_title = title, essay_pdfBlob = file,
                 essay_mime = ''application/pdf'', essay_size = blob_size file,
                 essay_order = maxOrder (map essay_order (essayListing db)) + 1,
                 essay_createdAt = now, essay_updatedAt = None\<rparr>) (essays db))\<rparr>)"
  by (simp add: addEssay_def getAllEssays_def store_add_def)

lemma addVideo_ok:
  "\<not> F (ReqGetAll Videos) \<Longrightarrow> \<not> F (ReqAdd Videos) \<Longrightarrow> parseVideoUrl url = Some vi \<Longrightarrow>
   addVideo F now url db =
     (Inr (keyGen (videos db)),
      db\<lparr>videos := snd (store_add (\<lambda>k. \<lparr>video_id = k, video_provider = vi_provider vi,
                 video_url = url, video_embedId = vi_embedId vi, video_title = vi_title vi,
                 video_order = maxOrder (map video_order (videoListing db)) + 1,
                 video_createdAt = now\<rparr>) (videos db))\<rparr>)"
  by (simp add: addVideo_def getAllVideos_def store_add_def)

lemma createAlbum_step:
  assumes "wfDb db" "\<not> F (ReqGetAll Albums)" "\<not> F (ReqAdd Albums)"
  shows "\<exists>k r db'. createAlbum F now name db = (Inr k, db') \<and> wfDb db' \<and>
           albumListing db' = albumListing db @ [r] \<and> album_id r = k \<and> album_name r = name \<and>
           album_order r = maxOrder (map album_order (albumListing db)) + 1"
proof -
  let ?mk = "\<lambda>k. \<lparr>album_id = k, album_name = name,
                 album_order = maxOrder (map album_order (albumListing db)) + 1,
                 album_createdAt = now, album_updatedAt = None\<rparr>"
  have wf: "wfStore album_id (albums db)" using assms(1) by (simp add: wfDb_def)
  have "byOrder album_order (filter (\<lambda>a. True) (store_getAll album_id (snd (store_add ?mk (albums db))))) =
        byOrder album_order (filter (\<lambda>a. True) (store_getAll album_id (albums db))) @ [?mk (keyGen (albums db))]"
    by (rule listing_add [OF wf]) (simp_all add: albumListing_def)
  then show ?thesis
    using assms wfStore_add [OF wf, of ?mk]
    by (simp add: createAlbum_ok albumListing_def wfDb_def)
qed

lemma addPhoto_step:
  assumes "wfDb db" "\<not> F (ReqGetAll Photos)" "\<not> F (ReqAdd Photos)"
  shows "\<exists>k r db'. addPhoto F now albumId file db = (Inr k, db') \<and> wfDb db' \<and>
           photoListing albumId db' = photoListing albumId db @ [r] \<and> photo_id r = k \<and>
           photo_blob r = file \<and>
           photo_order r = maxOrder (map photo_order (photoListing albumId db)) + 1"
proof -
  let ?mk = "\<lambda>k. \<lparr>photo_id = k, photo_albumId = albumId, photo_blob = file,
                 photo_mime = blob_type file, photo_size = blob_size file,
                 photo_order = maxOrder (map photo_order (photoListing albumId db)) + 1,
                 photo_createdAt = now\<rparr>"
  have wf: "wfStore photo_id (photos db)" using assms(1) by (simp add: wfDb_def)
  have "byOrder photo_order (filter (\<lambda>p. photo_albumId p = albumId)
            (store_getAll photo_id (snd (store_add ?mk (photos db))))) =
        byOrder photo_order (filter (\<lambda>p. photo_albumId p = albumId)
            (store_getAll photo_id (photos db))) @ [?mk (keyGen (photos db))]"
    by (rule listing_add [OF wf]) (simp_all add: photoListing_def)
  then show ?thesis
    using assms wfStore_add [OF wf, of ?mk]
    by (simp add: addPhoto_ok photoListing_def wfDb_def)
qed

lemma addEssay_step:
  assumes "wfDb db" "\<not> F (ReqGetAll Essays)" "\<not> F (ReqAdd Essays)"
  shows "\<exists>k r db'. addEssay F now file title db = (Inr k, db') \<and> wfDb db' \<and>
           essayListing db' = essayListing db @ [r] \<and> essay_id r = k \<and>
           (essay_pdfBlob r, essay_title r) = (file, title) \<and>
           essay_order r = maxOrder (map essay_order (essayListing db)) + 1"
proof -
  let ?mk = "\<lambda>k. \<lparr>essay_id = k, essay_title = title, essay_pdfBlob = file,
                 essay_mime = ''application/pdf'', essay_size = blob_size file,
                 essay_order = maxOrder (map essay_order (essayListing db)) + 1,
                 essay_createdAt = now, essay_updatedAt = None\<rparr>"
  have wf: "wfStore essay_id (essays db)" using assms(1) by (simp add: wfDb_def)
  have "byOrder essay_order (filter (\<lambda>a. True) (store_getAll essay_id (snd (store_add ?mk (essays db))))) =
        byOrder essay_order (filter (\<lambda>a. True) (store_getAll essay_id (essays db))) @ [?mk (keyGen (essays db))]"
    by (rule listing_add [OF wf]) (simp_all add: essayListing_def)
  then show ?thesis
    using assms wfStore_add [OF wf, of ?mk]
    by (simp add: addEssay_ok essayListing_def wfDb_def)
qed

lemma addVideo_step:
  assumes "wfDb db" "\<not> F (ReqGetAll Videos)" "\<not> F (ReqAdd Videos)" "parseVideoUrl url \<noteq> None"
  shows "\<exists>k r db'. addVideo F now url db = (Inr k, db') \<and> wfDb db' \<and>
           videoListing db' = videoListing db @ [r] \<and> video_id r = k \<and> video_url r = url \<and>
           video_order r = maxOrder (map video_order (videoListing db)) + 1"
proof -
  from assms(4) obtain vi where vi: "parseVideoUrl url = Some vi" by auto
  let ?mk = "\<lambda>k. \<lparr>video_id = k, video_provider = vi_provider vi,
                 video_url = url, video_embedId = vi_embedId vi, video_title = vi_title vi,
                 video_order = maxOrder (map video_order (videoListing db)) + 1,
                 video_createdAt = now\<rparr>"
  have wf: "wfStore video_id (videos db)" using assms(1) by (simp add: wfDb_def)
  have "byOrder video_order (filter (\<lambda>a. True) (store_getAll video_id (snd (store_add ?mk (videos db))))) =
        byOrder video_order (filter (\<lambda>a. True) (store_getAll video_id (videos db))) @ [?mk (keyGen (videos db))]"
    by (rule listing_add [OF wf]) (simp_all add: videoListing_def)
  then show ?thesis
    using assms(1-3) wfStore_add [OF wf, of ?mk]
    by (simp add: addVideo_ok [OF _ _ vi] videoListing_def wfDb_def)
qed

text \<open>
  C3. In a well-formed state, a run of create calls in one scope (albums, the photos of
  one album, essays, videos with recognised URLs) whose requests the storage engine
  serves returns the new ids, and the listing read afterwards is the listing read before
  followed by the new records in creation order; their order values count up by one from
  the largest order value of the scope plus 1, from 1 in an empty scope, so they are
  strictly increasing.
\<close>

theorem create_orders_increase:
  "wfDb db \<Longrightarrow>
   (\<not> F (ReqGetAll Albums) \<and> \<not> F (ReqAdd Albums) \<longrightarrow>
      (\<exists>ids db' before new.
          getAllAlbums F db = Inr before \<and>
          createSeq (createAlbum F now) names db = (Inr ids, db') \<and>
          getAllAlbums F db' = Inr (before @ new) \<and>
          createdInOrder album_order before (before @ new) new \<and>
          map album_id new = ids \<and> map album_name new = names)) \<and>
   (\<not> F (ReqGetAll Photos) \<and> \<not> F (ReqAdd Photos) \<longrightarrow>
      (\<exists>ids db' before new.
          getPhotosByAlbum F albumId db = Inr before \<and>
          createSeq (addPhoto F now albumId) files db = (Inr ids, db') \<and>
          getPhotosByAlbum F albumId db' = Inr (before @ new) \<and>
          createdInOrder photo_order before (before @ new) new \<and>
          map photo_id new = ids \<and> map photo_blob new = files)) \<and>
   (\<not> F (ReqGetAll Essays) \<and> \<not> F (ReqAdd Essays) \<longrightarrow>
      (\<exists>ids db' before new.
          getAllEssays F db = Inr before \<and>
          createSeq (\<lambda>(file, title). addEssay F now file title) items db = (Inr ids, db') \<and>
          getAllEssays F db' = Inr (before @ new) \<and>
          createdInOrder essay_order before (before @ new) new \<and>
          map essay_id new = ids \<and> map (\<lambda>e. (essay_pdfBlob e, essay_title e)) new = items)) \<and>
   (\<not> F (ReqGetAll Videos) \<and> \<not> F (ReqAdd Videos) \<and> list_all (\<lambda>u. parseVideoUrl u \<noteq> None) urls \<longrightarrow>
      (\<exists>ids db' before new.
          getAllVideos F db = Inr before \<and>
          createSeq (addVideo F now) urls db = (Inr ids, db') \<and>
          getAllVideos F db' = Inr (before @ new) \<and>
          createdInOrder video_order before (before @ new) new \<and>
          map video_id new = ids \<and> map video_url new = urls)) \<and>
   (\<forall>os. maxOrder os = (if os = [] then 0 else Max (set os)))"
proof (intro conjI impI allI)
  assume wf: "wfDb db" and F: "\<not> F (ReqGetAll Albums) \<and> \<not> F (ReqAdd Albums)"
  have "\<exists>ks db' new. createSeq (createAlbum F now) names db = (Inr ks, db') \<and> wfDb db' \<and>
          albumListing db' = albumListing db @ new \<and> map album_id new = ks \<and>
          map album_name new = names \<and>
          createdInOrder album_order (albumListing db) (albumListing db') new"
    by (rule createSeq_generic [where ok = "\<lambda>x. True"]) (use wf F createAlbum_step in auto)
  with F show "\<exists>ids db' before new.
          getAllAlbums F db = Inr before \<and>
          createSeq (createAlbum F now) names db = (Inr ids, db') \<and>
          getAllAlbums F db' = Inr (before @ new) \<and>
          createdInOrder album_order before (before @ new) new \<and>
          map album_id new = ids \<and> map album_name new = names"
    by (auto simp: getAllAlbums_def)
next
  assume wf: "wfDb db" and F: "\<not> F (ReqGetAll Photos) \<and> \<not> F (ReqAdd Photos)"
  have "\<exists>ks db' new. createSeq (addPhoto F now albumId) files db = (Inr ks, db') \<and> wfDb db' \<and>
          photoListing albumId db' = photoListing albumId db @ new \<and> map photo_id new = ks \<and>
          map photo_blob new = files \<and>
          createdInOrder photo_order (photoListing albumId db) (photoListing albumId db') new"
    by (rule createSeq_generic [where ok = "\<lambda>x. True"]) (use wf F addPhoto_step in auto)
  with F show "\<exists>ids db' before new.
          getPhotosByAlbum F albumId db = Inr before \<and>
          createSeq (addPhoto F now albumId) files db = (Inr ids, db') \<and>
          getPhotosByAlbum F albumId db' = Inr (before @ new) \<and>
          createdInOrder photo_order before (before @ new) new \<and>
          map photo_id new = ids \<and> map photo_blob new = files"
    by (auto simp: getPhotosByAlbum_def)
next
  assume wf: "wfDb db" and F: "\<not> F (ReqGetAll Essays) \<and> \<not> F (ReqAdd Essays)"
  have "\<exists>ks db' new. createSeq (\<lambda>(file, title). addEssay F now file title) items db = (Inr ks, db') \<and>
          wfDb db' \<and> essayListing db' = essayListing db @ new \<and> map essay_id new = ks \<and>
          map (\<lambda>e. (essay_pdfBlob e, essay_title e)) new = items \<and>
          createdInOrder essay_order (essayListing db) (essayListing db') new"
    by (rule createSeq_generic [where ok = "\<lambda>x. True"])
       (use wf F addEssay_step in \<open>auto simp: split_beta\<close>)
  with F show "\<exists>ids db' before new.
          getAllEssays F db = Inr before \<and>
          createSeq (\<lambda>(file, title). addEssay F now file title) items db = (Inr ids, db') \<and>
          getAllEssays F db' = Inr (before @ new) \<and>
          createdInOrder essay_order before (before @ new) new \<and>
          map essay_id new = ids \<and> map (\<lambda>e. (essay_pdfBlob e, essay_title e)) new = items"
    by (auto simp: getAllEssays_def)
next
  assume wf: "wfDb db"
    and F: "\<not> F (ReqGetAll Videos) \<and> \<not> F (ReqAdd Videos) \<and> list_all (\<lambda>u. parseVideoUrl u \<noteq> None) urls"
  have "\<exists>ks db' new. createSeq (addVideo F now) urls db = (Inr ks, db') \<and> wfDb db' \<and>
          videoListing db' = videoListing db @ new \<and> map video_id new = ks \<and>
          map video_url new = urls \<and>
          createdInOrder video_order (videoListing db) (videoListing db') new"
    by (rule createSeq_generic [where ok = "\<lambda>u. parseVideoUrl u \<noteq> None"])
       (use wf F addVideo_step in \<open>auto simp: list_all_iff\<close>)
  with F show "\<exists>ids db' before new.
          getAllVideos F db = Inr before \<and>
          createSeq (addVideo F now) urls db = (Inr ids, db') \<and>
          getAllVideos F db' = Inr (before @ new) \<and>
          createdInOrder video_order before (before @ new) new \<and>
          map video_id new = ids \<and> map video_url new = urls"
    by (auto simp: getAllVideos_def)
next
  fix os show "maxOrder os = (if os = [] then 0 else Max (set os))"
    by (rule maxOrder_Max)
qed

lemma parse_youtube_example:
  "parseVideoUrl ''https://youtu.be/dQw4w9WgXcQ'' =
     Some \<lparr>vi_provider = ''youtube'', vi_embedId = ''dQw4w9WgXcQ'', vi_title = None\<rparr>"
  by code_simp

lemma parse_vimeo_example:
  "parseVideoUrl ''https://vimeo.com/897021152'' =
     Some \<lparr>vi_provider = ''vimeo'', vi_embedId = ''897021152'', vi_title = None\<rparr>"
  by code_simp

lemma parse_other_example: "parseVideoUrl ''https://example.com/x'' = None"
  by code_simp

lemma wfDb_sampleDb: "wfDb sampleDb"
  by (simp add: wfDb_def wfStore_def sampleDb_def)

lemma wfDb_emptyDb: "wfDb emptyDb"
  by (simp add: wfDb_def wfStore_def emptyDb_def emptyStore_def)

theorem create_orders_increase_witness:
  "wfDb sampleDb \<and>
   \<not> no_faults (ReqGetAll Albums) \<and> \<not> no_faults (ReqAdd Albums) \<and>
   \<not> no_faults (ReqGetAll Photos) \<and> \<not> no_faults (ReqAdd Photos) \<and>
   \<not> no_faults (ReqGetAll Essays) \<and> \<not> no_faults (ReqAdd Essays) \<and>
   \<not> no_faults (ReqGetAll Videos) \<and> \<not> no_faults (ReqAdd Videos) \<and>
   list_all (\<lambda>u. parseVideoUrl u \<noteq> None) [''https://youtu.be/dQw4w9WgXcQ''] \<and>
   (\<exists>ids db' before new.
       getAllAlbums no_faults sampleDb = Inr before \<and>
       createSeq (createAlbum no_faults ''t'') [''Work'', ''Home''] sampleDb = (Inr ids, db') \<and>
       getAllAlbums no_faults db' = Inr (before @ new) \<and>
       createdInOrder album_order before (before @ new) new \<and>
       map album_id new = ids \<and> map album_name new = [''Work'', ''Home'']) \<and>
   (\<exists>ids db' before new.
       getPhotosByAlbum no_faults 1 sampleDb = Inr before \<and>
       createSeq (addPhoto no_faults ''t'' 1) [sampleBlob [1] ''image/png''] sampleDb = (Inr ids, db') \<and>
       getPhotosByAlbum no_faults 1 db' = Inr (before @ new) \<and>
       createdInOrder photo_order before (before @ new) new \<and>
       map photo_id new = ids \<and> map photo_blob new = [sampleBlob [1] ''image/png'']) \<and>
   (\<exists>ids db' before new.
       getAllVideos no_faults sampleDb = Inr before \<and>
       createSeq (addVideo no_faults ''t'') [''https://youtu.be/dQw4w9WgXcQ''] sampleDb = (Inr ids, db') \<and>
       getAllVideos no_faults db' = Inr (before @ new) \<and>
       createdInOrder video_order before (before @ new) new \<and>
       map video_id new = ids \<and> map video_url new = [''https://youtu.be/dQw4w9WgXcQ''])"
  using create_orders_increase [of sampleDb no_faults "''t''" "[''Work'', ''Home'']" 1
          "[sampleBlob [1] ''image/png'']" "[]" "[''https://youtu.be/dQw4w9WgXcQ'']"]
  by (simp add: wfDb_sampleDb no_faults_def parse_youtube_example)


section \<open>Bulk reorder\<close>

lemma store_get_Some:
  "store_get idf s k = Some r \<Longrightarrow> r \<in> set (records s) \<and> idf r = k"
  by (auto simp: store_get_def find_Some_iff)

lemma store_get_member:
  assumes "wfStore idf s" "r \<in> set (records s)"
  shows "store_get idf s (idf r) = Some r"
proof -
  have d: "distinct (map idf (records s))" by (rule wfStore_distinct [OF assms(1)])
  from assms(2) obtain r' where r': "store_get idf s (idf r) = Some r'"
    by (cases "store_get idf s (idf r)") (auto simp: store_get_def find_None_iff)
  then have "r' \<in> set (records s)" "idf r' = idf r"
    by (auto dest: store_get_Some)
  with d assms(2) have "r' = r"
    by (meson distinct_map inj_onD)
  with r' show ?thesis by simp
qed


lemma idf_latest [simp]: "idf (latest idf U r) = idf r"
  by (auto simp: latest_def find_Some_iff split: option.splits)

lemma latest_snoc:
  "latest idf (U @ [u]) r = (if idf u = idf r then u else latest idf U r)"
  by (simp add: latest_def)

lemma fold_store_put:
  "\<forall>u\<in>set U. \<exists>r\<in>set (records s). idf r = idf u \<Longrightarrow>
   fold (store_put idf) U s = s\<lparr>records := map (latest idf U) (records s)\<rparr>"
proof (induction U rule: rev_induct)
  case Nil
  then show ?case by (simp add: latest_def)
next
  case (snoc u U)
  let ?s = "s\<lparr>records := map (latest idf U) (records s)\<rparr>"
  from snoc.prems obtain r where r: "r \<in> set (records s)" "idf r = idf u" by auto
  then have "\<exists>x. x \<in> set (records ?s) \<and> idf x = idf u"
    by (intro exI [of _ "latest idf U r"]) simp
  then obtain old where "store_get idf ?s (idf u) = Some old"
    by (cases "store_get idf ?s (idf u)") (auto simp: store_get_def find_None_iff)
  then have "store_put idf u ?s =
             ?s\<lparr>records := map (\<lambda>x. if idf x = idf u then u else x) (records ?s)\<rparr>"
    by (simp add: store_put_def)
  moreover have "fold (store_put idf) U s = ?s"
    using snoc by simp
  ultimately show ?case
    by (auto simp: latest_snoc)
qed

lemma reorderUpdates_snoc:
  "reorderUpdates idf P setOrder s (ids @ [k]) =
   reorderUpdates idf P setOrder s ids @
     (case store_get idf s k of
        None \<Rightarrow> []
      | Some r \<Rightarrow> if P r then [setOrder (int (length ids)) r] else [])"
  by (simp add: reorderUpdates_def enumerate_append_eq map_filter_def split: option.splits)

lemma reorderUpdates_Nil [simp]: "reorderUpdates idf P setOrder s [] = []"
  by (simp add: reorderUpdates_def map_filter_def)

lemma reorderUpdates_set:
  assumes "u \<in> set (reorderUpdates idf P setOrder s ids)"
  shows "\<exists>i r. i < length ids \<and> store_get idf s (ids ! i) = Some r \<and> P r \<and> u = setOrder (int i) r"
  using assms
proof (induction ids rule: rev_induct)
  case Nil
  then show ?case by simp
next
  case (snoc k ids)
  show ?case
  proof (cases "u \<in> set (reorderUpdates idf P setOrder s ids)")
    case True
    from snoc.IH [OF this] obtain i r where
      "i < length ids" "store_get idf s (ids ! i) = Some r" "P r" "u = setOrder (int i) r"
      by auto
    then show ?thesis
      by (intro exI [of _ i] exI [of _ r]) (simp add: nth_append)
  next
    case False
    with snoc.prems have "\<exists>r. store_get idf s k = Some r \<and> P r \<and>
        u = setOrder (int (length ids)) r"
      by (cases "store_get idf s k") (auto simp: reorderUpdates_snoc split: if_splits)
    then obtain r where "store_get idf s k = Some r" "P r" "u = setOrder (int (length ids)) r"
      by auto
    then show ?thesis
      by (intro exI [of _ "length ids"] exI [of _ r]) simp
  qed
qed

lemma latest_untouched:
  assumes wf: "wfStore idf s" and r: "r \<in> set (records s)"
    and id: "\<And>i x. idf (setOrder i x) = idf x"
    and un: "\<not> P r \<or> idf r \<notin> set ids"
  shows "latest idf (reorderUpdates idf P setOrder s ids) r = r"
proof -
  have "find (\<lambda>u. idf u = idf r) (rev (reorderUpdates idf P setOrder s ids)) = None"
  proof (rule ccontr)
    assume "find (\<lambda>u. idf u = idf r) (rev (reorderUpdates idf P setOrder s ids)) \<noteq> None"
    then obtain u where u: "u \<in> set (reorderUpdates idf P setOrder s ids)" "idf u = idf r"
      by (auto simp: find_None_iff)
    from reorderUpdates_set [OF u(1)] obtain i x where
      x: "i < length ids" "store_get idf s (ids ! i) = Some x" "P x" "u = setOrder (int i) x"
      by auto
    from store_get_Some [OF x(2)] have "x \<in> set (records s)" "idf x = ids ! i" by auto
    moreover from x(4) u(2) id have "idf x = idf r" by simp
    ultimately have "x = r"
      using store_get_member [OF wf r] x(2) by simp
    with x(1,3) \<open>idf x = ids ! i\<close> un show False by auto
  qed
  then show ?thesis by (simp add: latest_def)
qed

lemma latest_listed:
  assumes wf: "wfStore idf s" and r: "r \<in> set (records s)"
    and id: "\<And>i x. idf (setOrder i x) = idf x"
    and P: "P r"
  shows "i < length ids \<Longrightarrow> ids ! i = idf r \<Longrightarrow> idf r \<notin> set (drop (Suc i) ids) \<Longrightarrow>
         latest idf (reorderUpdates idf P setOrder s ids) r = setOrder (int i) r"
proof (induction ids rule: rev_induct)
  case Nil
  then show ?case by simp
next
  case (snoc k ids)
  show ?case
  proof (cases "i = length ids")
    case True
    with snoc.prems have "k = idf r" by simp
    then have "store_get idf s k = Some r"
      using store_get_member [OF wf r] by simp
    with P True id show ?thesis
      by (simp add: reorderUpdates_snoc latest_snoc)
  next
    case False
    with snoc.prems have i: "i < length ids" "ids ! i = idf r"
      by (auto simp: nth_append)
    from snoc.prems(3) i(1) have k: "k \<noteq> idf r" "idf r \<notin> set (drop (Suc i) ids)"
      by auto
    have "latest idf (reorderUpdates idf P setOrder s (ids @ [k])) r =
          latest idf (reorderUpdates idf P setOrder s ids) r"
      using k(1) id
      by (auto simp: reorderUpdates_snoc latest_snoc split: option.splits dest: store_get_Some)
    with snoc.IH [OF i k(2)] show ?thesis by simp
  qed
qed

lemma wfStore_cong:
  assumes "map idf (records s') = map idf (records s)" "keyGen s' = keyGen s"
  shows "wfStore idf s' = wfStore idf s"
proof -
  have "(\<forall>r\<in>set xs. idf r < k) = (\<forall>i\<in>set (map idf xs). i < k)" for k xs
    by simp
  then show ?thesis
    unfolding wfStore_def list_all_iff by (simp only: assms)
qed

lemma find_SomeD: "find Q xs = Some x \<Longrightarrow> x \<in> set xs \<and> Q x"
  by (induction xs) (auto split: if_splits)

lemma latest_scope:
  assumes wf: "wfStore idf s" and r: "r \<in> set (records s)"
    and id: "\<And>i x. idf (setOrder i x) = idf x"
    and sc: "\<And>i x. P (setOrder i x) = P x"
  shows "P (latest idf (reorderUpdates idf P setOrder s ids) r) = P r"
proof (cases "P r")
  case False
  then have "\<not> P r \<or> idf r \<notin> set ids" by simp
  with wf r id have "latest idf (reorderUpdates idf P setOrder s ids) r = r"
    by (rule latest_untouched)
  then show ?thesis by (simp only:)
next
  case True
  show ?thesis
  proof (cases "find (\<lambda>u. idf u = idf r) (rev (reorderUpdates idf P setOrder s ids))")
    case None
    then have "latest idf (reorderUpdates idf P setOrder s ids) r = r"
      by (simp add: latest_def)
    then show ?thesis by (simp only:)
  next
    case (Some u)
    then have "u \<in> set (reorderUpdates idf P setOrder s ids)"
      by (auto dest: find_SomeD)
    from reorderUpdates_set [OF this] obtain i x where "P x" "u = setOrder (int i) x"
      by blast
    then have "P u" by (simp only: sc)
    moreover from Some have "latest idf (reorderUpdates idf P setOrder s ids) r = u"
      by (simp add: latest_def)
    ultimately show ?thesis using True by (simp only:)
  qed
qed

lemma nth_notin_drop:
  "distinct xs \<Longrightarrow> i < length xs \<Longrightarrow> xs ! i \<notin> set (drop (Suc i) xs)"
  by (metis Cons_nth_drop_Suc distinct.simps(2) distinct_drop)

lemma listing_permutation:
  assumes ids: "distinct ids" and dy: "distinct (map idf ys)" and so: "sorted (map ordf ys)"
    and pos: "\<forall>y\<in>set ys. \<exists>i<length ids. ordf y = int i \<and> idf y = ids ! i"
    and same: "set (map idf ys) = set ids"
  shows "map idf ys = ids"
proof -
  let ?zs = "map (\<lambda>y. nat (ordf y)) ys"
  have len: "length ys = length ids"
    using distinct_card [OF ids] distinct_card [OF dy] same by simp
  have at: "\<And>y. y \<in> set ys \<Longrightarrow> nat (ordf y) < length ids \<and> idf y = ids ! nat (ordf y)"
    using pos by fastforce
  have inj: "inj_on (\<lambda>y. nat (ordf y)) (set ys)"
  proof (rule inj_onI)
    fix a b assume ab: "a \<in> set ys" "b \<in> set ys" "nat (ordf a) = nat (ordf b)"
    then have "idf a = idf b" using at by metis
    with dy ab show "a = b" by (meson distinct_map inj_onD)
  qed
  have dz: "distinct ?zs"
    using dy inj by (simp add: distinct_map)
  have sz: "sorted ?zs"
    using so by (simp add: sorted_map sorted_wrt_mono_rel [of ys "\<lambda>a b. ordf a \<le> ordf b"])
  have "set ?zs \<subseteq> {0..<length ids}"
    using at by auto
  moreover have "card (set ?zs) = card {0..<length ids}"
    using distinct_card [OF dz] len by simp
  ultimately have "set ?zs = {0..<length ids}"
    by (intro card_subset_eq) auto
  then have zs: "?zs = [0..<length ids]"
    using sz dz by (intro sorted_distinct_set_unique) auto
  have "map idf ys = map ((!) ids) ?zs"
    using at by (simp add: comp_def)
  also have "\<dots> = ids"
    unfolding zs by (rule map_nth)
  finally show ?thesis .
qed


lemma reorder_generic:
  fixes idf :: "'a \<Rightarrow> nat" and ordf :: "'a \<Rightarrow> int" and s :: "'a objectStore"
    and ids :: "nat list" and P :: "'a \<Rightarrow> bool" and setOrder :: "int \<Rightarrow> 'a \<Rightarrow> 'a"
  assumes wf: "wfStore idf s"
    and id: "\<And>i x. idf (setOrder i x) = idf x"
    and sc: "\<And>i x. P (setOrder i x) = P x"
    and ord: "\<And>i x. ordf (setOrder i x) = i"
  defines "s' \<equiv> fold (store_put idf) (reorderUpdates idf P setOrder s ids) s"
  shows "wfStore idf s'"
    and "reorderOutcome idf setOrder ids (byOrder ordf (filter P (store_getAll idf s)))
           (byOrder ordf (filter P (store_getAll idf s')))"
    and "(\<And>r. Q r \<Longrightarrow> \<not> P r) \<Longrightarrow> filter Q (records s') = filter Q (records s)"
proof -
  let ?U = "reorderUpdates idf P setOrder s ids"
  let ?g = "latest idf ?U"
  let ?X = "filter P (records s)"
  have "\<forall>u\<in>set ?U. \<exists>r\<in>set (records s). idf r = idf u"
  proof
    fix u assume "u \<in> set ?U"
    from reorderUpdates_set [OF this] obtain i r where
      "store_get idf s (ids ! i) = Some r" "u = setOrder (int i) r" by auto
    with id show "\<exists>r\<in>set (records s). idf r = idf u"
      by (auto dest: store_get_Some)
  qed
  from fold_store_put [OF this] have s': "s' = s\<lparr>records := map ?g (records s)\<rparr>"
    by (simp add: s'_def)
  have ids': "map idf (records s') = map idf (records s)"
    by (simp add: s' comp_def)
  have "keyGen s' = keyGen s"
    by (simp add: s')
  with ids' have "wfStore idf s' = wfStore idf s"
    by (rule wfStore_cong)
  with wf show wf': "wfStore idf s'"
    by simp
  have untouched: "\<And>r. r \<in> set (records s) \<Longrightarrow> \<not> P r \<or> idf r \<notin> set ids \<Longrightarrow> ?g r = r"
    using wf _ id by (rule latest_untouched)
  have listed: "\<And>r i. r \<in> set (records s) \<Longrightarrow> P r \<Longrightarrow> i < length ids \<Longrightarrow> ids ! i = idf r \<Longrightarrow>
      idf r \<notin> set (drop (Suc i) ids) \<Longrightarrow> ?g r = setOrder (int i) r"
    using wf _ id by (rule latest_listed)
  have scope: "\<And>r. r \<in> set (records s) \<Longrightarrow> P (?g r) = P r"
    using wf _ id sc by (rule latest_scope)
  have "filter (P \<circ> ?g) (records s) = ?X"
    by (rule filter_cong [OF refl]) (simp add: scope)
  then have gP: "filter P (map ?g (records s)) = map ?g ?X"
    by (simp only: filter_map)
  have before: "byOrder ordf (filter P (store_getAll idf s)) = sort_key ordf ?X"
    by (simp add: byOrder_eq wfStore_getAll [OF wf])
  have "store_getAll idf s' = map ?g (records s)"
    using wfStore_getAll [OF wf'] by (simp add: s')
  then have after: "byOrder ordf (filter P (store_getAll idf s')) = sort_key ordf (map ?g ?X)"
    by (simp only: byOrder_eq gP)
  have p1: "\<forall>i<length ids. ids ! i \<notin> set (drop (Suc i) ids) \<longrightarrow>
          (\<forall>r\<in>set ?X. idf r = ids ! i \<longrightarrow> setOrder (int i) r \<in> set (map ?g ?X))"
  proof (intro allI impI ballI)
    fix i r assume i: "i < length ids" "ids ! i \<notin> set (drop (Suc i) ids)"
      and r: "r \<in> set ?X" "idf r = ids ! i"
    then have "?g r = setOrder (int i) r"
      using listed [of r i] by simp
    with r(1) show "setOrder (int i) r \<in> set (map ?g ?X)"
      by (metis image_eqI set_map)
  qed
  have p2: "\<forall>r\<in>set ?X. idf r \<notin> set ids \<longrightarrow> r \<in> set (map ?g ?X)"
  proof (intro impI ballI)
    fix r assume r: "r \<in> set ?X" "idf r \<notin> set ids"
    then have "?g r = r"
      using untouched [of r] by simp
    with r(1) show "r \<in> set (map ?g ?X)"
      by (metis image_eqI set_map)
  qed
  have p3: "map idf (map ?g ?X) = map idf ?X"
    by (simp add: comp_def)
  have ms: "mset (map idf (sort_key ordf ys)) = mset (map idf ys)" for ys :: "'a list"
    by simp
  from ms [of "map ?g ?X"] have p3m: "mset (map idf (sort_key ordf (map ?g ?X))) = mset (map idf ?X)"
    by (simp only: p3)
  note p3b = ms [of ?X]
  have p5: "filter (\<lambda>r. idf r \<notin> set ids) (map ?g ?X) = filter (\<lambda>r. idf r \<notin> set ids) ?X"
  proof -
    have "filter (\<lambda>r. idf r \<notin> set ids) (map ?g ?X) = map ?g (filter (\<lambda>r. idf r \<notin> set ids) ?X)"
      by (simp add: filter_map comp_def)
    also have "\<dots> = filter (\<lambda>r. idf r \<notin> set ids) ?X"
      by (rule map_idI) (simp add: untouched)
    finally show ?thesis .
  qed
  have p4: "distinct ids \<and> set ids = set (map idf ?X) \<longrightarrow>
            map idf (sort_key ordf (map ?g ?X)) = ids"
  proof
    assume a: "distinct ids \<and> set ids = set (map idf ?X)"
    have dX: "distinct (map idf ?X)"
      using wfStore_distinct [OF wf] by (simp add: distinct_map_filter)
    show "map idf (sort_key ordf (map ?g ?X)) = ids"
    proof (rule listing_permutation)
      show "distinct ids" using a by simp
      show "distinct (map idf (sort_key ordf (map ?g ?X)))"
        using dX p3m by (metis mset_eq_imp_distinct_iff)
      show "sorted (map ordf (sort_key ordf (map ?g ?X)))"
        by (rule sorted_sort_key)
      show "set (map idf (sort_key ordf (map ?g ?X))) = set ids"
        using a by (simp add: image_image)
      show "\<forall>y\<in>set (sort_key ordf (map ?g ?X)). \<exists>i<length ids. ordf y = int i \<and> idf y = ids ! i"
      proof
        fix y assume "y \<in> set (sort_key ordf (map ?g ?X))"
        then obtain r where r: "r \<in> set ?X" "y = ?g r" by auto
        with a have "idf r \<in> set ids" by auto
        then obtain i where i: "i < length ids" "ids ! i = idf r"
          by (auto simp: in_set_conv_nth)
        with a have "idf r \<notin> set (drop (Suc i) ids)"
          using nth_notin_drop [of ids i] by simp
        with i r have "y = setOrder (int i) r"
          using listed [of r i] by simp
        with i id ord show "\<exists>i<length ids. ordf y = int i \<and> idf y = ids ! i"
          by auto
      qed
    qed
  qed
  show "reorderOutcome idf setOrder ids (byOrder ordf (filter P (store_getAll idf s)))
           (byOrder ordf (filter P (store_getAll idf s')))"
    unfolding before after reorderOutcome_def
    using p1 p2 p3m p3b p4 p5 by (simp add: filter_sort del: mset_map)
  show "filter Q (records s') = filter Q (records s)" if Q: "\<And>r. Q r \<Longrightarrow> \<not> P r"
  proof -
    have "\<And>r. r \<in> set (records s) \<Longrightarrow> Q (?g r) = Q r \<and> (Q r \<longrightarrow> ?g r = r)"
    proof -
      fix r assume r: "r \<in> set (records s)"
      show "Q (?g r) = Q r \<and> (Q r \<longrightarrow> ?g r = r)"
      proof (cases "P r")
        case True
        then have "P (?g r)" using scope [OF r] by simp
        with True Q show ?thesis by blast
      next
        case False
        then show ?thesis using untouched [OF r] by simp
      qed
    qed
    then have g: "\<And>r. r \<in> set (records s) \<Longrightarrow> Q (?g r) = Q r"
      "\<And>r. r \<in> set (records s) \<Longrightarrow> Q r \<Longrightarrow> ?g r = r"
      by blast+
    have "filter (Q \<circ> ?g) (records s) = filter Q (records s)"
      by (rule filter_cong) (simp_all add: g(1))
    moreover have "map ?g (filter Q (records s)) = filter Q (records s)"
      by (rule map_idI) (simp add: g(2))
    ultimately show ?thesis by (simp add: s' filter_map)
  qed
qed

lemma reorderStore_ok:
  "\<not> F (ReqGet nm) \<Longrightarrow> \<not> F (ReqPut nm) \<Longrightarrow>
   reorderStore F nm idf P setOrder ids s =
     (Inr (replicate (length ids) ()),
      fold (store_put idf) (reorderUpdates idf P setOrder s ids) s)"
  by (simp add: reorderStore_def)

lemma reorderAlbums_outcome:
  assumes wf: "wfDb db" and F: "\<not> F (ReqGet Albums)" "\<not> F (ReqPut Albums)"
  shows "\<exists>db'. reorderAlbums F ids db = (Inr (replicate (length ids) ()), db') \<and> wfDb db' \<and>
           reorderOutcome album_id (\<lambda>i a. a\<lparr>album_order := i\<rparr>) ids
             (albumListing db) (albumListing db') \<and>
           photos db' = photos db \<and> essays db' = essays db \<and> videos db' = videos db \<and>
           assets db' = assets db"
proof -
  let ?s' = "fold (store_put album_id)
               (reorderUpdates album_id (\<lambda>a. True) (\<lambda>i a. a\<lparr>album_order := i\<rparr>) (albums db) ids)
               (albums db)"
  have w: "wfStore album_id (albums db)" using wf by (simp add: wfDb_def)
  have "wfStore album_id ?s'"
    by (rule reorder_generic(1) [where ordf = album_order, OF w]) simp_all
  moreover have "reorderOutcome album_id (\<lambda>i a. a\<lparr>album_order := i\<rparr>) ids
      (byOrder album_order (filter (\<lambda>a. True) (store_getAll album_id (albums db))))
      (byOrder album_order (filter (\<lambda>a. True) (store_getAll album_id ?s')))"
    by (rule reorder_generic(2) [OF w]) simp_all
  ultimately show ?thesis
    using wf F by (simp add: reorderAlbums_def reorderStore_ok albumListing_def wfDb_def)
qed

lemma reorderEssays_outcome:
  assumes wf: "wfDb db" and F: "\<not> F (ReqGet Essays)" "\<not> F (ReqPut Essays)"
  shows "\<exists>db'. reorderEssays F ids db = (Inr (replicate (length ids) ()), db') \<and> wfDb db' \<and>
           reorderOutcome essay_id (\<lambda>i e. e\<lparr>essay_order := i\<rparr>) ids
             (essayListing db) (essayListing db') \<and>
           albums db' = albums db \<and> photos db' = photos db \<and> videos db' = videos db \<and>
           assets db' = assets db"
proof -
  let ?s' = "fold (store_put essay_id)
               (reorderUpdates essay_id (\<lambda>a. True) (\<lambda>i e. e\<lparr>essay_order := i\<rparr>) (essays db) ids)
               (essays db)"
  have w: "wfStore essay_id (essays db)" using wf by (simp add: wfDb_def)
  have "wfStore essay_id ?s'"
    by (rule reorder_generic(1) [where ordf = essay_order, OF w]) simp_all
  moreover have "reorderOutcome essay_id (\<lambda>i e. e\<lparr>essay_order := i\<rparr>) ids
      (byOrder essay_order (filter (\<lambda>a. True) (store_getAll essay_id (essays db))))
      (byOrder essay_order (filter (\<lambda>a. True) (store_getAll essay_id ?s')))"
    by (rule reorder_generic(2) [OF w]) simp_all
  ultimately show ?thesis
    using wf F by (simp add: reorderEssays_def reorderStore_ok essayListing_def wfDb_def)
qed

lemma reorderVideos_outcome:
  assumes wf: "wfDb db" and F: "\<not> F (ReqGet Videos)" "\<not> F (ReqPut Videos)"
  shows "\<exists>db'. reorderVideos F ids db = (Inr (replicate (length ids) ()), db') \<and> wfDb db' \<and>
           reorderOutcome video_id (\<lambda>i v. v\<lparr>video_order := i\<rparr>) ids
             (videoListing db) (videoListing db') \<and>
           albums db' = albums db \<and> photos db' = photos db \<and> essays db' = essays db \<and>
           assets db' = assets db"
proof -
  let ?s' = "fold (store_put video_id)
               (reorderUpdates video_id (\<lambda>a. True) (\<lambda>i v. v\<lparr>video_order := i\<rparr>) (videos db) ids)
               (videos db)"
  have w: "wfStore video_id (videos db)" using wf by (simp add: wfDb_def)
  have "wfStore video_id ?s'"
    by (rule reorder_generic(1) [where ordf = video_order, OF w]) simp_all
  moreover have "reorderOutcome video_id (\<lambda>i v. v\<lparr>video_order := i\<rparr>) ids
      (byOrder video_order (filter (\<lambda>a. True) (store_getAll video_id (videos db))))
      (byOrder video_order (filter (\<lambda>a. True) (store_getAll video_id ?s')))"
    by (rule reorder_generic(2) [OF w]) simp_all
  ultimately show ?thesis
    using wf F by (simp add: reorderVideos_def reorderStore_ok videoListing_def wfDb_def)
qed

lemma reorderPhotos_outcome:
  assumes wf: "wfDb db" and F: "\<not> F (ReqGet Photos)" "\<not> F (ReqPut Photos)"
  shows "\<exists>db'. reorderPhotos F albumId ids db = (Inr (replicate (length ids) ()), db') \<and> wfDb db' \<and>
           reorderOutcome photo_id (\<lambda>i p. p\<lparr>photo_order := i\<rparr>) ids
             (photoListing albumId db) (photoListing albumId db') \<and>
           (\<forall>other. other \<noteq> albumId \<longrightarrow> photoListing other db' = photoListing other db) \<and>
           albums db' = albums db \<and> essays db' = essays db \<and> videos db' = videos db \<and>
           assets db' = assets db"
proof -
  let ?P = "\<lambda>p. photo_albumId p = albumId"
  let ?s' = "fold (store_put photo_id)
               (reorderUpdates photo_id ?P (\<lambda>i p. p\<lparr>photo_order := i\<rparr>) (photos db) ids)
               (photos db)"
  have w: "wfStore photo_id (photos db)" using wf by (simp add: wfDb_def)
  have w': "wfStore photo_id ?s'"
    by (rule reorder_generic(1) [where ordf = photo_order, OF w]) simp_all
  have out: "reorderOutcome photo_id (\<lambda>i p. p\<lparr>photo_order := i\<rparr>) ids
      (byOrder photo_order (filter ?P (store_getAll photo_id (photos db))))
      (byOrder photo_order (filter ?P (store_getAll photo_id ?s')))"
    by (rule reorder_generic(2) [OF w]) simp_all
  have others: "photoListing other (db\<lparr>photos := ?s'\<rparr>) = photoListing other db"
    if "other \<noteq> albumId" for other
  proof -
    have "filter (\<lambda>p. photo_albumId p = other) (records ?s') =
          filter (\<lambda>p. photo_albumId p = other) (records (photos db))"
      by (rule reorder_generic(3) [where ordf = photo_order, OF w]) (use that in simp_all)
    then show ?thesis
      by (simp add: photoListing_def wfStore_getAll [OF w] wfStore_getAll [OF w'])
  qed
  show ?thesis
    using wf F w' out others
    by (simp add: reorderPhotos_def reorderStore_ok photoListing_def wfDb_def)
qed

text \<open>
  C4. In a well-formed state, a bulk reorder whose requests the storage engine serves
  resolves without error for every list of ids, and between the listing before and the
  listing after: a record of the scope whose id is listed gets as order the 0-based
  position of the id (of its last occurrence, should the list repeat it); ids without a
  record are ignored; records not listed are unchanged and keep their order among
  themselves; a list that is a permutation of the ids of the scope becomes the order of
  the listing. For photos the scope is the given album: a listed id of a photo of
  another album is ignored and the listings of all other albums are unchanged. No other
  collection is touched.
\<close>

theorem reorder_rewrites_positions:
  "wfDb db \<Longrightarrow>
   (\<not> F (ReqGet Albums) \<and> \<not> F (ReqPut Albums) \<longrightarrow>
      (\<exists>db'. reorderAlbums F ids db = (Inr (replicate (length ids) ()), db') \<and> wfDb db' \<and>
           reorderOutcome album_id (\<lambda>i a. a\<lparr>album_order := i\<rparr>) ids
             (albumListing db) (albumListing db') \<and>
           photos db' = photos db \<and> essays db' = essays db \<and> videos db' = videos db \<and>
           assets db' = assets db)) \<and>
   (\<not> F (ReqGet Photos) \<and> \<not> F (ReqPut Photos) \<longrightarrow>
      (\<exists>db'. reorderPhotos F albumId ids db = (Inr (replicate (length ids) ()), db') \<and> wfDb db' \<and>
           reorderOutcome photo_id (\<lambda>i p. p\<lparr>photo_order := i\<rparr>) ids
             (photoListing albumId db) (photoListing albumId db') \<and>
           (\<forall>other. other \<noteq> albumId \<longrightarrow> photoListing other db' = photoListing other db) \<and>
           albums db' = albums db \<and> essays db' = essays db \<and> videos db' = videos db \<and>
           assets db' = assets db)) \<and>
   (\<not> F (ReqGet Essays) \<and> \<not> F (ReqPut Essays) \<longrightarrow>
      (\<exists>db'. reorderEssays F ids db = (Inr (replicate (length ids) ()), db') \<and> wfDb db' \<and>
           reorderOutcome essay_id (\<lambda>i e. e\<lparr>essay_order := i\<rparr>) ids
             (essayListing db) (essayListing db') \<and>
           albums db' = albums db \<and> photos db' = photos db \<and> videos db' = videos db \<and>
           assets db' = assets db)) \<and>
   (\<not> F (ReqGet Videos) \<and> \<not> F (ReqPut Videos) \<longrightarrow>
      (\<exists>db'. reorderVideos F ids db = (Inr (replicate (length ids) ()), db') \<and> wfDb db' \<and>
           reorderOutcome video_id (\<lambda>i v. v\<lparr>video_order := i\<rparr>) ids
             (videoListing db) (videoListing db') \<and>
           albums db' = albums db \<and> photos db' = photos db \<and> essays db' = essays db \<and>
           assets db' = assets db))"
  using reorderAlbums_outcome [of db F ids] reorderPhotos_outcome [of db F albumId ids]
        reorderEssays_outcome [of db F ids] reorderVideos_outcome [of db F ids]
  by blast

theorem reorder_rewrites_positions_witness:
  "wfDb sampleDb \<and>
   \<not> no_faults (ReqGet Albums) \<and> \<not> no_faults (ReqPut Albums) \<and>
   \<not> no_faults (ReqGet Photos) \<and> \<not> no_faults (ReqPut Photos) \<and>
   \<not> no_faults (ReqGet Essays) \<and> \<not> no_faults (ReqPut Essays) \<and>
   \<not> no_faults (ReqGet Videos) \<and> \<not> no_faults (ReqPut Videos) \<and>
   map album_id (albumListing sampleDb) = [2, 1] \<and>
   (\<exists>db'. reorderAlbums no_faults [1, 2] sampleDb = (Inr [(), ()], db') \<and>
         map album_id (albumListing db') = [1, 2]) \<and>
   (\<exists>db'. reorderPhotos no_faults 1 [1, 2] sampleDb = (Inr [(), ()], db') \<and>
         photoListing 2 db' = photoListing 2 sampleDb \<and>
         filter (\<lambda>p. photo_id p \<notin> set [1, 2]) (photoListing 1 db') =
         filter (\<lambda>p. photo_id p \<notin> set [1, 2]) (photoListing 1 sampleDb))"
proof -
  have h: "wfDb sampleDb" by (rule wfDb_sampleDb)
  have f: "\<not> no_faults r" for r by (simp add: no_faults_def)
  have l: "map album_id (albumListing sampleDb) = [2, 1]"
    by (simp add: albumListing_def byOrder_eq store_getAll_def sampleDb_def)
  from reorder_rewrites_positions [OF h, of no_faults "[1, 2]" 1] f
  obtain dbA dbP where
    A: "reorderAlbums no_faults [1, 2] sampleDb = (Inr (replicate (length [1, 2 :: nat]) ()), dbA)"
       "reorderOutcome album_id (\<lambda>i a. a\<lparr>album_order := i\<rparr>) [1, 2]
          (albumListing sampleDb) (albumListing dbA)" and
    P: "reorderPhotos no_faults 1 [1, 2] sampleDb = (Inr (replicate (length [1, 2 :: nat]) ()), dbP)"
       "reorderOutcome photo_id (\<lambda>i p. p\<lparr>photo_order := i\<rparr>) [1, 2]
          (photoListing 1 sampleDb) (photoListing 1 dbP)"
       "\<forall>other. other \<noteq> 1 \<longrightarrow> photoListing other dbP = photoListing other sampleDb"
    by blast
  from A(2) l have "map album_id (albumListing dbA) = [1, 2]"
    by (auto simp: reorderOutcome_def)
  moreover from P(3) have "photoListing 2 dbP = photoListing 2 sampleDb"
    by simp
  moreover from P(2) have "filter (\<lambda>p. photo_id p \<notin> set [1, 2]) (photoListing 1 dbP) =
         filter (\<lambda>p. photo_id p \<notin> set [1, 2]) (photoListing 1 sampleDb)"
    by (simp add: reorderOutcome_def)
  ultimately show ?thesis
    using h f l A(1) P(1) by (simp add: numeral_2_eq_2)
qed


section \<open>Cascading delete\<close>

lemma deleteAlbum_photos_Inr:
  "deleteAlbum_photos F ps db = (Inr u, db') \<Longrightarrow>
   db' = db\<lparr>photos := (photos db)\<lparr>records :=
            filter (\<lambda>p. photo_id p \<notin> photo_id ` set ps) (records (photos db))\<rparr>\<rparr>"
proof (induction ps arbitrary: db)
  case Nil
  then show ?case by simp
next
  case (Cons p ps)
  from Cons.prems have nf: "\<not> F (ReqDelete Photos (photo_id p))"
    by (auto simp: removePhoto_def split: if_splits)
  let ?db1 = "db\<lparr>photos := store_delete photo_id (photo_id p) (photos db)\<rparr>"
  from Cons.prems nf have "deleteAlbum_photos F ps ?db1 = (Inr u, db')"
    by (simp add: removePhoto_def)
  from Cons.IH [OF this] show ?case
    by (simp add: store_delete_def conj_commute)
qed

lemma deleteAlbum_photos_albums:
  "albums (snd (deleteAlbum_photos F ps db)) = albums db"
  by (induction ps arbitrary: db) (auto simp: removePhoto_def split: prod.splits sum.splits)

lemma deleteAlbum_photos_no_faults:
  "deleteAlbum_photos no_faults ps db =
     (Inr (), db\<lparr>photos := (photos db)\<lparr>records :=
            filter (\<lambda>p. photo_id p \<notin> photo_id ` set ps) (records (photos db))\<rparr>\<rparr>)"
proof -
  have "\<exists>db'. deleteAlbum_photos no_faults ps db = (Inr (), db')"
    by (induction ps arbitrary: db) (simp_all add: removePhoto_def no_faults_def)
  then obtain db' where d: "deleteAlbum_photos no_faults ps db = (Inr (), db')" by blast
  from deleteAlbum_photos_Inr [OF d] d show ?thesis by simp
qed

lemma deleteAlbum_rejects: "\<exists>e. fst (deleteAlbum F ident db) = Inl e"
  by (simp add: deleteAlbum_def split: sum.splits prod.splits)

lemma deleteAlbum_albums: "albums (snd (deleteAlbum F ident db)) = albums db"
proof -
  have "albums (snd (deleteAlbum_photos F (photoListing ident db) db)) = albums db"
    by (rule deleteAlbum_photos_albums)
  then show ?thesis
    by (auto simp: deleteAlbum_def getPhotosByAlbum_def split: prod.splits sum.splits)
qed

lemma deleteAlbum_no_faults:
  "deleteAlbum no_faults ident db =
     (Inl TransactionInactive,
      db\<lparr>photos := (photos db)\<lparr>records :=
            filter (\<lambda>p. photo_id p \<notin> photo_id ` set (photoListing ident db))
                   (records (photos db))\<rparr>\<rparr>)"
proof -
  have "getPhotosByAlbum no_faults ident db = Inr (photoListing ident db)"
    by (simp add: getPhotosByAlbum_def no_faults_def)
  then show ?thesis
    by (simp add: deleteAlbum_def deleteAlbum_photos_no_faults)
qed

text \<open>
  C6. \<open>deleteAlbum\<close> never resolves: whatever the storage engine does and whatever the
  state, it rejects, and the albums store is as it was. When the engine serves every
  request, the child photos are deleted, the call rejects with \<open>TransactionInactive\<close> and
  the album is still in the listing. On the sample state: the photos 1 and 3 of album 1
  are gone and both albums are still listed; when the engine fails the deletion of photo 3,
  the call rejects with that request's error after photo 1 was deleted.
\<close>

theorem deleteAlbum_never_resolves:
  "(\<exists>e. fst (deleteAlbum F ident db) = Inl e) \<and>
   albums (snd (deleteAlbum F ident db)) = albums db \<and>
   albumListing (snd (deleteAlbum F ident db)) = albumListing db \<and>
   deleteAlbum no_faults ident db =
     (Inl TransactionInactive,
      db\<lparr>photos := (photos db)\<lparr>records :=
            filter (\<lambda>p. photo_id p \<notin> photo_id ` set (photoListing ident db))
                   (records (photos db))\<rparr>\<rparr>) \<and>
   fst (deleteAlbum no_faults 1 sampleDb) = Inl TransactionInactive \<and>
   map photo_id (records (photos (snd (deleteAlbum no_faults 1 sampleDb)))) = [2] \<and>
   map album_id (albumListing (snd (deleteAlbum no_faults 1 sampleDb))) = [2, 1] \<and>
   fst (deleteAlbum (failDelete 3) 1 sampleDb) = Inl (RequestError (ReqDelete Photos 3)) \<and>
   map photo_id (records (photos (snd (deleteAlbum (failDelete 3) 1 sampleDb)))) = [2, 3]"
proof -
  have "deleteAlbum (failDelete 3) 1 sampleDb =
     (Inl (RequestError (ReqDelete Photos 3)),
      sampleDb\<lparr>photos := (photos sampleDb)\<lparr>records := tl (records (photos sampleDb))\<rparr>\<rparr>)"
    by (simp add: deleteAlbum_def getPhotosByAlbum_def photoListing_def byOrder_eq store_getAll_def
                  removePhoto_def store_delete_def failDelete_def sampleDb_def)
  moreover have "map photo_id (tl (records (photos sampleDb))) = [2, 3]"
    by (simp add: sampleDb_def)
  moreover
  have "deleteAlbum no_faults 1 sampleDb =
     (Inl TransactionInactive,
      sampleDb\<lparr>photos := (photos sampleDb)\<lparr>records := [records (photos sampleDb) ! 1]\<rparr>\<rparr>)"
    by (simp add: deleteAlbum_no_faults photoListing_def byOrder_eq store_getAll_def sampleDb_def)
  moreover have "map album_id (albumListing sampleDb) = [2, 1]"
    by (simp add: albumListing_def byOrder_eq store_getAll_def sampleDb_def)
  moreover have "map photo_id [records (photos sampleDb) ! 1] = [2]"
    by (simp add: sampleDb_def)
  ultimately show ?thesis
    using deleteAlbum_rejects [of F ident db] deleteAlbum_albums [of F ident db]
          deleteAlbum_no_faults [of ident db]
    by (simp add: albumListing_def)
qed

section \<open>Import: the version check and unparseable videos\<close>

text \<open>
  C2. A document whose version is missing or differs from the schema version of the store
  makes \<open>importAll\<close> reject with the incompatible-version error, and the database is the
  one it was given: the check is the first statement of the function.
\<close>

theorem importAll_version_check:
  "snap_version d = None \<or> snap_version d \<noteq> Some dbVersion \<Longrightarrow>
   importAll F now d db = (Inl IncompatibleVersion, db)"
  by (auto simp: importAll_def versionRejected_def)

theorem importAll_version_check_witness:
  "(snap_version futureSnapshot = None \<or> snap_version futureSnapshot \<noteq> Some dbVersion) \<and>
   importAll no_faults ''t'' futureSnapshot sampleDb = (Inl IncompatibleVersion, sampleDb) \<and>
   (snap_version unversionedSnapshot = None \<or> snap_version unversionedSnapshot \<noteq> Some dbVersion) \<and>
   importAll no_faults ''t'' unversionedSnapshot sampleDb = (Inl IncompatibleVersion, sampleDb)"
  using importAll_version_check [of futureSnapshot no_faults "''t''" sampleDb]
        importAll_version_check [of unversionedSnapshot no_faults "''t''" sampleDb]
  by (simp add: futureSnapshot_def unversionedSnapshot_def dbVersion_def)

text \<open>
  C8. With the current version, \<open>importAll\<close> calls \<open>addVideo\<close> for each video of the
  document with nothing to catch its rejection. On the document whose first video has a
  URL of neither provider, \<open>importAll\<close> rejects with the invalid-URL error after it has
  cleared the database, and the Vimeo video that follows is not imported.
\<close>

theorem importAll_stops_at_unparseable_video:
  "importAll no_faults ''2025-02-02T00:00:00.000Z'' unparseableSnapshot sampleDb =
     (Inl InvalidReference,
      \<lparr>assets = Map.empty, albums = \<lparr>records = [], keyGen = 3\<rparr>,
       photos = \<lparr>records = [], keyGen = 4\<rparr>, essays = \<lparr>records = [], keyGen = 2\<rparr>,
       videos = \<lparr>records = [], keyGen = 2\<rparr>\<rparr>)"
  by (simp add: importAll_def versionRejected_def dbVersion_def unparseableSnapshot_def
                clearAllData_def no_faults_def store_clear_def sampleDb_def getAllAlbums_def
                albumListing_def byOrder_eq store_getAll_def addVideo_def parse_other_example)

section \<open>Video creation\<close>





section \<open>The Remote Mirror Client\<close>













lemma nosync_reads:
  "\<not> syncEnabled m \<Longrightarrow> fb_getAsset C F now key m = (getAsset F key (localDb m), m)"
  "\<not> syncEnabled m \<Longrightarrow> fb_getAllAlbums C F m = map_sum id FromLocal (getAllAlbums F (localDb m))"
  "\<not> syncEnabled m \<Longrightarrow> fb_getAllEssays C F m = map_sum id FromLocal (getAllEssays F (localDb m))"
  "\<not> syncEnabled m \<Longrightarrow> fb_getAllVideos C F m = map_sum id FromLocal (getAllVideos F (localDb m))"
  by (simp_all add: fb_getAsset_def fb_getAllAlbums_def fb_getAllEssays_def fb_getAllVideos_def)

lemma nosync_createAlbum:
  "\<not> syncEnabled m \<Longrightarrow> fb_createAlbum C F now nowMs name m = onLocal (createAlbum F now name) m"
  by (simp add: fb_createAlbum_def onLocal_def split: prod.splits sum.splits)

lemma nosync_addEssay:
  "\<not> syncEnabled m \<Longrightarrow> fb_addEssay C F now nowMs file title m = onLocal (addEssay F now file title) m"
  by (simp add: fb_addEssay_def onLocal_def split: prod.splits sum.splits)

lemma nosync_addVideo:
  "\<not> syncEnabled m \<Longrightarrow> fb_addVideo C F now nowMs url m = onLocal (addVideo F now url) m"
  by (simp add: fb_addVideo_def onLocal_def split: prod.splits sum.splits)

lemma nosync_deleteAlbum:
  "\<not> syncEnabled m \<Longrightarrow> fb_deleteAlbum C F ident m = onLocal (deleteAlbum F ident) m"
  by (simp add: fb_deleteAlbum_def onLocal_def split: prod.splits sum.splits)

lemma nosync_deleteEssay:
  "\<not> syncEnabled m \<Longrightarrow> fb_deleteEssay C F ident m = onLocal (deleteEssay F ident) m"
  by (simp add: fb_deleteEssay_def onLocal_def split: prod.splits sum.splits)

lemma nosync_deleteVideo:
  "\<not> syncEnabled m \<Longrightarrow> fb_deleteVideo C F ident m = onLocal (deleteVideo F ident) m"
  by (simp add: fb_deleteVideo_def onLocal_def split: prod.splits sum.splits)

lemma nosync_importAll:
  "\<not> syncEnabled m \<Longrightarrow> fb_importAll C F now nowMs d m = onLocal (importAll F now d) m"
  by (simp add: fb_importAll_def onLocal_def split: prod.splits sum.splits)

lemma nosync_putAsset:
  "\<not> syncEnabled m \<Longrightarrow>
   fb_putAsset C F now key file m =
     onLocal (\<lambda>db. case putAsset F now key file db of (r, db') \<Rightarrow> (map_sum id (\<lambda>k. None) r, db')) m"
  by (simp add: fb_putAsset_def onLocal_def split: prod.splits sum.splits)

text \<open>
  C10, as the code has it. With sync disabled every read of the mirror is the read of
  the Local Store, and every write returns what the write of the Local Store returns,
  leaves the Local Store as that write leaves it and leaves the remote alone; except that
  \<open>putAsset\<close> resolves with \<open>undefined\<close> where the local \<open>putAsset\<close> resolves with the key.
\<close>

theorem mirror_without_sync_is_local:
  "\<not> syncEnabled m \<Longrightarrow>
   fb_getAsset C F now key m = (getAsset F key (localDb m), m) \<and>
   fb_getAllAlbums C F m = map_sum id FromLocal (getAllAlbums F (localDb m)) \<and>
   fb_getAllEssays C F m = map_sum id FromLocal (getAllEssays F (localDb m)) \<and>
   fb_getAllVideos C F m = map_sum id FromLocal (getAllVideos F (localDb m)) \<and>
   fb_getPhotosByAlbum F albumId m = getPhotosByAlbum F albumId (localDb m) \<and>
   fb_exportAll F now m = exportAll F now (localDb m) \<and>
   fb_parseVideoUrl url = parseVideoUrl url \<and>
   fb_createAlbum C F now nowMs name m = onLocal (createAlbum F now name) m \<and>
   fb_addPhoto F now albumId file m = onLocal (addPhoto F now albumId file) m \<and>
   fb_addEssay C F now nowMs file title m = onLocal (addEssay F now file title) m \<and>
   fb_addVideo C F now nowMs url m = onLocal (addVideo F now url) m \<and>
   fb_deleteAlbum C F ident m = onLocal (deleteAlbum F ident) m \<and>
   fb_deleteEssay C F ident m = onLocal (deleteEssay F ident) m \<and>
   fb_deleteVideo C F ident m = onLocal (deleteVideo F ident) m \<and>
   fb_removePhoto F ident m = onLocal (removePhoto F ident) m \<and>
   fb_renameAlbum F now ident name m = onLocal (renameAlbum F now ident name) m \<and>
   fb_renameEssay F now ident title m = onLocal (renameEssay F now ident title) m \<and>
   fb_reorderAlbums F ids m = onLocal (reorderAlbums F ids) m \<and>
   fb_reorderPhotos F albumId ids m = onLocal (reorderPhotos F albumId ids) m \<and>
   fb_reorderEssays F ids m = onLocal (reorderEssays F ids) m \<and>
   fb_reorderVideos F ids m = onLocal (reorderVideos F ids) m \<and>
   fb_importAll C F now nowMs d m = onLocal (importAll F now d) m \<and>
   fb_initializeDefaultVideos F now m = onLocal (initializeDefaultVideos F now) m \<and>
   fb_putAsset C F now key file m =
     onLocal (\<lambda>db. case putAsset F now key file db of (r, db') \<Rightarrow> (map_sum id (\<lambda>k. None) r, db')) m"
  by (simp only: nosync_reads nosync_createAlbum nosync_addEssay nosync_addVideo
                nosync_deleteAlbum nosync_deleteEssay nosync_deleteVideo nosync_importAll
                nosync_putAsset fb_getPhotosByAlbum_def fb_exportAll_def fb_parseVideoUrl_def
                fb_addPhoto_def fb_removePhoto_def fb_renameAlbum_def fb_renameEssay_def
                fb_reorderAlbums_def fb_reorderPhotos_def fb_reorderEssays_def
                fb_reorderVideos_def fb_initializeDefaultVideos_def simp_thms)

theorem mirror_without_sync_is_local_witness:
  "\<not> syncEnabled localOnlyMirror \<and>
   fb_getAllAlbums unreachableCloud no_faults localOnlyMirror =
     map_sum id FromLocal (getAllAlbums no_faults sampleDb) \<and>
   fb_getAsset unreachableCloud no_faults ''t'' ''headerLogo'' localOnlyMirror =
     (getAsset no_faults ''headerLogo'' sampleDb, localOnlyMirror) \<and>
   fb_createAlbum unreachableCloud no_faults ''t'' 1700000000000 ''Work'' localOnlyMirror =
     onLocal (createAlbum no_faults ''t'' ''Work'') localOnlyMirror"
  using mirror_without_sync_is_local [of localOnlyMirror unreachableCloud no_faults "''t''"
          "''headerLogo''" 1 "[]" 1700000000000 "''Work''"]
  by (simp add: localOnlyMirror_def)

theorem mirror_without_sync_putAsset_differs:
  "fst (fb_putAsset unreachableCloud no_faults ''2025-03-01T00:00:00.000Z'' ''favicon''
          (sampleBlob [0x00, 0x01] ''image/x-icon'') localOnlyMirror) = Inr None \<and>
   fst (putAsset no_faults ''2025-03-01T00:00:00.000Z'' ''favicon''
          (sampleBlob [0x00, 0x01] ''image/x-icon'') (localDb localOnlyMirror)) = Inr ''favicon''"
  by (simp add: fb_putAsset_def putAsset_def no_faults_def localOnlyMirror_def)


section \<open>The Blob Codec\<close>

lemma byte_bound: "unat (a :: byte) < 256"
proof -
  have "unat a < 2 ^ LENGTH(8)" by (rule unsigned_less)
  then show ?thesis by simp
qed

lemma sextets_bound: "s \<in> set (sextets bs) \<Longrightarrow> s < 64"
proof (induction bs arbitrary: s rule: sextets.induct)
  case (1 a b c rest)
  then show ?case
    using byte_bound [of a] byte_bound [of b] byte_bound [of c] by auto
next
  case (2 a b)
  then show ?case using byte_bound [of a] byte_bound [of b] by auto
next
  case (3 a)
  then show ?case using byte_bound [of a] by auto
next
  case 4
  then show ?case by simp
qed

lemma length_sextets_mod: "length (sextets bs) mod 4 \<noteq> Suc 0"
  by (induction bs rule: sextets.induct) (simp_all add: mod_Suc)

lemma decode_group1:
  assumes "b < 256"
  shows "(a div 4) * 4 + ((a mod 4) * 16 + b div 16) div 16 = (a::nat)"
proof -
  have "b div 16 < 16" using assms by simp
  then have "((a mod 4) * 16 + b div 16) div 16 = a mod 4" by simp
  then show ?thesis by simp
qed

lemma decode_group2:
  assumes "b < 256" "c < 256"
  shows "(((a mod 4) * 16 + b div 16) mod 16) * 16 + ((b mod 16) * 4 + c div 64) div 4 = (b::nat)"
proof -
  have "b div 16 < 16" "c div 64 < 4" using assms by simp_all
  then have "((a mod 4) * 16 + b div 16) mod 16 = b div 16"
    "((b mod 16) * 4 + c div 64) div 4 = b mod 16" by simp_all
  then show ?thesis by simp
qed

lemma decode_group3:
  assumes "c < 256"
  shows "(((b mod 16) * 4 + c div 64) mod 4) * 64 + c mod 64 = (c::nat)"
proof -
  have "c div 64 < 4" using assms by simp
  then have "((b mod 16) * 4 + c div 64) mod 4 = c div 64" by simp
  then show ?thesis by simp
qed

lemma char_of_unat_code [simp]: "charCodeAt (char_of (unat b)) = b"
proof -
  have "unat b mod 256 = unat b" using byte_bound [of b] by simp
  then show ?thesis by (simp add: charCodeAt_def)
qed

lemma decodeSextets_sextets:
  "decodeSextets (sextets bs) = map (\<lambda>b. char_of (unat b)) bs"
proof (induction bs rule: sextets.induct)
  case (1 a b c rest)
  then show ?case
    using decode_group1 [where a = "unat a" and b = "unat b", OF byte_bound]
          decode_group2 [where a = "unat a" and b = "unat b" and c = "unat c", OF byte_bound byte_bound]
          decode_group3 [where b = "unat b" and c = "unat c", OF byte_bound]
    by simp
next
  case (2 a b)
  show ?case
    using decode_group1 [where a = "unat a" and b = "unat b", OF byte_bound]
          decode_group2 [where a = "unat a" and b = "unat b" and c = 0, OF byte_bound]
    by simp
next
  case (3 a)
  then show ?case
    using decode_group1 [where a = "unat a" and b = 0] by simp
next
  case 4
  then show ?case by simp
qed

lemma indexOf_nth:
  "distinct xs \<Longrightarrow> n < length xs \<Longrightarrow> indexOf (xs ! n) xs = Some n"
proof (induction xs arbitrary: n)
  case Nil
  then show ?case by simp
next
  case (Cons x xs)
  then show ?case
    by (cases n) (auto simp: nth_Cons')
qed

lemma distinct_alphabet: "distinct base64Alphabet"
  by (simp add: base64Alphabet_def)

lemma length_alphabet: "length base64Alphabet = 64"
  by (simp add: base64Alphabet_def)

lemma b64index_b64char: "n < 64 \<Longrightarrow> b64index (b64char n) = Some n"
  by (simp add: b64index_def b64char_def indexOf_nth distinct_alphabet length_alphabet)

lemma those_map_Some: "(\<And>x. x \<in> set xs \<Longrightarrow> f x = Some (g x)) \<Longrightarrow> those (map f xs) = Some (map g xs)"
  by (induction xs) simp_all

lemma those_b64index:
  "those (map b64index (map b64char (sextets bs))) = Some (sextets bs)"
proof -
  have "those (map (b64index \<circ> b64char) (sextets bs)) = Some (map (\<lambda>n. n) (sextets bs))"
    by (rule those_map_Some) (simp add: b64index_b64char sextets_bound)
  then show ?thesis by simp
qed

lemma alphabet_plain:
  "c \<in> set base64Alphabet \<Longrightarrow> c \<noteq> CHR ''='' \<and> c \<noteq> CHR '','' \<and> \<not> asciiWhitespace c"
  by (auto simp: base64Alphabet_def asciiWhitespace_def)

lemma b64char_plain:
  "n < 64 \<Longrightarrow> b64char n \<noteq> CHR ''='' \<and> b64char n \<noteq> CHR '','' \<and> \<not> asciiWhitespace (b64char n)"
  by (rule alphabet_plain) (simp add: b64char_def length_alphabet)

lemma b64char_in_alphabet: "n < 64 \<Longrightarrow> b64char n \<in> set base64Alphabet"
  by (simp add: b64char_def length_alphabet)

lemma sextet_bounds:
  "unat (a::byte) div 4 < 64" "(unat (a::byte) mod 4) * 16 + unat (b::byte) div 16 < 64"
  "(unat (b::byte) mod 16) * 4 + unat (c::byte) div 64 < 64" "unat (c::byte) mod 64 < 64"
  "(unat (b::byte) mod 16) * 4 < 64" "(unat (a::byte) mod 4) * 16 < 64"
  using byte_bound [of a] byte_bound [of b] byte_bound [of c] by auto

lemma encoded_chars:
  "ch \<in> set (base64Encode bs) \<Longrightarrow> ch \<in> set base64Alphabet \<or> ch = CHR ''=''"
  by (induction bs rule: base64Encode.induct) (auto simp: b64char_in_alphabet sextet_bounds)

lemma encoded_no_whitespace:
  "filter (\<lambda>c. \<not> asciiWhitespace c) (base64Encode bs) = base64Encode bs"
proof -
  have "\<not> asciiWhitespace CHR ''=''" by (simp add: asciiWhitespace_def)
  then have "\<forall>c\<in>set (base64Encode bs). \<not> asciiWhitespace c"
    using encoded_chars alphabet_plain by blast
  then show ?thesis by simp
qed

lemma encoded_no_comma: "CHR '','' \<notin> set (base64Encode bs)"
  using encoded_chars [of "CHR '',''" bs] alphabet_plain [of "CHR '',''"] by auto

lemma length_encoded: "length (base64Encode bs) mod 4 = 0"
  by (induction bs rule: base64Encode.induct) simp_all

lemma encoded_empty_iff: "base64Encode bs = [] \<longleftrightarrow> bs = []"
  by (induction bs rule: base64Encode.induct) simp_all

lemma stripPadding_block:
  assumes "length blk = 4" "last blk \<noteq> CHR ''=''" "length E mod 4 = 0"
  shows "stripPadding (blk @ E) = blk @ stripPadding E"
proof (cases "E = []")
  case True
  from assms(1) obtain c1 c2 c3 c4 where blk: "blk = [c1, c2, c3, c4]"
    by (auto simp: length_Suc_conv numeral_eq_Suc)
  with assms(2) True show ?thesis
    by (simp add: stripPadding_def)
next
  case False
  then have "length E \<noteq> 0" by simp
  with assms(3) have "4 \<le> length E"
    by presburger
  with assms(1,3) show ?thesis
    by (simp add: stripPadding_def)
qed

lemma stripPadding_encoded:
  "stripPadding (base64Encode bs) = map b64char (sextets bs)"
proof (induction bs rule: base64Encode.induct)
  case (1 a b c rest)
  have "stripPadding ([b64char (unat a div 4), b64char ((unat a mod 4) * 16 + unat b div 16),
      b64char ((unat b mod 16) * 4 + unat c div 64), b64char (unat c mod 64)] @ base64Encode rest) =
      [b64char (unat a div 4), b64char ((unat a mod 4) * 16 + unat b div 16),
      b64char ((unat b mod 16) * 4 + unat c div 64), b64char (unat c mod 64)] @
      stripPadding (base64Encode rest)"
    by (rule stripPadding_block) (simp_all add: length_encoded b64char_plain sextet_bounds)
  with 1 show ?case by simp
next
  case (2 a b)
  have "b64char ((unat b mod 16) * 4) \<noteq> CHR ''=''"
    by (simp add: b64char_plain sextet_bounds)
  then show ?case by (simp add: stripPadding_def)
next
  case (3 a)
  then show ?case by (simp add: stripPadding_def)
next
  case 4
  then show ?case by (simp add: stripPadding_def)
qed

lemma atob_encoded: "atob (base64Encode bs) = Some (map (\<lambda>b. char_of (unat b)) bs)"
  by (simp add: atob_def encoded_no_whitespace stripPadding_encoded length_sextets_mod
                those_b64index decodeSextets_sextets del: map_map)

lemma base64ToBlob_encoded:
  "base64ToBlob (base64Encode bs) mime = Inr \<lparr>blob_bytes = bs, blob_type = newBlobType mime\<rparr>"
  by (simp add: base64ToBlob_def atob_encoded comp_def)

lemma jsSplit_no_sep: "c \<notin> set xs \<Longrightarrow> jsSplit c xs = [xs]"
  by (induction xs) auto

lemma jsSplit_append: "c \<notin> set xs \<Longrightarrow> jsSplit c (xs @ c # ys) = xs # jsSplit c ys"
  by (induction xs) auto

lemma blobToBase64_ok:
  assumes "CHR '','' \<notin> set (blob_type b)"
  shows "blobToBase64 b = Some (base64Encode (blob_bytes b))"
proof -
  let ?pre = "''data:'' @ blob_type b @ '';base64''"
  have r: "readAsDataURL b = ?pre @ CHR '','' # base64Encode (blob_bytes b)"
    by (simp add: readAsDataURL_def)
  have "CHR '','' \<notin> set ?pre"
    using assms by simp
  then have s1: "jsSplit CHR '','' (?pre @ CHR '','' # base64Encode (blob_bytes b)) =
      ?pre # jsSplit CHR '','' (base64Encode (blob_bytes b))"
    by (rule jsSplit_append)
  have s2: "jsSplit CHR '','' (base64Encode (blob_bytes b)) = [base64Encode (blob_bytes b)]"
    by (rule jsSplit_no_sep [OF encoded_no_comma])
  show ?thesis
    unfolding blobToBase64_def r s1 s2 by (simp add: elementAt_def)
qed

lemma codec_roundtrip:
  assumes "CHR '','' \<notin> set (blob_type b)" "blob_bytes b \<noteq> []"
  shows "truthy (blobToBase64 b)"
    and "base64ToBlob (the (blobToBase64 b)) mime =
           Inr \<lparr>blob_bytes = blob_bytes b, blob_type = newBlobType mime\<rparr>"
  using assms by (simp_all add: blobToBase64_ok truthy_def encoded_empty_iff base64ToBlob_encoded)


section \<open>The exported document\<close>

lemma exportPhotos_ok:
  "exportPhotos no_faults db as =
     Inr (map exportPhoto (concat (map (\<lambda>a. photoListing (album_id a) db) as)))"
  by (induction as) (simp_all add: getPhotosByAlbum_def no_faults_False)

lemma exportAll_ok:
  "\<exists>xas. exportAssets no_faults db assetKeys = Inr xas \<and>
     exportAll no_faults now db =
       Inr \<lparr>snap_version = Some dbVersion, snap_timestamp = now, snap_assets = xas,
            snap_albums = albumListing db,
            snap_photos = map exportPhoto (concat (map (\<lambda>a. photoListing (album_id a) db) (albumListing db))),
            snap_essays = map exportEssay (essayListing db),
            snap_videos = videoListing db\<rparr>"
proof -
  have "\<exists>xas. exportAssets no_faults db keys = Inr xas" for keys
    by (induction keys) (auto simp: getAsset_def no_faults_False split: option.splits)
  then obtain xas where "exportAssets no_faults db assetKeys = Inr xas" by blast
  then show ?thesis
    by (simp add: exportAll_def exportPhotos_ok getAllAlbums_def getAllEssays_def getAllVideos_def
                  no_faults_False)
qed

section \<open>Replaying the document on a fresh store\<close>

lemma maxOrder_upto: "maxOrder [1 .. int n] = int n"
proof (cases n)
  case 0
  then show ?thesis by (simp add: maxOrder_Max)
next
  case (Suc k)
  then have "Max {1 .. int n} = int n"
    by (intro Max_eqI) auto
  with Suc show ?thesis by (simp add: maxOrder_Max)
qed

lemma renumbered_snoc:
  assumes "renumbered ordf L" "ordf r = maxOrder (map ordf L) + 1"
  shows "renumbered ordf (L @ [r])"
proof -
  from assms have "ordf r = int (length L) + 1"
    by (simp add: renumbered_def maxOrder_upto)
  moreover have "[1 .. int (length L) + 1] = [1 .. int (length L) + 1 - 1] @ [int (length L) + 1]"
    by (rule upto_rec2) simp
  ultimately show ?thesis
    using assms(1) by (simp add: renumbered_def add.commute)
qed

lemma renumbered_Nil [simp]: "renumbered ordf []"
  by (simp add: renumbered_def)

lemma store_eta [simp]: "\<lparr>records = records s, keyGen = keyGen s\<rparr> = s"
  by (cases s) simp

lemma wfDb_albums_update:
  "wfDb db \<Longrightarrow> wfStore album_id s \<Longrightarrow> wfDb (db\<lparr>albums := s\<rparr>)"
  by (simp add: wfDb_def)

lemma wfDb_photos_update:
  "wfDb db \<Longrightarrow> wfStore photo_id s \<Longrightarrow> wfDb (db\<lparr>photos := s\<rparr>)"
  by (simp add: wfDb_def)

lemma wfDb_essays_update:
  "wfDb db \<Longrightarrow> wfStore essay_id s \<Longrightarrow> wfDb (db\<lparr>essays := s\<rparr>)"
  by (simp add: wfDb_def)

lemma wfDb_videos_update:
  "wfDb db \<Longrightarrow> wfStore video_id s \<Longrightarrow> wfDb (db\<lparr>videos := s\<rparr>)"
  by (simp add: wfDb_def)

lemma appended_Nil [simp]: "appended [] s = s"
  by (simp add: appended_def)

lemma appended_Cons: "appended new (appended [r] s) = appended (r # new) s"
  by (simp add: appended_def)

lemma store_add_appended: "store_add mk s = (keyGen s, appended [mk (keyGen s)] s)"
  by (simp add: store_add_def appended_def)

lemma keyGen_appended [simp]: "keyGen (appended new s) = keyGen s + length new"
  by (simp add: appended_def)

lemma records_appended [simp]: "records (appended new s) = records s @ new"
  by (simp add: appended_def)

lemma upt_shift: "k # [k + 1 ..< k + 1 + n] = [k ..< k + Suc n]"
  by (simp add: upt_conv_Cons)

lemma createAlbum_appended:
  assumes "wfDb db"
    and r_def: "r = \<lparr>album_id = keyGen (albums db), album_name = name,
                 album_order = maxOrder (map album_order (albumListing db)) + 1,
                 album_createdAt = now, album_updatedAt = None\<rparr>"
  shows "createAlbum no_faults now name db = (Inr (keyGen (albums db)), db\<lparr>albums := appended [r] (albums db)\<rparr>)"
    and "wfDb (db\<lparr>albums := appended [r] (albums db)\<rparr>)"
    and "albumListing (db\<lparr>albums := appended [r] (albums db)\<rparr>) = albumListing db @ [r]"
proof -
  let ?mk = "\<lambda>k. \<lparr>album_id = k, album_name = name,
                 album_order = maxOrder (map album_order (albumListing db)) + 1,
                 album_createdAt = now, album_updatedAt = None\<rparr>"
  have w: "wfStore album_id (albums db)" using assms(1) by (simp add: wfDb_def)
  have s1: "snd (store_add ?mk (albums db)) = appended [r] (albums db)"
    by (simp add: store_add_appended r_def)
  show "createAlbum no_faults now name db = (Inr (keyGen (albums db)), db\<lparr>albums := appended [r] (albums db)\<rparr>)"
    using createAlbum_ok [OF no_faults_False no_faults_False, where now = now and name = name and db = db]
    unfolding s1 .
  show "wfDb (db\<lparr>albums := appended [r] (albums db)\<rparr>)"
    using wfStore_add [OF w, of ?mk] assms(1) unfolding s1 by (simp add: wfDb_albums_update)
  have "byOrder album_order (filter (\<lambda>a. True) (store_getAll album_id (snd (store_add ?mk (albums db))))) =
        byOrder album_order (filter (\<lambda>a. True) (store_getAll album_id (albums db))) @ [?mk (keyGen (albums db))]"
    by (rule listing_add [OF w]) (simp_all add: albumListing_def)
  from this [unfolded s1] show "albumListing (db\<lparr>albums := appended [r] (albums db)\<rparr>) = albumListing db @ [r]"
    by (simp add: albumListing_def r_def)
qed

lemma importAlbums_ok:
  "wfDb db \<Longrightarrow>
   \<exists>new. importAlbums no_faults now as db = (Inr (), db\<lparr>albums := appended new (albums db)\<rparr>) \<and>
         wfDb (db\<lparr>albums := appended new (albums db)\<rparr>) \<and>
         albumListing (db\<lparr>albums := appended new (albums db)\<rparr>) = albumListing db @ new \<and>
         map album_name new = map album_name as \<and>
         map album_id new = [keyGen (albums db) ..< keyGen (albums db) + length as] \<and>
         (renumbered album_order (albumListing db) \<longrightarrow>
            renumbered album_order (albumListing db @ new))"
proof (induction as arbitrary: db)
  case Nil
  then show ?case by (intro exI [of _ "[]"]) simp
next
  case (Cons a as)
  define r where "r = \<lparr>album_id = keyGen (albums db), album_name = album_name a,
                 album_order = maxOrder (map album_order (albumListing db)) + 1,
                 album_createdAt = now, album_updatedAt = None\<rparr>"
  define db1 where "db1 = db\<lparr>albums := appended [r] (albums db)\<rparr>"
  note c = createAlbum_appended [OF Cons.prems r_def, folded db1_def]
  from Cons.IH [OF c(2)] obtain new where
    n: "importAlbums no_faults now as db1 = (Inr (), db1\<lparr>albums := appended new (albums db1)\<rparr>)"
       "wfDb (db1\<lparr>albums := appended new (albums db1)\<rparr>)"
       "albumListing (db1\<lparr>albums := appended new (albums db1)\<rparr>) = albumListing db1 @ new"
       "map album_name new = map album_name as"
       "map album_id new = [keyGen (albums db1) ..< keyGen (albums db1) + length as]"
       "renumbered album_order (albumListing db1) \<longrightarrow> renumbered album_order (albumListing db1 @ new)"
    by blast
  have e: "db1\<lparr>albums := appended new (albums db1)\<rparr> = db\<lparr>albums := appended (r # new) (albums db)\<rparr>"
    by (simp add: db1_def appended_Cons)
  have k1: "keyGen (albums db1) = keyGen (albums db) + 1"
    by (simp add: db1_def)
  have p1: "importAlbums no_faults now (a # as) db = (Inr (), db\<lparr>albums := appended (r # new) (albums db)\<rparr>)"
    using c(1) n(1) unfolding e by simp
  have p2: "wfDb (db\<lparr>albums := appended (r # new) (albums db)\<rparr>)"
    using n(2) unfolding e .
  have p3: "albumListing (db\<lparr>albums := appended (r # new) (albums db)\<rparr>) = albumListing db @ r # new"
    using n(3) unfolding e c(3) by simp
  have p4: "map album_name (r # new) = map album_name (a # as)"
    using n(4) by (simp add: r_def)
  have "map album_id (r # new) =
          keyGen (albums db) # [keyGen (albums db) + 1 ..< keyGen (albums db) + 1 + length as]"
    using n(5) unfolding k1 by (simp add: r_def)
  also have "\<dots> = [keyGen (albums db) ..< keyGen (albums db) + Suc (length as)]"
    by (rule upt_shift)
  finally have p5: "map album_id (r # new) = [keyGen (albums db) ..< keyGen (albums db) + length (a # as)]"
    by simp
  have p6: "renumbered album_order (albumListing db) \<longrightarrow>
            renumbered album_order (albumListing db @ r # new)"
  proof
    assume "renumbered album_order (albumListing db)"
    then have "renumbered album_order (albumListing db @ [r])"
      by (rule renumbered_snoc) (simp add: r_def)
    with n(6) show "renumbered album_order (albumListing db @ r # new)"
      unfolding c(3) by simp
  qed
  from p1 p2 p3 p4 p5 p6 show ?case by blast
qed


lemma listing_add_other:
  assumes wf: "wfStore idf s" and mk: "\<And>k. idf (mk k) = k" and P: "\<not> P (mk (keyGen s))"
  shows "byOrder ordf (filter P (store_getAll idf (snd (store_add mk s)))) =
         byOrder ordf (filter P (store_getAll idf s))"
proof -
  have g: "store_getAll idf (snd (store_add mk s)) = records s @ [mk (keyGen s)]"
    using wfStore_getAll [OF wfStore_add [OF wf mk]] by (simp add: store_add_def)
  show ?thesis
    by (simp add: g P wfStore_getAll [OF wf])
qed

lemma addPhoto_no_faults:
  assumes "wfDb db"
  shows "\<exists>s r. addPhoto no_faults now a file db = (Inr (photo_id r), db\<lparr>photos := s\<rparr>) \<and>
           wfDb (db\<lparr>photos := s\<rparr>) \<and>
           (\<forall>b. photoListing b (db\<lparr>photos := s\<rparr>) =
                  (if b = a then photoListing a db @ [r] else photoListing b db)) \<and>
           photo_blob r = file \<and>
           photo_order r = maxOrder (map photo_order (photoListing a db)) + 1"
proof -
  let ?mk = "\<lambda>k. \<lparr>photo_id = k, photo_albumId = a, photo_blob = file,
                 photo_mime = blob_type file, photo_size = blob_size file,
                 photo_order = maxOrder (map photo_order (photoListing a db)) + 1,
                 photo_createdAt = now\<rparr>"
  let ?s = "snd (store_add ?mk (photos db))"
  let ?r = "?mk (keyGen (photos db))"
  have wf: "wfStore photo_id (photos db)" using assms by (simp add: wfDb_def)
  have same: "byOrder photo_order (filter (\<lambda>p. photo_albumId p = a) (store_getAll photo_id ?s)) =
        byOrder photo_order (filter (\<lambda>p. photo_albumId p = a) (store_getAll photo_id (photos db))) @ [?r]"
    by (rule listing_add [OF wf]) (simp_all add: photoListing_def)
  have other: "byOrder photo_order (filter (\<lambda>p. photo_albumId p = b) (store_getAll photo_id ?s)) =
        byOrder photo_order (filter (\<lambda>p. photo_albumId p = b) (store_getAll photo_id (photos db)))"
    if "b \<noteq> a" for b
    by (rule listing_add_other [OF wf]) (use that in simp_all)
  have 1: "addPhoto no_faults now a file db = (Inr (photo_id ?r), db\<lparr>photos := ?s\<rparr>)"
    using addPhoto_ok [OF no_faults_False no_faults_False] by simp
  have 2: "wfDb (db\<lparr>photos := ?s\<rparr>)"
    using wfStore_add [OF wf, of ?mk] assms by (simp add: wfDb_photos_update)
  have 3: "\<forall>b. photoListing b (db\<lparr>photos := ?s\<rparr>) =
                  (if b = a then photoListing a db @ [?r] else photoListing b db)"
    using same other by (simp add: photoListing_def)
  have 4: "photo_blob ?r = file" by simp
  have 5: "photo_order ?r = maxOrder (map photo_order (photoListing a db)) + 1" by simp
  from 1 2 3 4 5 show ?thesis by blast
qed

lemma addEssay_no_faults:
  assumes "wfDb db"
  shows "\<exists>s r. addEssay no_faults now file title db = (Inr (essay_id r), db\<lparr>essays := s\<rparr>) \<and>
           wfDb (db\<lparr>essays := s\<rparr>) \<and>
           essayListing (db\<lparr>essays := s\<rparr>) = essayListing db @ [r] \<and>
           essay_pdfBlob r = file \<and> essay_title r = title \<and>
           essay_order r = maxOrder (map essay_order (essayListing db)) + 1"
proof -
  let ?mk = "\<lambda>k. \<lparr>essay_id = k, essay_title = title, essay_pdfBlob = file,
                 essay_mime = ''application/pdf'', essay_size = blob_size file,
                 essay_order = maxOrder (map essay_order (essayListing db)) + 1,
                 essay_createdAt = now, essay_updatedAt = None\<rparr>"
  let ?s = "snd (store_add ?mk (essays db))"
  let ?r = "?mk (keyGen (essays db))"
  have wf: "wfStore essay_id (essays db)" using assms by (simp add: wfDb_def)
  have same: "byOrder essay_order (filter (\<lambda>a. True) (store_getAll essay_id ?s)) =
        byOrder essay_order (filter (\<lambda>a. True) (store_getAll essay_id (essays db))) @ [?r]"
    by (rule listing_add [OF wf]) (simp_all add: essayListing_def)
  have 1: "addEssay no_faults now file title db = (Inr (essay_id ?r), db\<lparr>essays := ?s\<rparr>)"
    using addEssay_ok [OF no_faults_False no_faults_False] by simp
  have 2: "wfDb (db\<lparr>essays := ?s\<rparr>)"
    using wfStore_add [OF wf, of ?mk] assms by (simp add: wfDb_essays_update)
  have 3: "essayListing (db\<lparr>essays := ?s\<rparr>) = essayListing db @ [?r]"
    using same by (simp add: essayListing_def)
  have 4: "essay_pdfBlob ?r = file" "essay_title ?r = title"
    "essay_order ?r = maxOrder (map essay_order (essayListing db)) + 1" by simp_all
  from 1 2 3 4 show ?thesis by blast
qed

lemma addVideo_no_faults:
  assumes "wfDb db" "parseVideoUrl url \<noteq> None"
  shows "\<exists>s r. addVideo no_faults now url db = (Inr (video_id r), db\<lparr>videos := s\<rparr>) \<and>
           wfDb (db\<lparr>videos := s\<rparr>) \<and>
           videoListing (db\<lparr>videos := s\<rparr>) = videoListing db @ [r] \<and>
           video_url r = url \<and>
           video_order r = maxOrder (map video_order (videoListing db)) + 1"
proof -
  from assms(2) obtain vi where vi: "parseVideoUrl url = Some vi" by auto
  let ?mk = "\<lambda>k. \<lparr>video_id = k, video_provider = vi_provider vi,
                 video_url = url, video_embedId = vi_embedId vi, video_title = vi_title vi,
                 video_order = maxOrder (map video_order (videoListing db)) + 1,
                 video_createdAt = now\<rparr>"
  let ?s = "snd (store_add ?mk (videos db))"
  let ?r = "?mk (keyGen (videos db))"
  have wf: "wfStore video_id (videos db)" using assms by (simp add: wfDb_def)
  have same: "byOrder video_order (filter (\<lambda>a. True) (store_getAll video_id ?s)) =
        byOrder video_order (filter (\<lambda>a. True) (store_getAll video_id (videos db))) @ [?r]"
    by (rule listing_add [OF wf]) (simp_all add: videoListing_def)
  have 1: "addVideo no_faults now url db = (Inr (video_id ?r), db\<lparr>videos := ?s\<rparr>)"
    using addVideo_ok [OF no_faults_False no_faults_False vi, where now = now and db = db]
    by simp
  have 2: "wfDb (db\<lparr>videos := ?s\<rparr>)"
    using wfStore_add [OF wf, of ?mk] assms by (simp add: wfDb_videos_update)
  have 3: "videoListing (db\<lparr>videos := ?s\<rparr>) = videoListing db @ [?r]"
    using same by (simp add: videoListing_def)
  have 4: "video_url ?r = url"
    "video_order ?r = maxOrder (map video_order (videoListing db)) + 1" by simp_all
  from 1 2 3 4 show ?thesis by blast
qed


lemma exportPhoto_import:
  assumes "exportable (photo_blob q)"
  shows "truthy (xp_data (exportPhoto q))"
    and "base64ToBlob (the (xp_data (exportPhoto q))) (xp_mime (exportPhoto q)) =
           Inr \<lparr>blob_bytes = blob_bytes (photo_blob q), blob_type = newBlobType (photo_mime q)\<rparr>"
  using assms codec_roundtrip [of "photo_blob q"]
  by (simp_all add: exportPhoto_def exportable_def)

lemma exportEssay_import:
  assumes "exportable (essay_pdfBlob q)"
  shows "truthy (xe_data (exportEssay q))"
    and "base64ToBlob (the (xe_data (exportEssay q))) (xe_mime (exportEssay q)) =
           Inr \<lparr>blob_bytes = blob_bytes (essay_pdfBlob q), blob_type = newBlobType (essay_mime q)\<rparr>"
    and "xe_title (exportEssay q) = essay_title q"
  using assms codec_roundtrip [of "essay_pdfBlob q"]
  by (simp_all add: exportEssay_def exportable_def)

lemma importPhotos_ok:
  assumes "wfDb db"
    and "\<forall>q\<in>set qs. exportable (photo_blob q) \<and> mappedAlbum m (photo_albumId q) \<noteq> None"
  shows "\<exists>s. importPhotos no_faults now m (map exportPhoto qs) db = (Inr (), db\<lparr>photos := s\<rparr>) \<and>
           wfDb (db\<lparr>photos := s\<rparr>) \<and>
           (\<forall>b. map photoContent (photoListing b (db\<lparr>photos := s\<rparr>)) =
                  map photoContent (photoListing b db) @
                  map photoContent (filter (\<lambda>q. mappedAlbum m (photo_albumId q) = Some b) qs)) \<and>
           (\<forall>b. renumbered photo_order (photoListing b db) \<longrightarrow>
                  renumbered photo_order (photoListing b (db\<lparr>photos := s\<rparr>)))"
  using assms
proof (induction qs arbitrary: db)
  case Nil
  have "db\<lparr>photos := photos db\<rparr> = db" by simp
  with Nil.prems(1) show ?case
    by (intro exI [of _ "photos db"]) simp
next
  case (Cons q qs)
  from Cons.prems(2) obtain a where a: "mappedAlbum m (photo_albumId q) = Some a"
    and ex: "exportable (photo_blob q)" by auto
  let ?file = "\<lparr>blob_bytes = blob_bytes (photo_blob q), blob_type = newBlobType (photo_mime q)\<rparr>"
  from addPhoto_no_faults [OF Cons.prems(1), of now a ?file]
  obtain s1 r where
    s1: "addPhoto no_faults now a ?file db = (Inr (photo_id r), db\<lparr>photos := s1\<rparr>)"
        "wfDb (db\<lparr>photos := s1\<rparr>)"
        "\<forall>b. photoListing b (db\<lparr>photos := s1\<rparr>) =
                  (if b = a then photoListing a db @ [r] else photoListing b db)"
        "photo_blob r = ?file"
        "photo_order r = maxOrder (map photo_order (photoListing a db)) + 1"
    by blast
  let ?db1 = "db\<lparr>photos := s1\<rparr>"
  have rest: "\<forall>q\<in>set qs. exportable (photo_blob q) \<and> mappedAlbum m (photo_albumId q) \<noteq> None"
    using Cons.prems(2) by simp
  from Cons.IH [OF s1(2) rest] obtain s where
    s: "importPhotos no_faults now m (map exportPhoto qs) ?db1 = (Inr (), ?db1\<lparr>photos := s\<rparr>)"
       "wfDb (?db1\<lparr>photos := s\<rparr>)"
       "\<forall>b. map photoContent (photoListing b (?db1\<lparr>photos := s\<rparr>)) =
                  map photoContent (photoListing b ?db1) @
                  map photoContent (filter (\<lambda>q. mappedAlbum m (photo_albumId q) = Some b) qs)"
       "\<forall>b. renumbered photo_order (photoListing b ?db1) \<longrightarrow>
                  renumbered photo_order (photoListing b (?db1\<lparr>photos := s\<rparr>))"
    by blast
  have e: "?db1\<lparr>photos := s\<rparr> = db\<lparr>photos := s\<rparr>" by simp
  have xa: "mappedAlbum m (xp_albumId (exportPhoto q)) = Some a"
    using a by (simp add: exportPhoto_def)
  have p1: "importPhotos no_faults now m (map exportPhoto (q # qs)) db = (Inr (), db\<lparr>photos := s\<rparr>)"
    using s(1) s1(1) exportPhoto_import [OF ex] xa unfolding e by simp
  have p2: "wfDb (db\<lparr>photos := s\<rparr>)" using s(2) unfolding e .
  have c: "photoContent r = photoContent q"
    by (simp add: photoContent_def s1(4))
  have p3: "\<forall>b. map photoContent (photoListing b (db\<lparr>photos := s\<rparr>)) =
                  map photoContent (photoListing b db) @
                  map photoContent (filter (\<lambda>q. mappedAlbum m (photo_albumId q) = Some b) (q # qs))"
  proof
    fix b
    from s(3) have "map photoContent (photoListing b (db\<lparr>photos := s\<rparr>)) =
                  map photoContent (photoListing b ?db1) @
                  map photoContent (filter (\<lambda>q. mappedAlbum m (photo_albumId q) = Some b) qs)"
      unfolding e by blast
    then show "map photoContent (photoListing b (db\<lparr>photos := s\<rparr>)) =
                  map photoContent (photoListing b db) @
                  map photoContent (filter (\<lambda>q. mappedAlbum m (photo_albumId q) = Some b) (q # qs))"
      using s1(3) a c by (cases "b = a") auto
  qed
  have p4: "\<forall>b. renumbered photo_order (photoListing b db) \<longrightarrow>
                  renumbered photo_order (photoListing b (db\<lparr>photos := s\<rparr>))"
  proof (intro allI impI)
    fix b assume ren: "renumbered photo_order (photoListing b db)"
    have "renumbered photo_order (photoListing b ?db1)"
    proof (cases "b = a")
      case True
      from ren have "renumbered photo_order (photoListing a db @ [r])"
        unfolding True by (rule renumbered_snoc) (rule s1(5))
      then show ?thesis using s1(3) True by simp
    next
      case False
      then show ?thesis using s1(3) ren by simp
    qed
    with s(4) show "renumbered photo_order (photoListing b (db\<lparr>photos := s\<rparr>))"
      unfolding e by blast
  qed
  from p1 p2 p3 p4 show ?case by blast
qed


lemma importEssays_ok:
  assumes "wfDb db" and "\<forall>q\<in>set qs. exportable (essay_pdfBlob q)"
  shows "\<exists>s. importEssays no_faults now (map exportEssay qs) db = (Inr (), db\<lparr>essays := s\<rparr>) \<and>
           wfDb (db\<lparr>essays := s\<rparr>) \<and>
           map essayContent (essayListing (db\<lparr>essays := s\<rparr>)) =
             map essayContent (essayListing db) @ map essayContent qs \<and>
           (renumbered essay_order (essayListing db) \<longrightarrow>
              renumbered essay_order (essayListing (db\<lparr>essays := s\<rparr>)))"
  using assms
proof (induction qs arbitrary: db)
  case Nil
  have "db\<lparr>essays := essays db\<rparr> = db" by simp
  with Nil.prems(1) show ?case
    by (intro exI [of _ "essays db"]) simp
next
  case (Cons q qs)
  from Cons.prems(2) have ex: "exportable (essay_pdfBlob q)" by simp
  let ?file = "\<lparr>blob_bytes = blob_bytes (essay_pdfBlob q), blob_type = newBlobType (essay_mime q)\<rparr>"
  from addEssay_no_faults [OF Cons.prems(1), of now ?file "essay_title q"]
  obtain s1 r where
    s1: "addEssay no_faults now ?file (essay_title q) db = (Inr (essay_id r), db\<lparr>essays := s1\<rparr>)"
        "wfDb (db\<lparr>essays := s1\<rparr>)"
        "essayListing (db\<lparr>essays := s1\<rparr>) = essayListing db @ [r]"
        "essay_pdfBlob r = ?file" "essay_title r = essay_title q"
        "essay_order r = maxOrder (map essay_order (essayListing db)) + 1"
    by blast
  let ?db1 = "db\<lparr>essays := s1\<rparr>"
  have rest: "\<forall>q\<in>set qs. exportable (essay_pdfBlob q)"
    using Cons.prems(2) by simp
  from Cons.IH [OF s1(2) rest] obtain s where
    s: "importEssays no_faults now (map exportEssay qs) ?db1 = (Inr (), ?db1\<lparr>essays := s\<rparr>)"
       "wfDb (?db1\<lparr>essays := s\<rparr>)"
       "map essayContent (essayListing (?db1\<lparr>essays := s\<rparr>)) =
             map essayContent (essayListing ?db1) @ map essayContent qs"
       "renumbered essay_order (essayListing ?db1) \<longrightarrow>
              renumbered essay_order (essayListing (?db1\<lparr>essays := s\<rparr>))"
    by blast
  have e: "?db1\<lparr>essays := s\<rparr> = db\<lparr>essays := s\<rparr>" by simp
  have p1: "importEssays no_faults now (map exportEssay (q # qs)) db = (Inr (), db\<lparr>essays := s\<rparr>)"
    using s(1) s1(1) exportEssay_import [OF ex] unfolding e by simp
  have p2: "wfDb (db\<lparr>essays := s\<rparr>)" using s(2) unfolding e .
  have c: "essayContent r = essayContent q"
    by (simp add: essayContent_def s1(4) s1(5))
  have p3: "map essayContent (essayListing (db\<lparr>essays := s\<rparr>)) =
             map essayContent (essayListing db) @ map essayContent (q # qs)"
    using s(3) unfolding e s1(3) by (simp add: c)
  have p4: "renumbered essay_order (essayListing db) \<longrightarrow>
              renumbered essay_order (essayListing (db\<lparr>essays := s\<rparr>))"
  proof
    assume "renumbered essay_order (essayListing db)"
    then have "renumbered essay_order (essayListing db @ [r])"
      by (rule renumbered_snoc) (rule s1(6))
    with s(4) show "renumbered essay_order (essayListing (db\<lparr>essays := s\<rparr>))"
      unfolding e s1(3) by blast
  qed
  from p1 p2 p3 p4 show ?case by blast
qed

lemma importVideos_ok:
  assumes "wfDb db" and "\<forall>q\<in>set qs. parseVideoUrl (video_url q) \<noteq> None"
  shows "\<exists>s. importVideos no_faults now qs db = (Inr (), db\<lparr>videos := s\<rparr>) \<and>
           wfDb (db\<lparr>videos := s\<rparr>) \<and>
           map video_url (videoListing (db\<lparr>videos := s\<rparr>)) =
             map video_url (videoListing db) @ map video_url qs \<and>
           (renumbered video_order (videoListing db) \<longrightarrow>
              renumbered video_order (videoListing (db\<lparr>videos := s\<rparr>)))"
  using assms
proof (induction qs arbitrary: db)
  case Nil
  have "db\<lparr>videos := videos db\<rparr> = db" by simp
  with Nil.prems(1) show ?case
    by (intro exI [of _ "videos db"]) simp
next
  case (Cons q qs)
  from Cons.prems(2) have ex: "parseVideoUrl (video_url q) \<noteq> None" by simp
  from addVideo_no_faults [OF Cons.prems(1) ex, of now]
  obtain s1 r where
    s1: "addVideo no_faults now (video_url q) db = (Inr (video_id r), db\<lparr>videos := s1\<rparr>)"
        "wfDb (db\<lparr>videos := s1\<rparr>)"
        "videoListing (db\<lparr>videos := s1\<rparr>) = videoListing db @ [r]"
        "video_url r = video_url q"
        "video_order r = maxOrder (map video_order (videoListing db)) + 1"
    by blast
  let ?db1 = "db\<lparr>videos := s1\<rparr>"
  have rest: "\<forall>q\<in>set qs. parseVideoUrl (video_url q) \<noteq> None"
    using Cons.prems(2) by simp
  from Cons.IH [OF s1(2) rest] obtain s where
    s: "importVideos no_faults now qs ?db1 = (Inr (), ?db1\<lparr>videos := s\<rparr>)"
       "wfDb (?db1\<lparr>videos := s\<rparr>)"
       "map video_url (videoListing (?db1\<lparr>videos := s\<rparr>)) =
             map video_url (videoListing ?db1) @ map video_url qs"
       "renumbered video_order (videoListing ?db1) \<longrightarrow>
              renumbered video_order (videoListing (?db1\<lparr>videos := s\<rparr>))"
    by blast
  have e: "?db1\<lparr>videos := s\<rparr> = db\<lparr>videos := s\<rparr>" by simp
  have p1: "importVideos no_faults now (q # qs) db = (Inr (), db\<lparr>videos := s\<rparr>)"
    using s(1) s1(1) unfolding e by simp
  have p2: "wfDb (db\<lparr>videos := s\<rparr>)" using s(2) unfolding e .
  have p3: "map video_url (videoListing (db\<lparr>videos := s\<rparr>)) =
             map video_url (videoListing db) @ map video_url (q # qs)"
    using s(3) unfolding e s1(3) by (simp add: s1(4))
  have p4: "renumbered video_order (videoListing db) \<longrightarrow>
              renumbered video_order (videoListing (db\<lparr>videos := s\<rparr>))"
  proof
    assume "renumbered video_order (videoListing db)"
    then have "renumbered video_order (videoListing db @ [r])"
      by (rule renumbered_snoc) (rule s1(5))
    with s(4) show "renumbered video_order (videoListing (db\<lparr>videos := s\<rparr>))"
      unfolding e s1(3) by blast
  qed
  from p1 p2 p3 p4 show ?case by blast
qed

lemma exportAssets_ok:
  "exportAssets no_faults db ks =
     Inr (List.map_filter (\<lambda>k. map_option (\<lambda>a. (k,
            \<lparr>xa_key = asset_key a, xa_data = blobToBase64 (asset_blob a),
             xa_mime = asset_mime a, xa_updatedAt = asset_updatedAt a\<rparr>)) (assets db k)) ks)"
  by (induction ks) (auto simp: getAsset_def no_faults_False List.map_filter_simps split: option.splits)

lemma importAssets_ok:
  assumes "\<forall>k\<in>set ks. assetExportable db k"
  shows "\<exists>A. importAssets no_faults now
               (List.map_filter (\<lambda>k. map_option (\<lambda>a. (k,
                  \<lparr>xa_key = asset_key a, xa_data = blobToBase64 (asset_blob a),
                   xa_mime = asset_mime a, xa_updatedAt = asset_updatedAt a\<rparr>)) (assets db k)) ks) d =
             (Inr (), d\<lparr>assets := A\<rparr>) \<and>
           (\<forall>k. map_option assetContent (A k) =
                  (if k \<in> set ks \<and> assets db k \<noteq> None then map_option assetContent (assets db k)
                   else map_option assetContent (assets d k)))"
  using assms
proof (induction ks arbitrary: d)
  case Nil
  have "d\<lparr>assets := assets d\<rparr> = d" by simp
  then show ?case
    by (intro exI [of _ "assets d"]) (simp add: List.map_filter_simps)
next
  case (Cons k ks)
  have rest: "\<forall>k\<in>set ks. assetExportable db k" using Cons.prems by simp
  show ?case
  proof (cases "assets db k")
    case None
    from Cons.IH [OF rest, of d] obtain A where
      A: "importAssets no_faults now
               (List.map_filter (\<lambda>k. map_option (\<lambda>a. (k,
                  \<lparr>xa_key = asset_key a, xa_data = blobToBase64 (asset_blob a),
                   xa_mime = asset_mime a, xa_updatedAt = asset_updatedAt a\<rparr>)) (assets db k)) ks) d =
             (Inr (), d\<lparr>assets := A\<rparr>)"
         "\<forall>k. map_option assetContent (A k) =
                  (if k \<in> set ks \<and> assets db k \<noteq> None then map_option assetContent (assets db k)
                   else map_option assetContent (assets d k))"
      by blast
    from A None show ?thesis
      by (intro exI [of _ A]) (auto simp: List.map_filter_simps)
  next
    case (Some a)
    with Cons.prems have ex: "exportable (asset_blob a)"
      by (simp add: assetExportable_def)
    let ?file = "\<lparr>blob_bytes = blob_bytes (asset_blob a), blob_type = newBlobType (asset_mime a)\<rparr>"
    let ?d1 = "d\<lparr>assets := (assets d)(k \<mapsto>
              \<lparr>asset_key = k, asset_blob = ?file, asset_mime = blob_type ?file,
               asset_updatedAt = now\<rparr>)\<rparr>"
    have put: "putAsset no_faults now k ?file d = (Inr k, ?d1)"
      by (simp add: putAsset_def no_faults_False)
    from Cons.IH [OF rest, of ?d1] obtain A where
      A: "importAssets no_faults now
               (List.map_filter (\<lambda>k. map_option (\<lambda>a. (k,
                  \<lparr>xa_key = asset_key a, xa_data = blobToBase64 (asset_blob a),
                   xa_mime = asset_mime a, xa_updatedAt = asset_updatedAt a\<rparr>)) (assets db k)) ks) ?d1 =
             (Inr (), ?d1\<lparr>assets := A\<rparr>)"
         "\<forall>k'. map_option assetContent (A k') =
                  (if k' \<in> set ks \<and> assets db k' \<noteq> None then map_option assetContent (assets db k')
                   else map_option assetContent (assets ?d1 k'))"
      by blast
    have e: "?d1\<lparr>assets := A\<rparr> = d\<lparr>assets := A\<rparr>" by simp
    have cr: "truthy (blobToBase64 (asset_blob a))"
      "base64ToBlob (the (blobToBase64 (asset_blob a))) (asset_mime a) = Inr ?file"
      using ex codec_roundtrip [of "asset_blob a"] by (simp_all add: exportable_def)
    have p1: "importAssets no_faults now
               (List.map_filter (\<lambda>k. map_option (\<lambda>a. (k,
                  \<lparr>xa_key = asset_key a, xa_data = blobToBase64 (asset_blob a),
                   xa_mime = asset_mime a, xa_updatedAt = asset_updatedAt a\<rparr>)) (assets db k)) (k # ks)) d =
             (Inr (), d\<lparr>assets := A\<rparr>)"
      using A(1) Some cr put unfolding e by (simp add: List.map_filter_simps)
    have p2: "\<forall>k'. map_option assetContent (A k') =
                  (if k' \<in> set (k # ks) \<and> assets db k' \<noteq> None then map_option assetContent (assets db k')
                   else map_option assetContent (assets d k'))"
      using A(2) Some by (auto simp: assetContent_def)
    from p1 p2 show ?thesis by blast
  qed
qed


lemma albumIdMap_snoc:
  "albumIdMap (xs @ [x]) new =
     (if length xs < length new then (albumIdMap xs new)(album_id x \<mapsto> album_id (new ! length xs))
      else albumIdMap xs new)"
  by (simp add: albumIdMap_def enumerate_append_eq)

lemma albumIdMap_nth:
  "distinct (map album_id old) \<Longrightarrow> length old \<le> length new \<Longrightarrow> i < length old \<Longrightarrow>
   albumIdMap old new (album_id (old ! i)) = Some (album_id (new ! i))"
proof (induction old arbitrary: i rule: rev_induct)
  case Nil
  then show ?case by simp
next
  case (snoc x xs)
  show ?case
  proof (cases "i = length xs")
    case True
    with snoc.prems show ?thesis by (simp add: albumIdMap_snoc)
  next
    case False
    with snoc.prems have i: "i < length xs" by simp
    then have "xs ! i \<in> set xs" by simp
    then have "album_id (xs ! i) \<in> album_id ` set xs" by (rule imageI)
    with snoc.prems(1) have ne: "album_id (xs ! i) \<noteq> album_id x" by auto
    from snoc.prems i have "albumIdMap xs new (album_id (xs ! i)) = Some (album_id (new ! i))"
      by (intro snoc.IH) simp_all
    with ne i snoc.prems(2) show ?thesis
      by (simp add: albumIdMap_snoc nth_append)
  qed
qed

lemma filter_concat_one:
  assumes "distinct xs" "a \<in> set xs"
    and "\<And>x q. x \<in> set xs \<Longrightarrow> q \<in> set (f x) \<Longrightarrow> P q = (x = a)"
  shows "filter P (concat (map f xs)) = f a"
  using assms
proof (induction xs)
  case Nil
  then show ?case by simp
next
  case (Cons x xs)
  show ?case
  proof (cases "x = a")
    case True
    with Cons.prems(1) have "a \<notin> set xs" by simp
    then have "\<forall>y\<in>set xs. \<forall>q\<in>set (f y). \<not> P q"
      using Cons.prems(3) by auto
    then have "filter P (concat (map f xs)) = []"
      by (auto simp: filter_empty_conv)
    moreover have "filter P (f x) = f x"
      using Cons.prems(3) [of x] True by (auto simp: filter_id_conv)
    ultimately show ?thesis using True by simp
  next
    case False
    with Cons.prems have "a \<in> set xs" by simp
    moreover have "distinct xs" using Cons.prems(1) by simp
    ultimately have "filter P (concat (map f xs)) = f a"
      using Cons.prems(3) by (intro Cons.IH) auto
    moreover have "filter P (f x) = []"
      using Cons.prems(3) [of x] False by (auto simp: filter_empty_conv)
    ultimately show ?thesis by simp
  qed
qed

lemma regroup:
  assumes d: "distinct (map album_id old)" and len: "length new = length old"
    and dn: "distinct (map album_id new)"
    and M: "\<forall>j<length old. M (album_id (old ! j)) = Some (album_id (new ! j))"
    and f: "\<forall>a\<in>set old. \<forall>q\<in>set (f a). photo_albumId q = album_id a"
    and i: "i < length old"
  shows "filter (\<lambda>q. M (photo_albumId q) = Some (album_id (new ! i))) (concat (map f old)) = f (old ! i)"
proof (rule filter_concat_one)
  show "distinct old" using d by (rule distinct_map [THEN iffD1, THEN conjunct1])
  show "old ! i \<in> set old" using i by simp
  fix x q assume x: "x \<in> set old" and q: "q \<in> set (f x)"
  from x obtain j where j: "j < length old" "x = old ! j"
    by (auto simp: in_set_conv_nth)
  from f x q have "photo_albumId q = album_id (old ! j)" using j by simp
  with M j have Mq: "M (photo_albumId q) = Some (album_id (new ! j))" by simp
  have "(album_id (new ! j) = album_id (new ! i)) = (j = i)"
    using nth_eq_iff_index_eq [OF dn, of j i] j(1) i len by simp
  moreover have "(old ! j = old ! i) = (j = i)"
    using nth_eq_iff_index_eq [OF d, of j i] j(1) i by auto
  ultimately show "(M (photo_albumId q) = Some (album_id (new ! i))) = (x = old ! i)"
    using Mq j(2) by simp
qed

lemma distinct_listing:
  assumes "wfStore idf s"
  shows "distinct (map idf (byOrder ordf (filter P (store_getAll idf s))))"
proof -
  have "mset (map idf (byOrder ordf (filter P (store_getAll idf s)))) =
        mset (map idf (filter P (records s)))"
    using mset_listing [of ordf P idf s] by (metis mset_map)
  then have "distinct (map idf (byOrder ordf (filter P (store_getAll idf s)))) =
        distinct (map idf (filter P (records s)))"
    by (rule mset_eq_imp_distinct_iff)
  moreover have "distinct (map idf (filter P (records s)))"
    using wfStore_distinct [OF assms] by (rule distinct_map_filter)
  ultimately show ?thesis by simp
qed


lemma clearAllData_emptyDb: "clearAllData no_faults emptyDb = (Inr (replicate 5 ()), emptyDb)"
  by (simp add: clearAllData_def no_faults_False emptyDb_def store_clear_def emptyStore_def)

lemma listing_emptyStore:
  "byOrder ordf (filter P (store_getAll idf emptyStore)) = []"
  "byOrder ordf (store_getAll idf emptyStore) = []"
  by (simp_all add: byOrder_eq store_getAll_def emptyStore_def)

lemma photoListing_subset: "set (photoListing a db) \<subseteq> set (records (photos db))"
  by (auto simp: photoListing_def byOrder_eq store_getAll_def)

lemma photoListing_albumId: "q \<in> set (photoListing a db) \<Longrightarrow> photo_albumId q = a"
  by (auto simp: photoListing_def byOrder_eq store_getAll_def)

lemma set_essayListing: "set (essayListing db) = set (records (essays db))"
  by (auto simp: essayListing_def byOrder_eq store_getAll_def)

lemma set_videoListing: "set (videoListing db) = set (records (videos db))"
  by (auto simp: videoListing_def byOrder_eq store_getAll_def)

lemma roundTrip_backupReady:
  assumes br: "backupReady db"
  shows "\<exists>db'. roundTrip now later db = (Inr (), db') \<and> wfDb db' \<and>
           albumsView db' = albumsView db \<and> essaysView db' = essaysView db \<and>
           videosView db' = videosView db \<and> assetsView db' = assetsView db \<and>
           allRenumbered db'"
proof -
  define old where "old = albumListing db"
  define qs where "qs = concat (map (\<lambda>a. photoListing (album_id a) db) old)"
  define es where "es = essayListing db"
  define vs where "vs = videoListing db"
  define xas where "xas = List.map_filter (\<lambda>k. map_option (\<lambda>a. (k,
            \<lparr>xa_key = asset_key a, xa_data = blobToBase64 (asset_blob a),
             xa_mime = asset_mime a, xa_updatedAt = asset_updatedAt a\<rparr>)) (assets db k)) assetKeys"
  from br have wf: "wfDb db"
    and exp: "\<forall>p\<in>set (records (photos db)). exportable (photo_blob p)"
    and exe: "\<forall>e\<in>set (records (essays db)). exportable (essay_pdfBlob e)"
    and exv: "\<forall>v\<in>set (records (videos db)). parseVideoUrl (video_url v) \<noteq> None"
    and exa: "\<forall>k\<in>set assetKeys. assetExportable db k"
    by (simp_all add: backupReady_def list_all_iff)
  text \<open>The exported document.\<close>
  have xa: "exportAssets no_faults db assetKeys = Inr xas"
    unfolding xas_def by (rule exportAssets_ok)
  have ex: "exportAll no_faults now db =
       Inr \<lparr>snap_version = Some dbVersion, snap_timestamp = now, snap_assets = xas,
            snap_albums = old, snap_photos = map exportPhoto qs,
            snap_essays = map exportEssay es, snap_videos = vs\<rparr>"
    using exportAll_ok [of db now] xa by (simp add: old_def qs_def es_def vs_def)
  text \<open>The stages of the import.\<close>
  from importAssets_ok [OF exa, of later emptyDb] obtain A where
    a1: "importAssets no_faults later xas emptyDb = (Inr (), emptyDb\<lparr>assets := A\<rparr>)"
    and A: "\<forall>k. map_option assetContent (A k) =
                  (if k \<in> set assetKeys \<and> assets db k \<noteq> None then map_option assetContent (assets db k)
                   else map_option assetContent (assets emptyDb k))"
    unfolding xas_def by blast
  define d1 where "d1 = emptyDb\<lparr>assets := A\<rparr>"
  have wf1: "wfDb d1" using wfDb_emptyDb by (simp add: d1_def wfDb_def)
  have l1: "albumListing d1 = []" "keyGen (albums d1) = 1"
    by (simp_all add: d1_def emptyDb_def albumListing_def listing_emptyStore)
       (simp add: emptyStore_def)
  from importAlbums_ok [OF wf1, of later old] obtain new where
    a2: "importAlbums no_faults later old d1 = (Inr (), d1\<lparr>albums := appended new (albums d1)\<rparr>)"
    and wf2': "wfDb (d1\<lparr>albums := appended new (albums d1)\<rparr>)"
    and l2': "albumListing (d1\<lparr>albums := appended new (albums d1)\<rparr>) = albumListing d1 @ new"
    and names: "map album_name new = map album_name old"
    and ids: "map album_id new = [keyGen (albums d1) ..< keyGen (albums d1) + length old]"
    and ren2': "renumbered album_order (albumListing d1) \<longrightarrow>
            renumbered album_order (albumListing d1 @ new)"
    by blast
  define d2 where "d2 = d1\<lparr>albums := appended new (albums d1)\<rparr>"
  have wf2: "wfDb d2" using wf2' by (simp add: d2_def)
  have l2: "albumListing d2 = new" using l2' l1 by (simp add: d2_def)
  have ren2: "renumbered album_order new" using ren2' l1 by simp
  have len: "length new = length old"
    using names by (metis length_map)
  have ids1: "map album_id new = [1 ..< 1 + length old]" using ids l1 by simp
  have dn: "distinct (map album_id new)" unfolding ids1 by simp
  have pos: "\<forall>j<length old. album_id (new ! j) \<noteq> 0"
  proof (intro allI impI)
    fix j assume j: "j < length old"
    then have "album_id (new ! j) = map album_id new ! j" using len by simp
    also have "\<dots> = [1 ..< 1 + length old] ! j" by (simp only: ids1)
    also have "\<dots> = 1 + j" by (rule nth_upt) (use j in simp)
    finally show "album_id (new ! j) \<noteq> 0" by simp
  qed
  have a3: "getAllAlbums no_faults d2 = Inr new"
    by (simp add: getAllAlbums_def no_faults_False l2)
  have dold: "distinct (map album_id old)"
    unfolding old_def albumListing_def
    using distinct_listing [of album_id "albums db" album_order "\<lambda>x. True"] wf
    by (simp add: wfDb_def)
  define m where "m = albumIdMap old new"
  have M: "\<forall>j<length old. mappedAlbum m (album_id (old ! j)) = Some (album_id (new ! j))"
  proof (intro allI impI)
    fix j assume j: "j < length old"
    from albumIdMap_nth [OF dold _ j, of new] len
    have "m (album_id (old ! j)) = Some (album_id (new ! j))" by (simp add: m_def)
    with pos j show "mappedAlbum m (album_id (old ! j)) = Some (album_id (new ! j))"
      by (simp add: mappedAlbum_def)
  qed
  have qsP: "\<forall>q\<in>set qs. exportable (photo_blob q) \<and> mappedAlbum m (photo_albumId q) \<noteq> None"
  proof
    fix q assume "q \<in> set qs"
    then obtain a where a: "a \<in> set old" "q \<in> set (photoListing (album_id a) db)"
      by (auto simp: qs_def)
    from a(2) photoListing_subset have "q \<in> set (records (photos db))" by blast
    with exp have 1: "exportable (photo_blob q)" by simp
    from a(1) obtain j where j: "j < length old" "a = old ! j"
      by (auto simp: in_set_conv_nth)
    from a(2) have "photo_albumId q = album_id (old ! j)"
      using j by (simp add: photoListing_albumId)
    with M j have "mappedAlbum m (photo_albumId q) \<noteq> None" by simp
    with 1 show "exportable (photo_blob q) \<and> mappedAlbum m (photo_albumId q) \<noteq> None" by simp
  qed
  from importPhotos_ok [OF wf2 qsP, of later] obtain s3 where
    a4: "importPhotos no_faults later m (map exportPhoto qs) d2 = (Inr (), d2\<lparr>photos := s3\<rparr>)"
    and wf3': "wfDb (d2\<lparr>photos := s3\<rparr>)"
    and c3': "\<forall>b. map photoContent (photoListing b (d2\<lparr>photos := s3\<rparr>)) =
                  map photoContent (photoListing b d2) @
                  map photoContent (filter (\<lambda>q. mappedAlbum m (photo_albumId q) = Some b) qs)"
    and ren3': "\<forall>b. renumbered photo_order (photoListing b d2) \<longrightarrow>
                  renumbered photo_order (photoListing b (d2\<lparr>photos := s3\<rparr>))"
    by blast
  define d3 where "d3 = d2\<lparr>photos := s3\<rparr>"
  have pl2: "photoListing b d2 = []" for b
    by (simp add: d2_def d1_def emptyDb_def photoListing_def listing_emptyStore)
  have wf3: "wfDb d3" using wf3' by (simp add: d3_def)
  have c3: "map photoContent (photoListing b d3) =
              map photoContent (filter (\<lambda>q. mappedAlbum m (photo_albumId q) = Some b) qs)" for b
    using c3' pl2 by (simp add: d3_def)
  have ren3: "renumbered photo_order (photoListing b d3)" for b
    using ren3' pl2 by (simp add: d3_def)
  have esP: "\<forall>q\<in>set es. exportable (essay_pdfBlob q)"
    using exe by (simp add: es_def set_essayListing)
  from importEssays_ok [OF wf3 esP, of later] obtain s4 where
    a5: "importEssays no_faults later (map exportEssay es) d3 = (Inr (), d3\<lparr>essays := s4\<rparr>)"
    and wf4': "wfDb (d3\<lparr>essays := s4\<rparr>)"
    and c4': "map essayContent (essayListing (d3\<lparr>essays := s4\<rparr>)) =
             map essayContent (essayListing d3) @ map essayContent es"
    and ren4': "renumbered essay_order (essayListing d3) \<longrightarrow>
              renumbered essay_order (essayListing (d3\<lparr>essays := s4\<rparr>))"
    by blast
  define d4 where "d4 = d3\<lparr>essays := s4\<rparr>"
  have el3: "essayListing d3 = []"
    by (simp add: d3_def d2_def d1_def emptyDb_def essayListing_def listing_emptyStore)
  have wf4: "wfDb d4" using wf4' by (simp add: d4_def)
  have c4: "map essayContent (essayListing d4) = map essayContent es"
    using c4' el3 by (simp add: d4_def)
  have ren4: "renumbered essay_order (essayListing d4)"
    using ren4' el3 by (simp add: d4_def)
  have vsP: "\<forall>q\<in>set vs. parseVideoUrl (video_url q) \<noteq> None"
    using exv by (simp add: vs_def set_videoListing)
  from importVideos_ok [OF wf4 vsP, of later] obtain s5 where
    a6: "importVideos no_faults later vs d4 = (Inr (), d4\<lparr>videos := s5\<rparr>)"
    and wf5': "wfDb (d4\<lparr>videos := s5\<rparr>)"
    and c5': "map video_url (videoListing (d4\<lparr>videos := s5\<rparr>)) =
             map video_url (videoListing d4) @ map video_url vs"
    and ren5': "renumbered video_order (videoListing d4) \<longrightarrow>
              renumbered video_order (videoListing (d4\<lparr>videos := s5\<rparr>))"
    by blast
  define d5 where "d5 = d4\<lparr>videos := s5\<rparr>"
  have vl4: "videoListing d4 = []"
    by (simp add: d4_def d3_def d2_def d1_def emptyDb_def videoListing_def listing_emptyStore)
  have wf5: "wfDb d5" using wf5' by (simp add: d5_def)
  have c5: "map video_url (videoListing d5) = map video_url vs"
    using c5' vl4 by (simp add: d5_def)
  have ren5: "renumbered video_order (videoListing d5)"
    using ren5' vl4 by (simp add: d5_def)
  text \<open>The result of the import.\<close>
  have imp: "importAll no_faults later
       \<lparr>snap_version = Some dbVersion, snap_timestamp = now, snap_assets = xas,
        snap_albums = old, snap_photos = map exportPhoto qs,
        snap_essays = map exportEssay es, snap_videos = vs\<rparr> emptyDb = (Inr (), d5)"
    using a1 a2 a3 a4 a5 a6
    by (simp add: importAll_def versionRejected_def dbVersion_def clearAllData_emptyDb
                  d1_def [symmetric] d2_def [symmetric] d3_def [symmetric] d4_def [symmetric]
                  d5_def [symmetric] m_def [symmetric])
  have rt: "roundTrip now later db = (Inr (), d5)"
    by (simp add: roundTrip_def ex imp)
  text \<open>What the listings of the result show.\<close>
  have al5: "albumListing d5 = new"
    using l2 by (simp add: d5_def d4_def d3_def albumListing_def)
  have pl5: "photoListing b d5 = photoListing b d3" for b
    by (simp add: d5_def d4_def photoListing_def)
  have el5: "essayListing d5 = essayListing d4"
    by (simp add: d5_def essayListing_def)
  have as5: "assets d5 = A"
    by (simp add: d5_def d4_def d3_def d2_def d1_def)
  have v1: "albumsView d5 = albumsView db"
  proof -
    have "map (\<lambda>a. (album_name a, map photoContent (photoListing (album_id a) d3))) new =
          map (\<lambda>a. (album_name a, map photoContent (photoListing (album_id a) db))) old"
    proof (rule nth_equalityI)
      show "length (map (\<lambda>a. (album_name a, map photoContent (photoListing (album_id a) d3))) new) =
            length (map (\<lambda>a. (album_name a, map photoContent (photoListing (album_id a) db))) old)"
        using len by simp
      fix i assume "i < length (map (\<lambda>a. (album_name a, map photoContent (photoListing (album_id a) d3))) new)"
      then have i: "i < length old" using len by simp
      have n: "album_name (new ! i) = album_name (old ! i)"
        using nth_map [of i new album_name] nth_map [of i old album_name] names i len by simp
      have "filter (\<lambda>q. mappedAlbum m (photo_albumId q) = Some (album_id (new ! i)))
              (concat (map (\<lambda>a. photoListing (album_id a) db) old)) =
            photoListing (album_id (old ! i)) db"
        by (rule regroup [OF dold len dn M _ i]) (simp add: photoListing_albumId)
      then have "map photoContent (photoListing (album_id (new ! i)) d3) =
                 map photoContent (photoListing (album_id (old ! i)) db)"
        by (simp add: c3 qs_def)
      with n i len
      show "map (\<lambda>a. (album_name a, map photoContent (photoListing (album_id a) d3))) new ! i =
            map (\<lambda>a. (album_name a, map photoContent (photoListing (album_id a) db))) old ! i"
        by simp
    qed
    then show ?thesis
      by (simp add: albumsView_def al5 pl5 old_def)
  qed
  have v2: "essaysView d5 = essaysView db"
    using c4 by (simp add: essaysView_def el5 es_def)
  have v3: "videosView d5 = videosView db"
    using c5 by (simp add: videosView_def vs_def)
  have v4: "assetsView d5 = assetsView db"
  proof -
    have "map_option assetContent (A k) = map_option assetContent (assets db k)"
      if "k \<in> set assetKeys" for k
      using A that by (cases "assets db k") (simp_all add: emptyDb_def)
    then show ?thesis
      by (simp add: assetsView_def as5)
  qed
  have v5: "allRenumbered d5"
    using ren2 ren3 ren4 ren5
    by (simp add: allRenumbered_def al5 pl5 el5 list_all_iff)
  from rt wf5 v1 v2 v3 v4 v5 show ?thesis by blast
qed


lemma exportAll_no_faults:
  "exportAll no_faults now db =
       Inr \<lparr>snap_version = Some dbVersion, snap_timestamp = now,
            snap_assets = List.map_filter (\<lambda>k. map_option (\<lambda>a. (k,
                \<lparr>xa_key = asset_key a, xa_data = blobToBase64 (asset_blob a),
                 xa_mime = asset_mime a, xa_updatedAt = asset_updatedAt a\<rparr>)) (assets db k)) assetKeys,
            snap_albums = albumListing db,
            snap_photos = map exportPhoto (concat (map (\<lambda>a. photoListing (album_id a) db) (albumListing db))),
            snap_essays = map exportEssay (essayListing db),
            snap_videos = videoListing db\<rparr>"
  using exportAll_ok [of db now] by (simp add: exportAssets_ok)

lemma backupReady_sampleDb: "backupReady sampleDb"
proof -
  have "wfDb sampleDb"
    by (simp add: wfDb_def wfStore_def sampleDb_def)
  moreover have "parseVideoUrl ''https://vimeo.com/897021152'' \<noteq> None"
    by (simp add: parse_vimeo_example)
  ultimately show ?thesis
    by (simp add: backupReady_def exportable_def assetExportable_def assetKeys_def sampleDb_def
                  sampleBlob_def)
qed

lemma listings_emptyDb:
  "albumListing emptyDb = []" "essayListing emptyDb = []" "videoListing emptyDb = []"
  "photoListing a emptyDb = []" "assets emptyDb k = None"
  by (simp_all add: emptyDb_def albumListing_def essayListing_def videoListing_def
                    photoListing_def listing_emptyStore)

lemma getAllAlbums_emptyDb: "getAllAlbums no_faults emptyDb = Inr []"
  by (simp add: getAllAlbums_def no_faults_False listings_emptyDb)

lemma importAll_nothing:
  "importAll no_faults later
     \<lparr>snap_version = Some dbVersion, snap_timestamp = now, snap_assets = [], snap_albums = [],
      snap_photos = [], snap_essays = [], snap_videos = []\<rparr> emptyDb = (Inr (), emptyDb)"
  by (simp add: importAll_def versionRejected_def dbVersion_def clearAllData_emptyDb
                getAllAlbums_emptyDb)

lemma roundTrip_orphan:
  "roundTrip now later orphanPhotoDb = (Inr (), emptyDb)"
proof -
  have "exportAll no_faults now orphanPhotoDb =
     Inr \<lparr>snap_version = Some dbVersion, snap_timestamp = now, snap_assets = [], snap_albums = [],
      snap_photos = [], snap_essays = [], snap_videos = []\<rparr>"
    by (simp add: exportAll_no_faults orphanPhotoDb_def albumListing_def essayListing_def
                videoListing_def listing_emptyStore emptyDb_def assetKeys_def
                List.map_filter_simps)
  then show ?thesis by (simp add: roundTrip_def importAll_nothing)
qed

lemma roundTrip_otherAsset:
  "roundTrip now later otherAssetDb = (Inr (), emptyDb)"
proof -
  have "exportAll no_faults now otherAssetDb =
     Inr \<lparr>snap_version = Some dbVersion, snap_timestamp = now, snap_assets = [], snap_albums = [],
      snap_photos = [], snap_essays = [], snap_videos = []\<rparr>"
    by (simp add: exportAll_no_faults otherAssetDb_def albumListing_def essayListing_def
                videoListing_def listing_emptyStore emptyDb_def assetKeys_def
                List.map_filter_simps)
  then show ?thesis by (simp add: roundTrip_def importAll_nothing)
qed

lemma exportAll_essayDb:
  "exportAll no_faults now (essayDb file) =
     Inr \<lparr>snap_version = Some dbVersion, snap_timestamp = now, snap_assets = [], snap_albums = [],
      snap_photos = [],
      snap_essays = [\<lparr>xe_id = 1, xe_title = ''Thesis'', xe_mime = ''application/pdf'',
                      xe_size = blob_size file, xe_order = 1,
                      xe_createdAt = ''2025-01-07T00:00:00.000Z'', xe_updatedAt = None,
                      xe_data = blobToBase64 file\<rparr>],
      snap_videos = []\<rparr>"
  by (simp add: exportAll_no_faults essayDb_def albumListing_def essayListing_def
                videoListing_def listing_emptyStore emptyDb_def assetKeys_def
                List.map_filter_simps exportEssay_def byOrder_eq store_getAll_def emptyStore_def)

lemma roundTrip_emptyFile:
  "roundTrip now later (essayDb (sampleBlob [] ''application/pdf'')) = (Inr (), emptyDb)"
proof -
  have "blobToBase64 (sampleBlob [] ''application/pdf'') = Some []"
    by (simp add: blobToBase64_ok sampleBlob_def)
  then show ?thesis
    by (simp add: roundTrip_def exportAll_essayDb importAll_def versionRejected_def dbVersion_def
                clearAllData_emptyDb getAllAlbums_emptyDb truthy_def)
qed

lemma roundTrip_commaType:
  "roundTrip now later (essayDb (sampleBlob [0x25] ''application/pdf,x'')) =
     (Inl InvalidCharacter, emptyDb)"
proof -
  have "blobToBase64 (sampleBlob [0x25] ''application/pdf,x'') = Some ''x;base64''"
    by (simp add: blobToBase64_def readAsDataURL_def sampleBlob_def elementAt_def)
  moreover have "atob ''x;base64'' = None"
    by (simp add: atob_def stripPadding_def asciiWhitespace_def b64index_def base64Alphabet_def)
  ultimately show ?thesis
    by (simp add: roundTrip_def exportAll_essayDb importAll_def versionRejected_def dbVersion_def
                clearAllData_emptyDb getAllAlbums_emptyDb truthy_def base64ToBlob_def)
qed

lemma roundTrip_strayVideo:
  "roundTrip now later strayVideoDb = (Inl InvalidReference, emptyDb)"
proof -
  have "exportAll no_faults now strayVideoDb =
     Inr \<lparr>snap_version = Some dbVersion, snap_timestamp = now, snap_assets = [], snap_albums = [],
      snap_photos = [], snap_essays = [],
      snap_videos = records (videos strayVideoDb)\<rparr>"
    by (simp add: exportAll_no_faults strayVideoDb_def albumListing_def essayListing_def
                videoListing_def listing_emptyStore emptyDb_def assetKeys_def
                List.map_filter_simps byOrder_eq store_getAll_def emptyStore_def)
  moreover have "records (videos strayVideoDb) =
        [\<lparr>video_id = 1, video_provider = ''youtube'', video_url = ''https://example.com/x'',
          video_embedId = ''x'', video_title = None, video_order = 1,
          video_createdAt = ''2025-01-08T00:00:00.000Z''\<rparr>]"
    by (simp add: strayVideoDb_def)
  ultimately show ?thesis
    by (simp add: roundTrip_def importAll_def versionRejected_def dbVersion_def
                clearAllData_emptyDb getAllAlbums_emptyDb addVideo_def parse_other_example)
qed


section \<open>The round trip of a backup\<close>

lemma views_sampleDb:
  "albumsView sampleDb =
     [(''Family'', [[0xFF, 0xD8, 0x01]]),
      (''Travel'', [[0xFF, 0xD8, 0xFF, 0xE0], [0xFF, 0xD8, 0x02, 0x03, 0x04]])]"
  "essaysView sampleDb = [(''Thesis'', [0x25, 0x50, 0x44, 0x46])]"
  "videosView sampleDb = [''https://vimeo.com/897021152'']"
  "assetsView sampleDb = [None, Some [0x89, 0x50], None]"
  "map album_order (albumListing sampleDb) = [0, 1]"
  by (simp_all add: albumsView_def essaysView_def videosView_def assetsView_def albumListing_def
                    photoListing_def essayListing_def videoListing_def byOrder_eq store_getAll_def
                    photoContent_def essayContent_def assetContent_def assetKeys_def sampleDb_def
                    sampleBlob_def)

lemma renumbered_two: "renumbered ordf L \<Longrightarrow> length L = 2 \<Longrightarrow> map ordf L = [1, 2]"
proof -
  assume "renumbered ordf L" "length L = 2"
  then have "map ordf L = [1 .. 2]" by (simp add: renumbered_def)
  also have "[1 .. 2 :: int] = [1, 2]" by (simp add: upto.simps)
  finally show ?thesis .
qed

lemma length_albumsView: "length (albumsView db) = length (albumListing db)"
  by (simp add: albumsView_def)

lemma roundTrip_sampleDb_orders:
  "map album_order (albumListing (snd (roundTrip now later sampleDb))) = [1, 2]"
proof -
  from roundTrip_backupReady [OF backupReady_sampleDb, of now later] obtain db' where
    d: "roundTrip now later sampleDb = (Inr (), db')" "albumsView db' = albumsView sampleDb"
       "allRenumbered db'"
    by blast
  from d(2) have "length (albumListing db') = 2"
    using length_albumsView [of db'] by (simp add: views_sampleDb)
  moreover from d(3) have "renumbered album_order (albumListing db')"
    by (simp add: allRenumbered_def)
  ultimately have "map album_order (albumListing db') = [1, 2]"
    by (intro renumbered_two)
  with d(1) show ?thesis by simp
qed

text \<open>
  C1, as the code has it. Take a well-formed state of the Local Store (in each store the
  keys ascend and lie below the key generator, as the storage engine keeps them) in which
  every blob that the export encodes (of the photos, the essays and the three branding
  assets) has at least one byte and a type without a comma, and every stored video URL is
  one that \<open>parseVideoUrl\<close> recognises. Then \<open>exportAll\<close> followed by \<open>importAll\<close> of the
  exported document on a fresh store resolves, and the new store lists the same albums
  by name, each with the same photos, the same essays by title and the same video URLs,
  all in the same listing order and with the same bytes in every blob; the three branding
  assets have the same bytes. Ids are assigned anew, and the order values are not kept:
  in every scope they are 1, 2, 3, ... in listing order.
\<close>

theorem export_import_round_trip:
  "backupReady db \<Longrightarrow>
   \<exists>db'. roundTrip now later db = (Inr (), db') \<and> wfDb db' \<and>
         albumsView db' = albumsView db \<and> essaysView db' = essaysView db \<and>
         videosView db' = videosView db \<and> assetsView db' = assetsView db \<and>
         allRenumbered db'"
  by (rule roundTrip_backupReady)

theorem export_import_round_trip_witness:
  "backupReady sampleDb \<and>
   (\<exists>db'. roundTrip ''2025-02-01T00:00:00.000Z'' ''2025-02-02T00:00:00.000Z'' sampleDb = (Inr (), db') \<and>
      albumsView db' =
        [(''Family'', [[0xFF, 0xD8, 0x01]]),
         (''Travel'', [[0xFF, 0xD8, 0xFF, 0xE0], [0xFF, 0xD8, 0x02, 0x03, 0x04]])] \<and>
      essaysView db' = [(''Thesis'', [0x25, 0x50, 0x44, 0x46])] \<and>
      videosView db' = [''https://vimeo.com/897021152''] \<and>
      assetsView db' = [None, Some [0x89, 0x50], None] \<and>
      map album_order (albumListing db') = [1, 2])"
proof -
  from export_import_round_trip [OF backupReady_sampleDb,
         of "''2025-02-01T00:00:00.000Z''" "''2025-02-02T00:00:00.000Z''"]
  obtain db' where
    d: "roundTrip ''2025-02-01T00:00:00.000Z'' ''2025-02-02T00:00:00.000Z'' sampleDb = (Inr (), db')"
       "albumsView db' = albumsView sampleDb" "essaysView db' = essaysView sampleDb"
       "videosView db' = videosView sampleDb" "assetsView db' = assetsView sampleDb"
       "allRenumbered db'"
    by blast
  from d(2) have "length (albumListing db') = 2"
    using length_albumsView [of db'] by (simp add: views_sampleDb)
  moreover from d(6) have "renumbered album_order (albumListing db')"
    by (simp add: allRenumbered_def)
  ultimately have "map album_order (albumListing db') = [1, 2]"
    by (intro renumbered_two)
  with d backupReady_sampleDb show ?thesis
    by (simp add: views_sampleDb)
qed

theorem round_trip_renumbers_and_drops:
  "map album_order (albumListing sampleDb) = [0, 1] \<and>
   map album_order (albumListing (snd (roundTrip ''2025-02-01T00:00:00.000Z''
        ''2025-02-02T00:00:00.000Z'' sampleDb))) = [1, 2] \<and>
   length (records (photos orphanPhotoDb)) = 1 \<and>
   roundTrip ''2025-02-01T00:00:00.000Z'' ''2025-02-02T00:00:00.000Z'' orphanPhotoDb =
     (Inr (), emptyDb) \<and>
   map_option assetContent (assets otherAssetDb ''heroImage'') = Some [0x89, 0x50] \<and>
   roundTrip ''2025-02-01T00:00:00.000Z'' ''2025-02-02T00:00:00.000Z'' otherAssetDb =
     (Inr (), emptyDb) \<and>
   essaysView (essayDb (sampleBlob [] ''application/pdf'')) = [(''Thesis'', [])] \<and>
   roundTrip ''2025-02-01T00:00:00.000Z'' ''2025-02-02T00:00:00.000Z''
     (essayDb (sampleBlob [] ''application/pdf'')) = (Inr (), emptyDb) \<and>
   roundTrip ''2025-02-01T00:00:00.000Z'' ''2025-02-02T00:00:00.000Z''
     (essayDb (sampleBlob [0x25] ''application/pdf,x'')) = (Inl InvalidCharacter, emptyDb) \<and>
   roundTrip ''2025-02-01T00:00:00.000Z'' ''2025-02-02T00:00:00.000Z'' strayVideoDb =
     (Inl InvalidReference, emptyDb)"
proof -
  have "length (records (photos orphanPhotoDb)) = 1"
    by (simp add: orphanPhotoDb_def)
  moreover have "map_option assetContent (assets otherAssetDb ''heroImage'') = Some [0x89, 0x50]"
    by (simp add: otherAssetDb_def assetContent_def sampleBlob_def)
  moreover have "essaysView (essayDb (sampleBlob [] ''application/pdf'')) = [(''Thesis'', [])]"
    by (simp add: essaysView_def essayListing_def essayContent_def byOrder_eq store_getAll_def
                  essayDb_def sampleBlob_def)
  ultimately show ?thesis
    by (simp add: views_sampleDb roundTrip_sampleDb_orders roundTrip_orphan roundTrip_otherAsset
                  roundTrip_emptyFile roundTrip_commaType roundTrip_strayVideo)
qed

end
